(* ===== verification/Prelude.thy ===== *)
theory Prelude
  imports Main "HOL-Library.Sublist" "HOL-Library.Word"
begin

text \<open>
  Shared vocabulary of the development: the collections of rewrite rules the component
  theories fill, and the generic facts on lists, options and maps that several of them use.
  Nothing in this theory models code of the repository.

  Go strings are byte strings and are modelled as \<open>string\<close> (lists of 8-bit characters); Go
  maps are partial functions when only look-ups matter and association lists when the code
  ranges over them.
\<close>

unbundle bit_operations_syntax

named_theorems consts_simps "unfolding of named string and number constants of the code"
named_theorems frame_simps "what an operation leaves unchanged"
named_theorems build_simps "unfolding of manifest builders"

type_synonym u32 = "32 word"
type_synonym i32 = "32 word"
type_synonym i64 = "64 word"

text \<open>Results: \<open>Inl\<close> carries the error, \<open>Inr\<close> the value.\<close>

definition is_ok :: "'e + 'a \<Rightarrow> bool" where
  "is_ok r = (case r of Inl _ \<Rightarrow> False | Inr _ \<Rightarrow> True)"

lemma is_ok_simps [simp]: "\<not> is_ok (Inl e)" "is_ok (Inr v)"
  by (simp_all add: is_ok_def)

lemma is_ok_iff: "is_ok r \<longleftrightarrow> (\<exists>v. r = Inr v)"
  by (cases r) simp_all

text \<open>Go's zero value for a missing string key: \<open>m[k]\<close> is the empty string.\<close>

definition str_at :: "(string \<rightharpoonup> string) \<Rightarrow> string \<Rightarrow> string" where
  "str_at m k = (case m k of None \<Rightarrow> '''' | Some v \<Rightarrow> v)"

lemma str_at_simps [simp]:
  "str_at Map.empty k = ''''"
  "str_at (m(k \<mapsto> v)) k = v"
  "k' \<noteq> k \<Longrightarrow> str_at (m(k \<mapsto> v)) k' = str_at m k'"
  "str_at (m(k := None)) k = ''''"
  "k' \<noteq> k \<Longrightarrow> str_at (m(k := None)) k' = str_at m k'"
  by (simp_all add: str_at_def)

text \<open>Prefix of an appended string; two strings with a common prefix differ in the rest.\<close>

lemma append_same_prefix_neq: "b \<noteq> c \<Longrightarrow> a @ b \<noteq> a @ c"
  by simp

lemma take_Suc_eq_append_nth: "n < length xs \<Longrightarrow> take (Suc n) xs = take n xs @ [xs ! n]"
  by (rule take_Suc_conv_app_nth)

lemma distinct_append_filter:
  "distinct xs \<Longrightarrow> distinct ys \<Longrightarrow> distinct (xs @ filter (\<lambda>y. y \<notin> set xs) ys)"
  by (induction ys) auto

lemma length_filter_partition:
  "length (filter P xs) + length (filter (\<lambda>x. \<not> P x) xs) = length xs"
  by (rule sum_length_filter_compl)

lemma find_append:
  "find P (xs @ ys) = (case find P xs of None \<Rightarrow> find P ys | Some x \<Rightarrow> Some x)"
  by (induction xs) auto

lemma find_None_iff_filter: "find P xs = None \<longleftrightarrow> filter P xs = []"
  by (induction xs) auto

lemma length_dropWhile_less_eq: "length (dropWhile P xs) \<le> length xs"
  by (rule length_dropWhile_le)

lemma list_ex_append_single [simp]: "list_ex P (xs @ [x]) \<longleftrightarrow> list_ex P xs \<or> P x"
  by simp

end
