(* ===== verification/GoStd.thy ===== *)
theory GoStd
  imports Prelude
begin

text \<open>
  The fragment of Go's standard library the repository uses as data: packages \<open>strings\<close>,
  \<open>strconv\<close>, \<open>time\<close> (durations) and \<open>flag\<close>. Strings are byte strings; of the Unicode space
  characters only the ASCII ones are treated as space. Errors of \<open>strconv\<close> are the two
  documented causes. Fractions in durations are computed exactly and truncated, where Go goes
  through \<open>float64\<close>; which inputs are accepted is the same but at the overflow border.
\<close>

section \<open>Package strings\<close>

definition HasPrefix :: "string \<Rightarrow> string \<Rightarrow> bool" where
  "HasPrefix s p = prefix p s"

definition HasSuffix :: "string \<Rightarrow> string \<Rightarrow> bool" where
  "HasSuffix s p = suffix p s"

lemma HasPrefix_append [simp]: "HasPrefix (p @ s) p"
  by (simp add: HasPrefix_def)

lemma HasSuffix_append [simp]: "HasSuffix (s @ p) p"
  by (auto simp: HasSuffix_def suffix_def)

lemma HasPrefix_code [simp]:
  "HasPrefix s []"
  "\<not> HasPrefix [] (p # ps)"
  "HasPrefix (c # s) (p # ps) \<longleftrightarrow> c = p \<and> HasPrefix s ps"
  by (auto simp: HasPrefix_def)

lemma HasPrefix_iff: "HasPrefix s p \<longleftrightarrow> (\<exists>r. s = p @ r)"
  by (auto simp: HasPrefix_def prefix_def)

lemma HasSuffix_iff: "HasSuffix s p \<longleftrightarrow> (\<exists>r. s = r @ p)"
  by (auto simp: HasSuffix_def suffix_def)

definition is_space :: "char \<Rightarrow> bool" where
  "is_space c \<longleftrightarrow> c \<in> set [CHR 0x09, CHR 0x0A, CHR 0x0B, CHR 0x0C, CHR 0x0D, CHR '' '']"

definition TrimSpace :: "string \<Rightarrow> string" where
  "TrimSpace s = rev (dropWhile is_space (rev (dropWhile is_space s)))"

text \<open>\<open>strings.Fields\<close>: the maximal runs of non-space characters; \<open>w\<close> is the run being read.\<close>

fun fields_from :: "string \<Rightarrow> string \<Rightarrow> string list" where
  "fields_from w [] = (if w = [] then [] else [w])"
| "fields_from w (c # cs) =
     (if is_space c
      then (if w = [] then fields_from [] cs else w # fields_from [] cs)
      else fields_from (w @ [c]) cs)"

definition Fields :: "string \<Rightarrow> string list" where
  "Fields s = fields_from [] s"

text \<open>\<open>strings.Split\<close> on a one-character separator.\<close>

fun split_char :: "char \<Rightarrow> string \<Rightarrow> string list" where
  "split_char c [] = [[]]"
| "split_char c (x # xs) =
     (if x = c then [] # split_char c xs
      else (case split_char c xs of [] \<Rightarrow> [[x]] | w # ws \<Rightarrow> (x # w) # ws))"

lemma split_char_not_Nil [simp]: "split_char c s \<noteq> []"
  by (induction s) (auto split: list.splits)

lemma TrimSpace_no_space:
  assumes "\<forall>c\<in>set s. \<not> is_space c"
  shows "TrimSpace s = s"
proof -
  have "dropWhile is_space s = s"
    using assms by (cases s) auto
  moreover have "dropWhile is_space (rev s) = rev s"
    using assms by (cases "rev s") (auto dest: arg_cong [where f = set])
  ultimately show ?thesis
    by (simp add: TrimSpace_def)
qed

section \<open>Package strconv\<close>

text \<open>\<open>Itoa\<close>: decimal digits, most significant first.\<close>

definition digit_char :: "nat \<Rightarrow> char" where
  "digit_char d = char_of (48 + d)"

fun nat_digits :: "nat \<Rightarrow> string" where
  "nat_digits n =
     (if n < 10 then [digit_char n] else nat_digits (n div 10) @ [digit_char (n mod 10)])"

declare nat_digits.simps [simp del]

definition Itoa :: "int \<Rightarrow> string" where
  "Itoa i = (if i < 0 then CHR ''-'' # nat_digits (nat (- i)) else nat_digits (nat i))"

datatype num_error = ErrSyntax | ErrRange

definition lower :: "int \<Rightarrow> int" where
  "lower c = (if 65 \<le> c \<and> c \<le> 90 then c + 32 else c)"

definition digit_val :: "char \<Rightarrow> int option" where
  "digit_val c =
     (let n = of_char c in
      if 48 \<le> n \<and> n \<le> 57 then Some (n - 48)
      else if 97 \<le> lower n \<and> lower n \<le> 122 then Some (lower n - 97 + 10)
      else None)"

text \<open>
  The digit loop of \<open>ParseUint\<close>: the first bad digit is a syntax error, the first digit that
  takes the value past \<open>maxv\<close> a range error; whichever comes first is reported.
  \<open>us\<close> says that underscores are skipped (base argument 0).
\<close>

fun parse_digits :: "bool \<Rightarrow> int \<Rightarrow> int \<Rightarrow> int \<Rightarrow> string \<Rightarrow> num_error + int" where
  "parse_digits us base maxv n [] = Inr n"
| "parse_digits us base maxv n (c # cs) =
     (if us \<and> c = CHR ''_'' then parse_digits us base maxv n cs
      else (case digit_val c of
              None \<Rightarrow> Inl ErrSyntax
            | Some d \<Rightarrow>
                if base \<le> d then Inl ErrSyntax
                else if maxv < n * base + d then Inl ErrRange
                else parse_digits us base maxv (n * base + d) cs))"

text \<open>\<open>ParseUint(s, base, bits)\<close> for a base other than 0.\<close>

definition ParseUint :: "string \<Rightarrow> int \<Rightarrow> nat \<Rightarrow> num_error + int" where
  "ParseUint s base bits =
     (if s = [] then Inl ErrSyntax else parse_digits False base (2 ^ bits - 1) 0 s)"

text \<open>The sign and range rules of \<open>ParseInt\<close>, over the unsigned parser it calls.\<close>

definition signed_of :: "nat \<Rightarrow> bool \<Rightarrow> num_error + int \<Rightarrow> num_error + int" where
  "signed_of bits neg r =
     (case r of
        Inl e \<Rightarrow> Inl e
      | Inr un \<Rightarrow>
          if \<not> neg \<and> 2 ^ (bits - 1) \<le> un then Inl ErrRange
          else if neg \<and> 2 ^ (bits - 1) < un then Inl ErrRange
          else Inr (if neg then - un else un))"

definition split_sign :: "string \<Rightarrow> bool \<times> string" where
  "split_sign s =
     (case s of
        [] \<Rightarrow> (False, [])
      | c # cs \<Rightarrow> if c = CHR ''+'' then (False, cs) else if c = CHR ''-'' then (True, cs) else (False, s))"

definition Atoi :: "string \<Rightarrow> num_error + int" where
  "Atoi s =
     (if s = [] then Inl ErrSyntax
      else (case split_sign s of (neg, u) \<Rightarrow> signed_of 64 neg (ParseUint u 10 64)))"

definition ParseBool :: "string \<Rightarrow> num_error + bool" where
  "ParseBool s =
     (if s \<in> set [''1'', ''t'', ''T'', ''true'', ''TRUE'', ''True''] then Inr True
      else if s \<in> set [''0'', ''f'', ''F'', ''false'', ''FALSE'', ''False''] then Inr False
      else Inl ErrSyntax)"

subsection \<open>Decimal printing and parsing\<close>

lemma of_char_digit_char: "d < 10 \<Longrightarrow> (of_char (digit_char d) :: int) = 48 + int d"
proof -
  assume "d < 10"
  then have "(of_char (digit_char d) :: nat) = 48 + d"
    by (simp add: digit_char_def)
  then have "int (of_char (digit_char d)) = 48 + int d"
    by simp
  then show ?thesis
    by (simp only: of_nat_of_char)
qed

lemma digit_val_digit_char: "d < 10 \<Longrightarrow> digit_val (digit_char d) = Some (int d)"
  by (simp add: digit_val_def of_char_digit_char)

lemma nat_digits_nonempty [simp]: "nat_digits n \<noteq> []"
  by (subst nat_digits.simps) simp

lemma digit_char_not_sign:
  "d < 10 \<Longrightarrow> digit_char d \<noteq> CHR ''-'' \<and> digit_char d \<noteq> CHR ''+''"
  by (auto dest: arg_cong [where f = "of_char :: char \<Rightarrow> nat"] simp: digit_char_def)

lemma digit_char_not_space: "d < 10 \<Longrightarrow> \<not> is_space (digit_char d)"
  by (auto dest: arg_cong [where f = "of_char :: char \<Rightarrow> nat"] simp: digit_char_def is_space_def)

lemma nat_digits_digits: "c \<in> set (nat_digits n) \<Longrightarrow> \<exists>d<10. c = digit_char d"
proof (induction n rule: nat_digits.induct)
  case (1 n)
  show ?case
  proof (cases "n < 10")
    case True
    with "1.prems" show ?thesis by (simp add: nat_digits.simps [of n]) blast
  next
    case False
    then have "c = digit_char (n mod 10) \<or> c \<in> set (nat_digits (n div 10))"
      using "1.prems" by (auto simp: nat_digits.simps [of n])
    then show ?thesis
    proof
      assume "c = digit_char (n mod 10)"
      moreover have "n mod 10 < 10" by simp
      ultimately show ?thesis by blast
    next
      assume "c \<in> set (nat_digits (n div 10))"
      with False "1.IH" show ?thesis by blast
    qed
  qed
qed

lemma nat_digits_hd: "n \<noteq> 0 \<Longrightarrow> hd (nat_digits n) \<noteq> CHR ''0''"
proof (induction n rule: nat_digits.induct)
  case (1 n)
  show ?case
  proof (cases "n < 10")
    case True
    then have "digit_char n \<noteq> CHR ''0''"
      using 1 by (auto simp: digit_char_def dest: arg_cong [where f = "of_char :: char \<Rightarrow> nat"])
    with True show ?thesis by (simp add: nat_digits.simps)
  next
    case False
    then show ?thesis using 1 by (subst nat_digits.simps) (simp add: hd_append)
  qed
qed

lemma parse_digits_append:
  "parse_digits us b m n (xs @ ys) =
     (case parse_digits us b m n xs of Inl e \<Rightarrow> Inl e | Inr k \<Rightarrow> parse_digits us b m k ys)"
  by (induction us b m n xs rule: parse_digits.induct) (auto split: option.splits)

lemma parse_digits_nat_digits:
  "int n \<le> maxv \<Longrightarrow> parse_digits False 10 maxv 0 (nat_digits n) = Inr (int n)"
proof (induction n rule: nat_digits.induct)
  case (1 n)
  show ?case
  proof (cases "n < 10")
    case True
    with "1.prems" show ?thesis
      by (simp add: nat_digits.simps [of n] digit_val_digit_char)
  next
    case False
    have "int (n div 10) \<le> maxv" using "1.prems" by linarith
    with False "1.IH"
    have "parse_digits False 10 maxv 0 (nat_digits (n div 10)) = Inr (int (n div 10))"
      by simp
    moreover have "int (n div 10) * 10 + int (n mod 10) = int n"
      by (metis div_mult_mod_eq of_nat_add of_nat_mult of_nat_numeral)
    ultimately show ?thesis
      using False "1.prems"
      by (simp add: nat_digits.simps [of n] parse_digits_append digit_val_digit_char
          del: of_nat_div of_nat_mod)
  qed
qed

lemma parse_digits_too_big:
  "maxv < int n \<Longrightarrow> 0 \<le> maxv \<Longrightarrow> parse_digits False 10 maxv 0 (nat_digits n) = Inl ErrRange"
proof (induction n rule: nat_digits.induct)
  case (1 n)
  show ?case
  proof (cases "n < 10")
    case True
    with "1.prems" show ?thesis by (simp add: nat_digits.simps [of n] digit_val_digit_char)
  next
    case big: False
    have split: "int (n div 10) * 10 + int (n mod 10) = int n"
      by (metis div_mult_mod_eq of_nat_add of_nat_mult of_nat_numeral)
    show ?thesis
    proof (cases "maxv < int (n div 10)")
      case True
      with big "1.IH" "1.prems" show ?thesis
        by (simp add: nat_digits.simps [of n] parse_digits_append)
    next
      case False
      with big split "1.prems" show ?thesis
        by (simp add: nat_digits.simps [of n] parse_digits_append parse_digits_nat_digits
            digit_val_digit_char del: of_nat_div of_nat_mod)
    qed
  qed
qed

lemma ParseUint_too_big:
  assumes "2 ^ bits \<le> int n"
  shows "ParseUint (nat_digits n) 10 bits = Inl ErrRange"
proof -
  have "2 ^ bits - 1 < int n" using assms by linarith
  moreover have "(0 :: int) \<le> 2 ^ bits - 1" by simp
  ultimately show ?thesis by (simp only: ParseUint_def nat_digits_nonempty if_False parse_digits_too_big)
qed

lemma ParseUint_nat_digits: "int n < 2 ^ bits \<Longrightarrow> ParseUint (nat_digits n) 10 bits = Inr (int n)"
  by (simp add: ParseUint_def parse_digits_nat_digits)

lemma digit_val_nonneg: "digit_val c = Some d \<Longrightarrow> 0 \<le> d"
  by (auto simp: digit_val_def Let_def split: if_splits)

lemma parse_digits_bound:
  "parse_digits us b m n s = Inr k \<Longrightarrow> 0 \<le> b \<Longrightarrow> 0 \<le> n \<Longrightarrow> n \<le> m \<Longrightarrow> 0 \<le> k \<and> k \<le> m"
  by (induction us b m n s rule: parse_digits.induct)
     (auto split: option.splits if_splits dest: digit_val_nonneg)

lemma ParseUint_bound:
  assumes "ParseUint s b bits = Inr k" and "0 \<le> b"
  shows "0 \<le> k \<and> k < 2 ^ bits"
proof -
  have "parse_digits False b (2 ^ bits - 1) 0 s = Inr k"
    using assms by (simp add: ParseUint_def split: if_splits)
  then have "0 \<le> k \<and> k \<le> 2 ^ bits - 1"
    using assms(2) by (rule parse_digits_bound) simp_all
  then show ?thesis by simp
qed

lemma split_sign_nat_digits: "split_sign (nat_digits n) = (False, nat_digits n)"
proof (cases "nat_digits n")
  case Nil
  then show ?thesis by (simp add: split_sign_def)
next
  case (Cons c cs)
  then have "\<exists>d<10. c = digit_char d"
    using nat_digits_digits [of c n] by simp
  with Cons show ?thesis
    using digit_char_not_sign by (auto simp: split_sign_def)
qed

lemma Atoi_Itoa:
  assumes "- (2 ^ 63) \<le> i" and "i < 2 ^ 63"
  shows "Atoi (Itoa i) = Inr i"
proof (cases "i < 0")
  case True
  then have "ParseUint (nat_digits (nat (- i))) 10 64 = Inr (int (nat (- i)))"
    using assms by (intro ParseUint_nat_digits) simp
  then show ?thesis
    using True assms by (simp add: Atoi_def Itoa_def split_sign_def signed_of_def)
next
  case False
  then have "ParseUint (nat_digits (nat i)) 10 64 = Inr (int (nat i))"
    using assms by (intro ParseUint_nat_digits) simp
  then show ?thesis
    using False assms by (simp add: Atoi_def Itoa_def split_sign_nat_digits signed_of_def)
qed

lemma nat_digits_inject: "nat_digits m = nat_digits n \<Longrightarrow> m = n"
proof -
  assume eq: "nat_digits m = nat_digits n"
  let ?k = "max (int m) (int n)"
  have "parse_digits False 10 ?k 0 (nat_digits m) = Inr (int m)"
    by (rule parse_digits_nat_digits) simp
  moreover have "parse_digits False 10 ?k 0 (nat_digits n) = Inr (int n)"
    by (rule parse_digits_nat_digits) simp
  ultimately show ?thesis
    unfolding eq by (metis sum.inject(2) of_nat_eq_iff)
qed

lemma Itoa_nonneg_inject: "0 \<le> i \<Longrightarrow> 0 \<le> j \<Longrightarrow> Itoa i = Itoa j \<Longrightarrow> i = j"
  by (auto simp: Itoa_def dest: nat_digits_inject)

subsection \<open>Hexadecimal\<close>

definition hex_char :: "nat \<Rightarrow> char" where
  "hex_char d = (if d < 10 then char_of (48 + d) else char_of (87 + d))"

fun hex_digits :: "nat \<Rightarrow> string" where
  "hex_digits n =
     (if n < 16 then [hex_char n] else hex_digits (n div 16) @ [hex_char (n mod 16)])"

declare hex_digits.simps [simp del]

lemma hex_char_lower: "d < 16 \<Longrightarrow> (of_char (hex_char d) :: int) = (if d < 10 then 48 + int d else 87 + int d)"
proof -
  assume "d < 16"
  then have "(of_char (hex_char d) :: nat) = (if d < 10 then 48 + d else 87 + d)"
    by (simp add: hex_char_def)
  then have "int (of_char (hex_char d)) = (if d < 10 then 48 + int d else 87 + int d)" by simp
  then show ?thesis by (simp only: of_nat_of_char)
qed

lemma digit_val_hex_char: "d < 16 \<Longrightarrow> digit_val (hex_char d) = Some (int d)"
  by (simp add: digit_val_def hex_char_lower lower_def)

lemma hex_digits_nonempty [simp]: "hex_digits n \<noteq> []"
  by (subst hex_digits.simps) simp

lemma hex_char_not_space: "d < 16 \<Longrightarrow> \<not> is_space (hex_char d)"
  by (cases "d < 10")
    (auto dest: arg_cong [where f = "of_char :: char \<Rightarrow> nat"] simp: hex_char_def is_space_def)

lemma hex_digits_no_space: "\<forall>c\<in>set (hex_digits n). \<not> is_space c"
proof (induction n rule: hex_digits.induct)
  case (1 n)
  then show ?case
    using hex_char_not_space [of n] hex_char_not_space [of "n mod 16"]
    by (cases "n < 16") (auto simp: hex_digits.simps [of n])
qed

lemma parse_digits_hex_digits:
  "int n \<le> maxv \<Longrightarrow> parse_digits False 16 maxv 0 (hex_digits n) = Inr (int n)"
proof (induction n rule: hex_digits.induct)
  case (1 n)
  show ?case
  proof (cases "n < 16")
    case True
    with "1.prems" show ?thesis by (simp add: hex_digits.simps [of n] digit_val_hex_char)
  next
    case False
    have "int (n div 16) \<le> maxv" using "1.prems" by linarith
    with False "1.IH"
    have "parse_digits False 16 maxv 0 (hex_digits (n div 16)) = Inr (int (n div 16))" by simp
    moreover have "int (n div 16) * 16 + int (n mod 16) = int n"
      by (metis div_mult_mod_eq of_nat_add of_nat_mult of_nat_numeral)
    ultimately show ?thesis
      using False "1.prems"
      by (simp add: hex_digits.simps [of n] parse_digits_append digit_val_hex_char
          del: of_nat_div of_nat_mod)
  qed
qed

lemma ParseUint_hex_digits: "int n < 2 ^ bits \<Longrightarrow> ParseUint (hex_digits n) 16 bits = Inr (int n)"
  by (simp add: ParseUint_def parse_digits_hex_digits)

section \<open>Quoting\<close>

text \<open>
  \<open>strconv.Quote\<close>, the verb \<open>%q\<close>. Bytes from 128 on stand for printable runes and are kept.
\<close>

definition quote_char :: "char \<Rightarrow> string" where
  "quote_char c =
     (let n = (of_char c :: nat) in
      if c = CHR 0x22 \<or> c = CHR 0x5C then [CHR 0x5C, c]
      else if n = 7 then [CHR 0x5C, CHR ''a'']
      else if n = 8 then [CHR 0x5C, CHR ''b'']
      else if n = 9 then [CHR 0x5C, CHR ''t'']
      else if n = 10 then [CHR 0x5C, CHR ''n'']
      else if n = 11 then [CHR 0x5C, CHR ''v'']
      else if n = 12 then [CHR 0x5C, CHR ''f'']
      else if n = 13 then [CHR 0x5C, CHR ''r'']
      else if n < 32 \<or> n = 127 then [CHR 0x5C, CHR ''x'', hex_char (n div 16), hex_char (n mod 16)]
      else [c])"

definition quote :: "string \<Rightarrow> string" where
  "quote s = CHR 0x22 # concat (map quote_char s) @ [CHR 0x22]"

text \<open>The verb \<open>%v\<close> of a truth value.\<close>

definition show_bool :: "bool \<Rightarrow> string" where
  "show_bool b = (if b then ''true'' else ''false'')"

end
