(* ===== verification/ApiTypes.thy ===== *)
theory ApiTypes
  imports GoStd
begin

text \<open>
  The custom resources of \<open>api/v1\<close>: \<open>CXIDriver\<close> (\<open>cxidriver_types.go\<close>) and \<open>CXIDevice\<close>
  (\<open>cxidevice_types.go\<close>), field by field. The string enumerations of the source are Go strings
  that any value can reach, so they are strings here with the declared constants as
  abbreviations. A pointer field is an option. Object metadata keeps the fields the code reads or
  writes; the deletion timestamp is modelled by whether it is set, the owner references by the
  controlling owner. Time stamps inside conditions are managed by the library and left out.
\<close>

section \<open>Shared metadata\<close>

record ObjectMeta =
  om_name :: string
  om_namespace :: string
  om_labels :: "string \<rightharpoonup> string"
  om_annotations :: "string \<rightharpoonup> string"
  om_generation :: int
  om_deleting :: bool
  om_finalizers :: "string list"
  om_controller :: "string option"

definition new_meta :: "string \<Rightarrow> string \<Rightarrow> (string \<rightharpoonup> string) \<Rightarrow> ObjectMeta" where
  "new_meta name ns labels =
     \<lparr>om_name = name, om_namespace = ns, om_labels = labels, om_annotations = Map.empty,
      om_generation = 0, om_deleting = False, om_finalizers = [], om_controller = None\<rparr>"

lemma new_meta_simps [simp]:
  "om_name (new_meta n ns l) = n"
  "om_namespace (new_meta n ns l) = ns"
  "om_labels (new_meta n ns l) = l"
  "om_annotations (new_meta n ns l) = Map.empty"
  "om_generation (new_meta n ns l) = 0"
  "om_deleting (new_meta n ns l) = False"
  "om_finalizers (new_meta n ns l) = []"
  "om_controller (new_meta n ns l) = None"
  by (simp_all add: new_meta_def)

text \<open>\<open>metav1.Condition\<close> and its status values.\<close>

record Condition =
  cond_type :: string
  cond_status :: string
  cond_reason :: string
  cond_message :: string

abbreviation ConditionTrue :: string where "ConditionTrue \<equiv> ''True''"
abbreviation ConditionFalse :: string where "ConditionFalse \<equiv> ''False''"

text \<open>Resource requirements: quantities are kept as the text they are written with.\<close>

record ResourceRequirements =
  rr_requests :: "(string \<times> string) list"
  rr_limits :: "(string \<times> string) list"

definition no_resources :: ResourceRequirements where
  "no_resources = \<lparr>rr_requests = [], rr_limits = []\<rparr>"

section \<open>CXIDriver\<close>

type_synonym DriverSourceType = string
abbreviation DriverSourceDKMS :: DriverSourceType where "DriverSourceDKMS \<equiv> ''dkms''"
abbreviation DriverSourcePrebuilt :: DriverSourceType where "DriverSourcePrebuilt \<equiv> ''prebuilt''"
abbreviation DriverSourcePreinstalled :: DriverSourceType where
  "DriverSourcePreinstalled \<equiv> ''preinstalled''"

type_synonym RetryHandlerMode = string
abbreviation RetryHandlerModeDaemonSet :: RetryHandlerMode where
  "RetryHandlerModeDaemonSet \<equiv> ''daemonset''"
abbreviation RetryHandlerModeSidecar :: RetryHandlerMode where
  "RetryHandlerModeSidecar \<equiv> ''sidecar''"
abbreviation RetryHandlerModeKernel :: RetryHandlerMode where
  "RetryHandlerModeKernel \<equiv> ''kernel''"
abbreviation RetryHandlerModeNone :: RetryHandlerMode where
  "RetryHandlerModeNone \<equiv> ''none''"

type_synonym DeviceSharingMode = string
abbreviation DeviceSharingModeShared :: DeviceSharingMode where
  "DeviceSharingModeShared \<equiv> ''shared''"
abbreviation DeviceSharingModeExclusive :: DeviceSharingMode where
  "DeviceSharingModeExclusive \<equiv> ''exclusive''"

type_synonym DKMSPlatform = string
abbreviation DKMSPlatformCassini :: DKMSPlatform where "DKMSPlatformCassini \<equiv> ''cassini''"
abbreviation DKMSPlatformRosetta :: DKMSPlatform where "DKMSPlatformRosetta \<equiv> ''rosetta''"

record DKMSRepositorySpec =
  repo_url :: string
  repo_ref :: string

record DKMSRepositoriesSpec =
  repos_cxi_driver :: "DKMSRepositorySpec option"
  repos_sbl :: "DKMSRepositorySpec option"
  repos_sl_driver :: "DKMSRepositorySpec option"
  repos_cassini_headers :: "DKMSRepositorySpec option"

record DKMSSourceSpec =
  dkms_tag :: string
  dkms_platform :: DKMSPlatform
  dkms_repositories :: "DKMSRepositoriesSpec option"

record DriverSourceSpec =
  src_type :: DriverSourceType
  src_repository :: string
  src_prebuilt_cache :: string
  src_dkms :: "DKMSSourceSpec option"

text \<open>Tolerations are declared in the API and never read by the code.\<close>

type_synonym Toleration = string

record RetryHandlerDaemonSetSpec =
  rhd_resources :: ResourceRequirements
  rhd_node_selector :: "string \<rightharpoonup> string"
  rhd_tolerations :: "Toleration list"

record RetryHandlerSidecarSpec =
  rhs_resources :: ResourceRequirements

record RetryHandlerSpec =
  rh_enabled :: bool
  rh_mode :: RetryHandlerMode
  rh_image :: string
  rh_daemonset :: "RetryHandlerDaemonSetSpec option"
  rh_sidecar :: "RetryHandlerSidecarSpec option"

record DevicePluginSpec =
  dp_enabled :: bool
  dp_resource_name :: string
  dp_image :: string
  dp_sharing_mode :: DeviceSharingMode
  dp_shared_capacity :: i32

record MetricsExporterSpec =
  me_enabled :: bool
  me_image :: string
  me_port :: i32
  me_resources :: ResourceRequirements

record UpdateStrategySpec =
  us_type :: string
  us_max_unavailable :: string
  us_rollback_on_failure :: bool
  us_health_check_timeout :: string

record CXIDriverSpec =
  spec_version :: string
  spec_source :: DriverSourceSpec
  spec_retry_handler :: RetryHandlerSpec
  spec_device_plugin :: DevicePluginSpec
  spec_metrics_exporter :: MetricsExporterSpec
  spec_node_selector :: "string \<rightharpoonup> string"
  spec_update_strategy :: UpdateStrategySpec

record CXIDriverStatus =
  st_observed_generation :: int
  st_ready :: i32
  st_updating :: i32
  st_failed :: i32
  st_driver_version :: string
  st_retry_handler_mode :: RetryHandlerMode
  st_webhook_ready :: bool
  st_conditions :: "Condition list"

record CXIDriver =
  drv_meta :: ObjectMeta
  drv_spec :: CXIDriverSpec
  drv_status :: CXIDriverStatus

abbreviation drv_name :: "CXIDriver \<Rightarrow> string" where
  "drv_name d \<equiv> om_name (drv_meta d)"

abbreviation drv_conditions :: "CXIDriver \<Rightarrow> Condition list" where
  "drv_conditions d \<equiv> st_conditions (drv_status d)"

section \<open>CXIDevice\<close>

type_synonym CXIDeviceType = string
abbreviation CXIDeviceTypePF :: CXIDeviceType where "CXIDeviceTypePF \<equiv> ''pf''"
abbreviation CXIDeviceTypeVF :: CXIDeviceType where "CXIDeviceTypeVF \<equiv> ''vf''"

type_synonym LinkState = string
abbreviation LinkStateUp :: LinkState where "LinkStateUp \<equiv> ''up''"
abbreviation LinkStateDown :: LinkState where "LinkStateDown \<equiv> ''down''"
abbreviation LinkStateUnknown :: LinkState where "LinkStateUnknown \<equiv> ''unknown''"

type_synonym HealthStatus = string
abbreviation HealthStatusHealthy :: HealthStatus where "HealthStatusHealthy \<equiv> ''Healthy''"
abbreviation HealthStatusDegraded :: HealthStatus where "HealthStatusDegraded \<equiv> ''Degraded''"
abbreviation HealthStatusUnhealthy :: HealthStatus where "HealthStatusUnhealthy \<equiv> ''Unhealthy''"
abbreviation HealthStatusUnknown :: HealthStatus where "HealthStatusUnknown \<equiv> ''Unknown''"

text \<open>
  The status of a device. The retry statistics, link speed, generation, health message and
  conditions are declared in the API and never filled in.
\<close>

record RetryHandlerStats =
  rhs_total :: i64
  rhs_timeout :: i64
  rhs_nack :: i64
  rhs_pending :: i32

record DeviceRetryHandlerStatus =
  drh_enabled :: bool
  drh_policy :: string
  drh_stats :: RetryHandlerStats

record DeviceHealth =
  dh_status :: HealthStatus
  dh_last_check :: "int option"
  dh_message :: string

record CXIDeviceStatus =
  cds_node :: string
  cds_device :: string
  cds_type :: CXIDeviceType
  cds_pci_address :: string
  cds_numa_node :: i32
  cds_nid :: u32
  cds_switch_id :: i32
  cds_link_speed :: string
  cds_link_state :: LinkState
  cds_driver_version :: string
  cds_cassini_generation :: i32
  cds_retry_handler :: DeviceRetryHandlerStatus
  cds_health :: DeviceHealth
  cds_conditions :: "Condition list"

record CXIDeviceObject =
  dev_meta :: ObjectMeta
  dev_status :: CXIDeviceStatus

end
