(* ===== verification/KubeTypes.thy ===== *)
theory KubeTypes
  imports ApiTypes
begin

text \<open>
  The Kubernetes objects the operator builds and edits, with the fields the code sets or reads:
  containers, pods, DaemonSets, config maps and mutating webhook configurations. The types are
  declared outside the repository; the operations on them here are what the API server checks
  of every object (a selector that matches its template, mounts of declared volumes, probes of
  declared ports), stated as a predicate the manifests of the operator are proved to satisfy.
\<close>

text \<open>An environment variable has a value or takes it from a field of the pod.\<close>

datatype EnvSource = EnvValue string | EnvFieldRef string

record EnvVar =
  env_name :: string
  env_source :: EnvSource

record ContainerPort =
  cp_name :: string
  cp_port :: i32
  cp_protocol :: string

record Probe =
  pr_path :: string
  pr_port :: i32
  pr_initial_delay :: i32
  pr_period :: i32
  pr_timeout :: "i32 option"

record VolumeMount =
  vm_name :: string
  vm_path :: string
  vm_read_only :: bool

record SecurityContext =
  sc_privileged :: "bool option"
  sc_run_as_user :: "int option"
  sc_capabilities :: "string list"

record Container =
  c_name :: string
  c_image :: string
  c_args :: "string list"
  c_env :: "EnvVar list"
  c_ports :: "ContainerPort list"
  c_security :: "SecurityContext option"
  c_liveness :: "Probe option"
  c_readiness :: "Probe option"
  c_resources :: ResourceRequirements
  c_mounts :: "VolumeMount list"
  c_restart_policy :: "string option"

datatype VolumeSource = HostPath string | OtherSource string

record Volume =
  v_name :: string
  v_source :: VolumeSource

record PodSpec =
  ps_host_pid :: bool
  ps_node_selector :: "string \<rightharpoonup> string"
  ps_init_containers :: "Container list"
  ps_containers :: "Container list"
  ps_volumes :: "Volume list"

record Pod =
  pod_meta :: ObjectMeta
  pod_spec :: PodSpec

text \<open>The pod template of a DaemonSet carries labels and annotations only.\<close>

record DaemonSetSpec =
  dss_selector :: "string \<rightharpoonup> string"
  dss_template_labels :: "string \<rightharpoonup> string"
  dss_template_annotations :: "string \<rightharpoonup> string"
  dss_pod :: PodSpec

record DaemonSetStatus =
  dst_number_ready :: i32
  dst_desired :: i32
  dst_unavailable :: i32

record DaemonSet =
  ds_meta :: ObjectMeta
  ds_spec :: DaemonSetSpec
  ds_status :: DaemonSetStatus

record ConfigMap =
  cm_meta :: ObjectMeta
  cm_data :: "string \<rightharpoonup> string"

record MutatingWebhook =
  mw_name :: string
  mw_service :: string
  mw_service_namespace :: string
  mw_path :: string
  mw_ca_bundle :: string
  mw_operations :: "string list"
  mw_api_groups :: "string list"
  mw_api_versions :: "string list"
  mw_resources :: "string list"
  mw_failure_policy :: string
  mw_side_effects :: string
  mw_match_policy :: string
  mw_review_versions :: "string list"
  mw_selector_key :: string
  mw_selector_values :: "string list"

record MutatingWebhookConfiguration =
  mwc_meta :: ObjectMeta
  mwc_webhooks :: "MutatingWebhook list"

definition no_status :: DaemonSetStatus where
  "no_status = \<lparr>dst_number_ready = 0, dst_desired = 0, dst_unavailable = 0\<rparr>"

text \<open>Short forms for the nested literals of the source.\<close>

definition env_value :: "string \<Rightarrow> string \<Rightarrow> EnvVar" where
  "env_value n v = \<lparr>env_name = n, env_source = EnvValue v\<rparr>"

definition env_field :: "string \<Rightarrow> string \<Rightarrow> EnvVar" where
  "env_field n p = \<lparr>env_name = n, env_source = EnvFieldRef p\<rparr>"

definition tcp_port :: "string \<Rightarrow> i32 \<Rightarrow> ContainerPort" where
  "tcp_port n p = \<lparr>cp_name = n, cp_port = p, cp_protocol = ''TCP''\<rparr>"

definition http_probe :: "string \<Rightarrow> i32 \<Rightarrow> i32 \<Rightarrow> i32 \<Rightarrow> i32 option \<Rightarrow> Probe" where
  "http_probe path port delay period timeout =
     \<lparr>pr_path = path, pr_port = port, pr_initial_delay = delay, pr_period = period,
      pr_timeout = timeout\<rparr>"

definition mount :: "string \<Rightarrow> string \<Rightarrow> bool \<Rightarrow> VolumeMount" where
  "mount n p ro = \<lparr>vm_name = n, vm_path = p, vm_read_only = ro\<rparr>"

definition host_volume :: "string \<Rightarrow> string \<Rightarrow> Volume" where
  "host_volume n p = \<lparr>v_name = n, v_source = HostPath p\<rparr>"

definition privileged_context :: SecurityContext where
  "privileged_context = \<lparr>sc_privileged = Some True, sc_run_as_user = None, sc_capabilities = []\<rparr>"

lemma literal_simps [simp]:
  "env_name (env_value n v) = n" "env_source (env_value n v) = EnvValue v"
  "env_name (env_field n v) = n" "env_source (env_field n v) = EnvFieldRef v"
  "cp_port (tcp_port n po) = po" "cp_name (tcp_port n po) = n"
  "pr_port (http_probe pa po de pe ti) = po" "pr_path (http_probe pa po de pe ti) = pa"
  "vm_name (mount n p ro) = n" "vm_path (mount n p ro) = p"
  "vm_read_only (mount n p ro) = ro"
  "v_name (host_volume n p) = n" "v_source (host_volume n p) = HostPath p"
  by (simp_all add: env_value_def env_field_def tcp_port_def http_probe_def mount_def
      host_volume_def)

section \<open>Well-formed pods and DaemonSets\<close>

definition probe_ports :: "Container \<Rightarrow> i32 list" where
  "probe_ports c =
     map pr_port ((case c_liveness c of None \<Rightarrow> [] | Some p \<Rightarrow> [p]) @
                  (case c_readiness c of None \<Rightarrow> [] | Some p \<Rightarrow> [p]))"

definition wf_container :: "string list \<Rightarrow> Container \<Rightarrow> bool" where
  "wf_container vols c \<longleftrightarrow>
     c_name c \<noteq> '''' \<and>
     set (map vm_name (c_mounts c)) \<subseteq> set vols \<and>
     distinct (map vm_path (c_mounts c)) \<and>
     set (probe_ports c) \<subseteq> set (map cp_port (c_ports c)) \<and>
     distinct (map env_name (c_env c))"

definition pod_containers :: "PodSpec \<Rightarrow> Container list" where
  "pod_containers p = ps_init_containers p @ ps_containers p"

definition wf_pod :: "PodSpec \<Rightarrow> bool" where
  "wf_pod p \<longleftrightarrow>
     ps_containers p \<noteq> [] \<and>
     distinct (map v_name (ps_volumes p)) \<and>
     distinct (map c_name (pod_containers p)) \<and>
     list_all (wf_container (map v_name (ps_volumes p))) (pod_containers p)"

definition wf_daemonset :: "DaemonSet \<Rightarrow> bool" where
  "wf_daemonset d \<longleftrightarrow>
     dss_selector (ds_spec d) \<noteq> Map.empty \<and>
     dss_selector (ds_spec d) \<subseteq>\<^sub>m dss_template_labels (ds_spec d) \<and>
     wf_pod (dss_pod (ds_spec d))"

text \<open>
  A selector picks the pods whose labels extend it. Two selectors that disagree on a key pick
  disjoint sets of pods.
\<close>

definition selects :: "(string \<rightharpoonup> string) \<Rightarrow> (string \<rightharpoonup> string) \<Rightarrow> bool" where
  "selects sel labels \<longleftrightarrow> sel \<subseteq>\<^sub>m labels"

lemma selectors_disjoint:
  assumes "sel1 k = Some a" and "sel2 k = Some b" and "a \<noteq> b" and "selects sel1 l"
  shows "\<not> selects sel2 l"
proof
  assume "selects sel2 l"
  with assms have "l k = Some a" "l k = Some b"
    by (auto simp: selects_def map_le_def dom_def)
  with assms(3) show False by simp
qed

end
