(* ===== verification/KubeApi.thy ===== *)
theory KubeApi
  imports KubeTypes
begin

text \<open>
  The interface between the reconciler and code outside the repository: the API server, reached
  through the controller-runtime client, and the helper libraries (conditions, finalizers, owner
  references, \<open>RetryOnConflict\<close>). All of it is a parameter: a record of operations over an
  unspecified world \<open>'w\<close>. What the operator relies on is stated by two locales, over a view of the
  world as a \<open>cluster\<close>: reads return the stored object, a write that succeeds has its documented
  effect, and a write that fails either had no effect or had it and lost the reply. Calls may fail
  at any point. Not covered: another writer between two calls of one handler, and stale caches
  (\<open>CachedReads\<close> has the singleton check on a client with a cache).

  The end of the theory interprets both locales on an in-memory API server whose failures follow
  a schedule, so the laws can hold together with every kind of failure.
\<close>

section \<open>Errors and objects\<close>

datatype err_reason = NotFound | Conflict | AlreadyExists | OtherReason

record api_error =
  ae_reason :: err_reason
  ae_text :: string

definition IsNotFound :: "api_error \<Rightarrow> bool" where
  "IsNotFound e \<longleftrightarrow> ae_reason e = NotFound"

text \<open>\<open>fmt.Errorf("...: %w", err)\<close>: the text grows, the reason stays visible.\<close>

definition wrapf :: "string \<Rightarrow> api_error \<Rightarrow> api_error" where
  "wrapf p e = e\<lparr>ae_text := p @ '': '' @ ae_text e\<rparr>"

lemma wrapf_simps [simp]: "ae_reason (wrapf p e) = ae_reason e" "IsNotFound (wrapf p e) = IsNotFound e"
  by (simp_all add: wrapf_def IsNotFound_def)

type_synonym key = "string \<times> string"

record cluster =
  cl_drivers :: "string \<rightharpoonup> CXIDriver"
  cl_cms :: "key \<rightharpoonup> ConfigMap"
  cl_dss :: "key \<rightharpoonup> DaemonSet"
  cl_mwcs :: "string \<rightharpoonup> MutatingWebhookConfiguration"

definition meta_key :: "ObjectMeta \<Rightarrow> key" where
  "meta_key m = (om_namespace m, om_name m)"

text \<open>
  The documented effects of the writes. An update of the main resource keeps the stored status,
  a status update keeps the rest; removing the last finalizer of an object that is being deleted
  removes the object.
\<close>

definition eff_update_driver :: "CXIDriver \<Rightarrow> cluster \<Rightarrow> cluster" where
  "eff_update_driver d c =
     (case cl_drivers c (drv_name d) of
        None \<Rightarrow> c
      | Some old \<Rightarrow>
          c\<lparr>cl_drivers := (cl_drivers c)(drv_name d :=
             (if om_deleting (drv_meta d) \<and> om_finalizers (drv_meta d) = [] then None
              else Some (d\<lparr>drv_status := drv_status old\<rparr>)))\<rparr>)"

definition eff_update_status :: "CXIDriver \<Rightarrow> cluster \<Rightarrow> cluster" where
  "eff_update_status d c =
     (case cl_drivers c (drv_name d) of
        None \<Rightarrow> c
      | Some old \<Rightarrow>
          c\<lparr>cl_drivers := (cl_drivers c)(drv_name d \<mapsto> old\<lparr>drv_status := drv_status d\<rparr>)\<rparr>)"

definition eff_put_cm :: "ConfigMap \<Rightarrow> cluster \<Rightarrow> cluster" where
  "eff_put_cm m c = c\<lparr>cl_cms := (cl_cms c)(meta_key (cm_meta m) \<mapsto> m)\<rparr>"

definition eff_put_ds :: "DaemonSet \<Rightarrow> cluster \<Rightarrow> cluster" where
  "eff_put_ds d c = c\<lparr>cl_dss := (cl_dss c)(meta_key (ds_meta d) \<mapsto> d)\<rparr>"

definition eff_put_mwc :: "MutatingWebhookConfiguration \<Rightarrow> cluster \<Rightarrow> cluster" where
  "eff_put_mwc m c = c\<lparr>cl_mwcs := (cl_mwcs c)(om_name (mwc_meta m) \<mapsto> m)\<rparr>"

definition eff_delete_mwc :: "MutatingWebhookConfiguration \<Rightarrow> cluster \<Rightarrow> cluster" where
  "eff_delete_mwc m c = c\<lparr>cl_mwcs := (cl_mwcs c)(om_name (mwc_meta m) := None)\<rparr>"

section \<open>The operations\<close>

record k8s_lib =
  k_set_controller_reference :: "CXIDriver \<Rightarrow> ObjectMeta \<Rightarrow> api_error + ObjectMeta"
  k_contains_finalizer :: "ObjectMeta \<Rightarrow> string \<Rightarrow> bool"
  k_add_finalizer :: "ObjectMeta \<Rightarrow> string \<Rightarrow> ObjectMeta"
  k_remove_finalizer :: "ObjectMeta \<Rightarrow> string \<Rightarrow> ObjectMeta"
  k_set_status_condition :: "Condition list \<Rightarrow> Condition \<Rightarrow> Condition list"
  k_remove_status_condition :: "Condition list \<Rightarrow> string \<Rightarrow> Condition list"

type_synonym ('w, 'a) reader = "'w \<Rightarrow> 'w \<times> (api_error + 'a)"
type_synonym 'w writer = "'w \<Rightarrow> 'w \<times> api_error option"

record 'w k8s = k8s_lib +
  k_get_driver :: "string \<Rightarrow> ('w, CXIDriver) reader"
  k_update_driver :: "CXIDriver \<Rightarrow> 'w writer"
  k_update_driver_status :: "CXIDriver \<Rightarrow> 'w writer"
  k_get_cm :: "key \<Rightarrow> ('w, ConfigMap) reader"
  k_create_cm :: "ConfigMap \<Rightarrow> 'w writer"
  k_update_cm :: "ConfigMap \<Rightarrow> 'w writer"
  k_get_ds :: "key \<Rightarrow> ('w, DaemonSet) reader"
  k_create_ds :: "DaemonSet \<Rightarrow> 'w writer"
  k_update_ds :: "DaemonSet \<Rightarrow> 'w writer"
  k_get_mwc :: "string \<Rightarrow> ('w, MutatingWebhookConfiguration) reader"
  k_create_mwc :: "MutatingWebhookConfiguration \<Rightarrow> 'w writer"
  k_update_mwc :: "MutatingWebhookConfiguration \<Rightarrow> 'w writer"
  k_delete_mwc :: "MutatingWebhookConfiguration \<Rightarrow> 'w writer"
  k_retry_on_conflict :: "'w writer \<Rightarrow> 'w writer"

text \<open>Retrying a write while it reports a conflict, at most \<open>n\<close> more times.\<close>

fun retry_steps :: "nat \<Rightarrow> 'w writer \<Rightarrow> 'w writer" where
  "retry_steps 0 f w = f w"
| "retry_steps (Suc n) f w =
     (case f w of
        (w', None) \<Rightarrow> (w', None)
      | (w', Some e) \<Rightarrow> if ae_reason e = Conflict then retry_steps n f w' else (w', Some e))"

lemma retry_steps_invariant:
  assumes "\<And>w w' r. f w = (w', r) \<Longrightarrow> P w \<Longrightarrow> P w'" and "retry_steps n f w = (w', r)" and "P w"
  shows "P w'"
  using assms(2,3)
proof (induction n arbitrary: w)
  case 0
  then show ?case using assms(1) by simp
next
  case (Suc n)
  obtain w1 r1 where "f w = (w1, r1)" by (cases "f w")
  with Suc.prems assms(1) [of w w1 r1] show ?case
    by (auto split: option.splits if_splits intro: Suc.IH)
qed

lemma retry_steps_success:
  assumes "retry_steps n f w = (w', None)"
    and "\<And>w w' r. f w = (w', r) \<Longrightarrow> P w \<Longrightarrow> P w'" and "P w"
  shows "\<exists>w1. P w1 \<and> f w1 = (w', None)"
  using assms(1,3)
proof (induction n arbitrary: w)
  case 0
  then show ?case by auto
next
  case (Suc n)
  obtain w1 r1 where f: "f w = (w1, r1)" by (cases "f w")
  with Suc.prems assms(2) [OF f] show ?case
    by (auto split: option.splits if_splits intro: Suc.IH)
qed

definition find_condition :: "Condition list \<Rightarrow> string \<Rightarrow> Condition option" where
  "find_condition cs t = find (\<lambda>c. cond_type c = t) cs"

section \<open>The laws\<close>

locale k8s_lib_laws =
  fixes L :: "'b k8s_lib_scheme"
  assumes set_controller_reference:
      "k_set_controller_reference L d m = Inr m' \<Longrightarrow> m' = m\<lparr>om_controller := Some (drv_name d)\<rparr>"
    and contains_finalizer: "k_contains_finalizer L m f \<longleftrightarrow> f \<in> set (om_finalizers m)"
    and add_finalizer:
      "\<exists>fs. k_add_finalizer L m f = m\<lparr>om_finalizers := fs\<rparr> \<and> set fs = insert f (set (om_finalizers m))"
    and remove_finalizer:
      "\<exists>fs. k_remove_finalizer L m f = m\<lparr>om_finalizers := fs\<rparr> \<and> set fs = set (om_finalizers m) - {f}"
    and set_status_condition:
      "find_condition (k_set_status_condition L cs c) t =
         (if t = cond_type c then Some c else find_condition cs t)"
    and remove_status_condition:
      "find_condition (k_remove_status_condition L cs t') t =
         (if t = t' then None else find_condition cs t)"

text \<open>
  Reading leaves the cluster alone, returns what is stored, and reports "not found" only of an
  absent object. A write that reports success found its object (or its place) and took effect.
\<close>

definition reads :: "('w \<Rightarrow> 'c) \<Rightarrow> ('c \<Rightarrow> 'a option) \<Rightarrow> ('w, 'a) reader \<Rightarrow> bool" where
  "reads view look g \<longleftrightarrow>
     (\<forall>w w' r. g w = (w', r) \<longrightarrow> view w' = view w \<and>
        (case r of Inr x \<Rightarrow> look (view w) = Some x | Inl e \<Rightarrow> IsNotFound e \<longrightarrow> look (view w) = None))"

definition writes ::
  "('w \<Rightarrow> 'c) \<Rightarrow> ('c \<Rightarrow> bool) \<Rightarrow> ('c \<Rightarrow> 'c) \<Rightarrow> 'w writer \<Rightarrow> bool" where
  "writes view pre eff g \<longleftrightarrow>
     (\<forall>w w' r. g w = (w', r) \<longrightarrow>
        (case r of
           None \<Rightarrow> pre (view w) \<and> view w' = eff (view w)
         | Some e \<Rightarrow> view w' = view w \<or> (pre (view w) \<and> view w' = eff (view w))))"

locale k8s_api = k8s_lib_laws K for K :: "'w k8s" +
  fixes view :: "'w \<Rightarrow> cluster"
  assumes get_driver: "reads view (\<lambda>c. cl_drivers c n) (k_get_driver K n)"
    and update_driver:
      "writes view (\<lambda>c. cl_drivers c (drv_name d) \<noteq> None) (eff_update_driver d) (k_update_driver K d)"
    and update_driver_status:
      "writes view (\<lambda>c. cl_drivers c (drv_name d) \<noteq> None) (eff_update_status d)
         (k_update_driver_status K d)"
    and get_cm: "reads view (\<lambda>c. cl_cms c k) (k_get_cm K k)"
    and create_cm:
      "writes view (\<lambda>c. cl_cms c (meta_key (cm_meta m)) = None) (eff_put_cm m) (k_create_cm K m)"
    and update_cm:
      "writes view (\<lambda>c. cl_cms c (meta_key (cm_meta m)) \<noteq> None) (eff_put_cm m) (k_update_cm K m)"
    and get_ds: "reads view (\<lambda>c. cl_dss c k) (k_get_ds K k)"
    and create_ds:
      "writes view (\<lambda>c. cl_dss c (meta_key (ds_meta s)) = None) (eff_put_ds s) (k_create_ds K s)"
    and update_ds:
      "writes view (\<lambda>c. cl_dss c (meta_key (ds_meta s)) \<noteq> None) (eff_put_ds s) (k_update_ds K s)"
    and get_mwc: "reads view (\<lambda>c. cl_mwcs c n) (k_get_mwc K n)"
    and create_mwc:
      "writes view (\<lambda>c. cl_mwcs c (om_name (mwc_meta m')) = None) (eff_put_mwc m') (k_create_mwc K m')"
    and update_mwc:
      "writes view (\<lambda>c. cl_mwcs c (om_name (mwc_meta m')) \<noteq> None) (eff_put_mwc m') (k_update_mwc K m')"
    and delete_mwc:
      "writes view (\<lambda>c. cl_mwcs c (om_name (mwc_meta m')) \<noteq> None) (eff_delete_mwc m')
         (k_delete_mwc K m')"
    and delete_mwc_not_found:
      "k_delete_mwc K m' w = (w', Some e) \<Longrightarrow> IsNotFound e \<Longrightarrow>
         view w' = view w \<and> cl_mwcs (view w) (om_name (mwc_meta m')) = None"
    and retry_on_conflict: "\<exists>n. k_retry_on_conflict K = retry_steps n"

text \<open>
  A server that answers: in the worlds \<open>ok\<close>, reads and writes whose precondition holds succeed.
\<close>

definition answers ::
  "('w \<Rightarrow> bool) \<Rightarrow> ('w \<Rightarrow> 'c) \<Rightarrow> ('c \<Rightarrow> 'a option) \<Rightarrow> ('w, 'a) reader \<Rightarrow> bool" where
  "answers ok view look g \<longleftrightarrow>
     (\<forall>w. ok w \<longrightarrow> ok (fst (g w)) \<and>
        (case look (view w) of
           Some x \<Rightarrow> snd (g w) = Inr x
         | None \<Rightarrow> (\<exists>e. snd (g w) = Inl e \<and> IsNotFound e)))"

definition accepts ::
  "('w \<Rightarrow> bool) \<Rightarrow> ('w \<Rightarrow> 'c) \<Rightarrow> ('c \<Rightarrow> bool) \<Rightarrow> 'w writer \<Rightarrow> bool" where
  "accepts ok view pre g \<longleftrightarrow>
     (\<forall>w. ok w \<longrightarrow> ok (fst (g w)) \<and> (pre (view w) \<longrightarrow> snd (g w) = None))"

locale k8s_reliable = k8s_api +
  fixes ok :: "'a \<Rightarrow> bool"
  assumes ans_get_driver: "answers ok view (\<lambda>c. cl_drivers c n) (k_get_driver K n)"
    and acc_update_driver:
      "accepts ok view (\<lambda>c. cl_drivers c (drv_name d) \<noteq> None) (k_update_driver K d)"
    and acc_update_driver_status:
      "accepts ok view (\<lambda>c. cl_drivers c (drv_name d) \<noteq> None) (k_update_driver_status K d)"
    and ans_get_cm: "answers ok view (\<lambda>c. cl_cms c k) (k_get_cm K k)"
    and acc_create_cm:
      "accepts ok view (\<lambda>c. cl_cms c (meta_key (cm_meta m)) = None) (k_create_cm K m)"
    and acc_update_cm:
      "accepts ok view (\<lambda>c. cl_cms c (meta_key (cm_meta m)) \<noteq> None) (k_update_cm K m)"
    and ans_get_ds: "answers ok view (\<lambda>c. cl_dss c k) (k_get_ds K k)"
    and acc_create_ds:
      "accepts ok view (\<lambda>c. cl_dss c (meta_key (ds_meta s)) = None) (k_create_ds K s)"
    and acc_update_ds:
      "accepts ok view (\<lambda>c. cl_dss c (meta_key (ds_meta s)) \<noteq> None) (k_update_ds K s)"
    and ans_get_mwc: "answers ok view (\<lambda>c. cl_mwcs c n) (k_get_mwc K n)"
    and acc_create_mwc:
      "accepts ok view (\<lambda>c. cl_mwcs c (om_name (mwc_meta m')) = None) (k_create_mwc K m')"
    and acc_update_mwc:
      "accepts ok view (\<lambda>c. cl_mwcs c (om_name (mwc_meta m')) \<noteq> None) (k_update_mwc K m')"
    and acc_delete_mwc:
      "accepts ok view (\<lambda>c. cl_mwcs c (om_name (mwc_meta m')) \<noteq> None) (k_delete_mwc K m')"
    and ref_ok: "om_controller mm = None \<Longrightarrow> is_ok (k_set_controller_reference K d mm)"

section \<open>A reference API server with scheduled failures\<close>

text \<open>
  The world is what is stored and a schedule, one entry per call: accept the call, refuse it,
  refuse it with a conflict, or carry it out and lose the reply. An empty schedule accepts.
\<close>

datatype fault = Accept | Refuse | RefuseConflict | LoseReply

type_synonym 'c ref_state = "'c \<times> fault list"
type_synonym ref_world = "cluster ref_state"

definition server_error :: "err_reason \<Rightarrow> api_error" where
  "server_error r = \<lparr>ae_reason = r, ae_text = ''server error''\<rparr>"

definition next_fault :: "'c ref_state \<Rightarrow> fault \<times> 'c ref_state" where
  "next_fault w = (case snd w of [] \<Rightarrow> (Accept, w) | f # fs \<Rightarrow> (f, (fst w, fs)))"

definition ref_read :: "('c \<Rightarrow> 'a option) \<Rightarrow> ('c ref_state, 'a) reader" where
  "ref_read look w =
     (case next_fault w of
        (f, w1) \<Rightarrow>
          (w1, if f \<noteq> Accept then Inl (server_error OtherReason)
               else (case look (fst w1) of None \<Rightarrow> Inl (server_error NotFound) | Some x \<Rightarrow> Inr x)))"

definition ref_write ::
  "err_reason \<Rightarrow> ('c \<Rightarrow> bool) \<Rightarrow> ('c \<Rightarrow> 'c) \<Rightarrow> 'c ref_state writer" where
  "ref_write missing pre eff w =
     (case next_fault w of
        (f, (c, fs)) \<Rightarrow>
          if f = Refuse then ((c, fs), Some (server_error OtherReason))
          else if f = RefuseConflict then ((c, fs), Some (server_error Conflict))
          else if \<not> pre c then ((c, fs), Some (server_error missing))
          else ((eff c, fs), if f = LoseReply then Some (server_error OtherReason) else None))"

definition ref_set_condition :: "Condition list \<Rightarrow> Condition \<Rightarrow> Condition list" where
  "ref_set_condition cs c =
     (if list_ex (\<lambda>x. cond_type x = cond_type c) cs
      then map (\<lambda>x. if cond_type x = cond_type c then c else x) cs else cs @ [c])"

definition ref_k8s :: "ref_world k8s" where
  "ref_k8s =
     \<lparr>k_set_controller_reference = (\<lambda>d m.
        if om_controller m = None \<or> om_controller m = Some (drv_name d)
        then Inr (m\<lparr>om_controller := Some (drv_name d)\<rparr>) else Inl (server_error OtherReason)),
      k_contains_finalizer = (\<lambda>m f. f \<in> set (om_finalizers m)),
      k_add_finalizer = (\<lambda>m f.
        if f \<in> set (om_finalizers m) then m else m\<lparr>om_finalizers := om_finalizers m @ [f]\<rparr>),
      k_remove_finalizer = (\<lambda>m f. m\<lparr>om_finalizers := filter (\<lambda>g. g \<noteq> f) (om_finalizers m)\<rparr>),
      k_set_status_condition = ref_set_condition,
      k_remove_status_condition = (\<lambda>cs t. filter (\<lambda>c. cond_type c \<noteq> t) cs),
      k_get_driver = (\<lambda>n. ref_read (\<lambda>c. cl_drivers c n)),
      k_update_driver = (\<lambda>d.
        ref_write NotFound (\<lambda>c. cl_drivers c (drv_name d) \<noteq> None) (eff_update_driver d)),
      k_update_driver_status = (\<lambda>d.
        ref_write NotFound (\<lambda>c. cl_drivers c (drv_name d) \<noteq> None) (eff_update_status d)),
      k_get_cm = (\<lambda>k. ref_read (\<lambda>c. cl_cms c k)),
      k_create_cm = (\<lambda>m.
        ref_write AlreadyExists (\<lambda>c. cl_cms c (meta_key (cm_meta m)) = None) (eff_put_cm m)),
      k_update_cm = (\<lambda>m.
        ref_write NotFound (\<lambda>c. cl_cms c (meta_key (cm_meta m)) \<noteq> None) (eff_put_cm m)),
      k_get_ds = (\<lambda>k. ref_read (\<lambda>c. cl_dss c k)),
      k_create_ds = (\<lambda>s.
        ref_write AlreadyExists (\<lambda>c. cl_dss c (meta_key (ds_meta s)) = None) (eff_put_ds s)),
      k_update_ds = (\<lambda>s.
        ref_write NotFound (\<lambda>c. cl_dss c (meta_key (ds_meta s)) \<noteq> None) (eff_put_ds s)),
      k_get_mwc = (\<lambda>n. ref_read (\<lambda>c. cl_mwcs c n)),
      k_create_mwc = (\<lambda>m.
        ref_write AlreadyExists (\<lambda>c. cl_mwcs c (om_name (mwc_meta m)) = None) (eff_put_mwc m)),
      k_update_mwc = (\<lambda>m.
        ref_write NotFound (\<lambda>c. cl_mwcs c (om_name (mwc_meta m)) \<noteq> None) (eff_put_mwc m)),
      k_delete_mwc = (\<lambda>m.
        ref_write NotFound (\<lambda>c. cl_mwcs c (om_name (mwc_meta m)) \<noteq> None) (eff_delete_mwc m)),
      k_retry_on_conflict = retry_steps 3\<rparr>"

lemma find_condition_map:
  "find_condition (map (\<lambda>x. if cond_type x = cond_type c then c else x) cs) t =
     (if t = cond_type c
      then (if list_ex (\<lambda>x. cond_type x = cond_type c) cs then Some c else None)
      else find_condition cs t)"
  by (induction cs) (auto simp: find_condition_def)

lemma find_condition_ref_set:
  "find_condition (ref_set_condition cs c) t =
     (if t = cond_type c then Some c else find_condition cs t)"
proof (cases "list_ex (\<lambda>x. cond_type x = cond_type c) cs")
  case True
  then show ?thesis by (simp add: ref_set_condition_def find_condition_map)
next
  case False
  then have "find (\<lambda>x. cond_type x = cond_type c) cs = None"
    by (induction cs) auto
  with False show ?thesis
    by (auto simp: ref_set_condition_def find_condition_def find_append split: option.split)
qed

lemma find_condition_filter:
  "find_condition (filter (\<lambda>c. cond_type c \<noteq> t') cs) t =
     (if t = t' then None else find_condition cs t)"
  by (induction cs) (auto simp: find_condition_def)

lemma reads_ref_read: "reads fst look (ref_read look)"
  by (auto simp: reads_def ref_read_def next_fault_def server_error_def IsNotFound_def
      split: list.splits option.splits if_splits)

lemma writes_ref_write: "writes fst pre eff (ref_write missing pre eff)"
  by (auto simp: writes_def ref_write_def next_fault_def split: list.splits if_splits)

lemma answers_ref_read: "answers (\<lambda>w. snd w = []) fst look (ref_read look)"
  by (auto simp: answers_def ref_read_def next_fault_def server_error_def IsNotFound_def
      split: option.splits)

lemma accepts_ref_write: "accepts (\<lambda>w. snd w = []) fst pre (ref_write missing pre eff)"
  by (auto simp: accepts_def ref_write_def next_fault_def)

lemma ref_write_not_found:
  "ref_write missing pre eff w = (w', Some e) \<Longrightarrow> IsNotFound e \<Longrightarrow> fst w' = fst w \<and> \<not> pre (fst w)"
  by (cases w) (auto simp: ref_write_def next_fault_def server_error_def IsNotFound_def
      split: list.splits if_splits)

interpretation ref: k8s_api ref_k8s fst
proof (unfold_locales, goal_cases)
  case (3 m f)
  show ?case
  proof (cases "f \<in> set (om_finalizers m)")
    case True
    then show ?thesis
      by (intro exI [of _ "om_finalizers m"]) (auto simp: ref_k8s_def)
  next
    case False
    then show ?thesis
      by (intro exI [of _ "om_finalizers m @ [f]"]) (simp add: ref_k8s_def)
  qed
next
  case 20
  then show ?case by (auto simp: ref_k8s_def dest: ref_write_not_found)
qed (auto simp: ref_k8s_def find_condition_ref_set find_condition_filter reads_ref_read
    writes_ref_write split: if_splits)

text \<open>With an empty schedule every call is answered.\<close>

interpretation ref_ok: k8s_reliable ref_k8s fst "\<lambda>w. snd w = []"
  by unfold_locales (auto simp: ref_k8s_def answers_ref_read accepts_ref_write)

end
