(* ===== verification/GoFlag.thy ===== *)
theory GoFlag
  imports GoStd
begin

text \<open>
  The rest of the standard library the programs read their settings with: \<open>ParseInt\<close> with base
  argument 0 (what an integer flag uses), \<open>time.ParseDuration\<close>, and package \<open>flag\<close> with the
  default error handling (a bad command line ends the program). A parsed command line is the
  list of assignments it makes, in order; the last one for a flag wins.
\<close>

section \<open>ParseInt with base argument 0\<close>

fun underscore_scan :: "bool \<Rightarrow> char \<Rightarrow> string \<Rightarrow> bool" where
  "underscore_scan hex saw [] \<longleftrightarrow> saw \<noteq> CHR ''_''"
| "underscore_scan hex saw (c # cs) =
     (let n = of_char c :: int in
      if (48 \<le> n \<and> n \<le> 57) \<or> (hex \<and> 97 \<le> lower n \<and> lower n \<le> 102)
      then underscore_scan hex (CHR ''0'') cs
      else if c = CHR ''_''
      then (if saw \<noteq> CHR ''0'' then False else underscore_scan hex (CHR ''_'') cs)
      else if saw = CHR ''_'' then False
      else underscore_scan hex (CHR ''!'') cs)"

text \<open>The base a literal announces, and its digits.\<close>

fun base_prefix :: "string \<Rightarrow> int \<times> string" where
  "base_prefix (z # x # d # cs) =
     (if z \<noteq> CHR ''0'' then (10, z # x # d # cs)
      else if x \<in> set ''bB'' then (2, d # cs)
      else if x \<in> set ''oO'' then (8, d # cs)
      else if x \<in> set ''xX'' then (16, d # cs)
      else (8, x # d # cs))"
| "base_prefix (z # cs) = (if z \<noteq> CHR ''0'' then (10, z # cs) else (8, cs))"
| "base_prefix [] = (10, [])"

definition underscoreOK :: "string \<Rightarrow> bool" where
  "underscoreOK s =
     (let u = snd (split_sign s) in
      case u of
        z # x # cs \<Rightarrow>
          if z = CHR ''0'' \<and> x \<in> set ''bBoOxX''
          then underscore_scan (x \<in> set ''xX'') (CHR ''0'') cs
          else underscore_scan False (CHR ''^'') u
      | _ \<Rightarrow> underscore_scan False (CHR ''^'') u)"

definition ParseUint0 :: "string \<Rightarrow> nat \<Rightarrow> num_error + int" where
  "ParseUint0 s bits =
     (if s = [] then Inl ErrSyntax
      else (case base_prefix s of
              (b, ds) \<Rightarrow>
                (case parse_digits True b (2 ^ bits - 1) 0 ds of
                   Inl e \<Rightarrow> Inl e
                 | Inr n \<Rightarrow>
                     if CHR ''_'' \<in> set ds \<and> \<not> underscoreOK s then Inl ErrSyntax else Inr n)))"

definition ParseInt0 :: "string \<Rightarrow> num_error + int" where
  "ParseInt0 s =
     (if s = [] then Inl ErrSyntax
      else (case split_sign s of (neg, u) \<Rightarrow> signed_of 64 neg (ParseUint0 u 64)))"

section \<open>Durations\<close>

text \<open>A duration is a number of nanoseconds; \<open>max_dur\<close> is \<open>1<<63\<close>.\<close>

abbreviation max_dur :: int where
  "max_dur \<equiv> 9223372036854775808"

abbreviation Second :: int where
  "Second \<equiv> 1000000000"

definition is_digit :: "char \<Rightarrow> bool" where
  "is_digit c \<longleftrightarrow> c \<in> set ''0123456789''"

definition dval :: "char \<Rightarrow> int" where
  "dval c = of_char c - 48"

fun leadingInt :: "int \<Rightarrow> string \<Rightarrow> (int \<times> string) option" where
  "leadingInt x [] = Some (x, [])"
| "leadingInt x (c # cs) =
     (if \<not> is_digit c then Some (x, c # cs)
      else if max_dur div 10 < x then None
      else if max_dur < x * 10 + dval c then None
      else leadingInt (x * 10 + dval c) cs)"

fun leadingFraction :: "int \<Rightarrow> int \<Rightarrow> bool \<Rightarrow> string \<Rightarrow> int \<times> int \<times> string" where
  "leadingFraction x scale overflow [] = (x, scale, [])"
| "leadingFraction x scale overflow (c # cs) =
     (if \<not> is_digit c then (x, scale, c # cs)
      else if overflow then leadingFraction x scale True cs
      else if (max_dur - 1) div 10 < x then leadingFraction x scale True cs
      else if max_dur < x * 10 + dval c then leadingFraction x scale True cs
      else leadingFraction (x * 10 + dval c) (scale * 10) False cs)"

definition unitMap :: "string \<Rightarrow> int option" where
  "unitMap u = map_of
     [(''ns'', 1), (''us'', 1000), ([CHR 0xC2, CHR 0xB5, CHR ''s''], 1000),
      ([CHR 0xCE, CHR 0xBC, CHR ''s''], 1000), (''ms'', 1000000), (''s'', 1000000000),
      (''m'', 60000000000), (''h'', 3600000000000)] u"

text \<open>One \<open>number unit\<close> group: its value and the rest of the string.\<close>

definition duration_group :: "string \<Rightarrow> (int \<times> string) option" where
  "duration_group s =
     (if s = [] \<or> \<not> (hd s = CHR ''.'' \<or> is_digit (hd s)) then None
      else (case leadingInt 0 s of
              None \<Rightarrow> None
            | Some (v, s1) \<Rightarrow>
                let pre = length s1 \<noteq> length s;
                    dot = (s1 \<noteq> [] \<and> hd s1 = CHR ''.'');
                    (f, scale, s2) = (if dot then leadingFraction 0 1 False (tl s1) else (0, 1, s1));
                    post = (dot \<and> length s2 \<noteq> length (tl s1));
                    u = takeWhile (\<lambda>c. \<not> (c = CHR ''.'' \<or> is_digit c)) s2;
                    s3 = dropWhile (\<lambda>c. \<not> (c = CHR ''.'' \<or> is_digit c)) s2
                in if \<not> pre \<and> \<not> post then None
                   else if u = [] then None
                   else (case unitMap u of
                           None \<Rightarrow> None
                         | Some unit \<Rightarrow>
                             if max_dur div unit < v then None
                             else let w = v * unit + f * unit div scale
                                  in if 0 < f \<and> max_dur < w then None else Some (w, s3))))"

fun duration_groups :: "nat \<Rightarrow> int \<Rightarrow> string \<Rightarrow> int option" where
  "duration_groups fuel d [] = Some d"
| "duration_groups 0 d (c # cs) = None"
| "duration_groups (Suc fuel) d (c # cs) =
     (case duration_group (c # cs) of
        None \<Rightarrow> None
      | Some (v, rest) \<Rightarrow>
          if max_dur < d + v then None else duration_groups fuel (d + v) rest)"

text \<open>Every group takes at least one character, so the length of the string is enough fuel.\<close>

definition ParseDuration :: "string \<Rightarrow> int option" where
  "ParseDuration s =
     (case split_sign s of
        (neg, u) \<Rightarrow>
          if u = ''0'' then Some 0
          else if u = [] then None
          else (case duration_groups (length u) 0 u of
                  None \<Rightarrow> None
                | Some d \<Rightarrow>
                    if neg then Some (- d)
                    else if max_dur - 1 < d then None
                    else Some d))"

lemma leadingInt_length: "leadingInt x s = Some (v, r) \<Longrightarrow> length r \<le> length s"
  by (induction x s rule: leadingInt.induct) (auto split: if_splits)

lemma leadingFraction_length:
  "leadingFraction x sc ov s = (f, sc', r) \<Longrightarrow> length r \<le> length s"
  by (induction x sc ov s rule: leadingFraction.induct) (auto split: if_splits)

lemma duration_group_shorter:
  assumes "duration_group s = Some (v, r)"
  shows "length r < length s"
proof -
  obtain v1 s1 where L: "leadingInt 0 s = Some (v1, s1)"
    using assms by (auto simp: duration_group_def split: if_splits option.splits)
  obtain f sc s2 where F: "(if s1 \<noteq> [] \<and> hd s1 = CHR ''.'' then leadingFraction 0 1 False (tl s1)
      else (0, 1, s1)) = (f, sc, s2)"
    by (metis prod_cases3)
  let ?P = "\<lambda>c. \<not> (c = CHR ''.'' \<or> is_digit c)"
  have r: "r = dropWhile ?P s2" and u: "takeWhile ?P s2 \<noteq> []"
    using assms L F
    by (simp_all add: duration_group_def Let_def split: if_splits option.splits)
  have "length s2 \<le> length s1"
    using F by (auto split: if_splits dest!: leadingFraction_length)
  moreover have "length s1 \<le> length s"
    using L by (rule leadingInt_length)
  moreover have "length (takeWhile ?P s2) + length (dropWhile ?P s2) = length s2"
    by (metis length_append takeWhile_dropWhile_id)
  ultimately show ?thesis
    using r u by (simp add: length_greater_0_conv [symmetric] del: length_greater_0_conv)
qed

text \<open>Enough fuel: more fuel than characters never changes the outcome.\<close>

lemma duration_groups_fuel:
  "length s \<le> fuel \<Longrightarrow> duration_groups fuel d s = duration_groups (length s) d s"
proof (induction "length s" arbitrary: s fuel d rule: less_induct)
  case less
  show ?case
  proof (cases s)
    case Nil
    then show ?thesis by simp
  next
    case (Cons c cs)
    then obtain k where k: "fuel = Suc k" "length cs \<le> k"
      using less.prems by (cases fuel) auto
    have "duration_groups k x r = duration_groups (length cs) x r"
      if "duration_group s = Some (v, r)" for v r x
    proof -
      have "length r < length s" using that by (rule duration_group_shorter)
      then have "length r \<le> k" "length r \<le> length cs" using k(2) Cons by auto
      with \<open>length r < length s\<close> show ?thesis
        using less.hyps [of r k x] less.hyps [of r "length cs" x] by simp
    qed
    then show ?thesis
      using k Cons by (auto split: option.splits)
  qed
qed

section \<open>Package flag\<close>

datatype flag_kind = StringFlag | IntFlag | DurationFlag | BoolFlag

datatype flag_error =
    HelpRequested
  | BadFlagSyntax string
  | NotDefined string
  | NeedsArgument string
  | InvalidValue string string

datatype flag_token = StopParsing | BadToken | FlagToken string "string option"

definition flag_token :: "string \<Rightarrow> flag_token" where
  "flag_token s =
     (if length s < 2 \<or> hd s \<noteq> CHR ''-'' then StopParsing
      else if s = ''--'' then StopParsing
      else let name = (if s ! 1 = CHR ''-'' then drop 2 s else drop 1 s)
           in if name = [] \<or> hd name = CHR ''-'' \<or> hd name = CHR ''='' then BadToken
              else let n = takeWhile (\<lambda>c. c \<noteq> CHR ''='') name
                   in FlagToken n
                        (if CHR ''='' \<in> set name then Some (drop (Suc (length n)) name) else None))"

definition value_ok :: "flag_kind \<Rightarrow> string \<Rightarrow> bool" where
  "value_ok k v =
     (case k of
        StringFlag \<Rightarrow> True
      | IntFlag \<Rightarrow> is_ok (ParseInt0 v)
      | DurationFlag \<Rightarrow> ParseDuration v \<noteq> None
      | BoolFlag \<Rightarrow> is_ok (ParseBool v))"

fun flag_parse ::
  "(string \<times> flag_kind) list \<Rightarrow> (string \<times> string) list \<Rightarrow> string list
     \<Rightarrow> flag_error + (string \<times> string) list" where
  "flag_parse fs acc [] = Inr acc"
| "flag_parse fs acc (a # args) =
     (case flag_token a of
        StopParsing \<Rightarrow> Inr acc
      | BadToken \<Rightarrow> Inl (BadFlagSyntax a)
      | FlagToken n val \<Rightarrow>
          (case map_of fs n of
             None \<Rightarrow> if n \<in> set [''help'', ''h''] then Inl HelpRequested else Inl (NotDefined n)
           | Some k \<Rightarrow>
               (case val of
                  Some v \<Rightarrow>
                    if value_ok k v then flag_parse fs ((n, v) # acc) args
                    else Inl (InvalidValue n v)
                | None \<Rightarrow>
                    if k = BoolFlag then flag_parse fs ((n, ''true'') # acc) args
                    else (case args of
                            [] \<Rightarrow> Inl (NeedsArgument n)
                          | v # rest \<Rightarrow>
                              if value_ok k v then flag_parse fs ((n, v) # acc) rest
                              else Inl (InvalidValue n v)))))"

definition string_flag :: "(string \<times> string) list \<Rightarrow> string \<Rightarrow> string \<Rightarrow> string" where
  "string_flag asg n d = (case map_of asg n of None \<Rightarrow> d | Some v \<Rightarrow> v)"

definition int_flag :: "(string \<times> string) list \<Rightarrow> string \<Rightarrow> int \<Rightarrow> int" where
  "int_flag asg n d =
     (case map_of asg n of
        None \<Rightarrow> d
      | Some v \<Rightarrow> (case ParseInt0 v of Inl _ \<Rightarrow> d | Inr i \<Rightarrow> i))"

definition duration_flag :: "(string \<times> string) list \<Rightarrow> string \<Rightarrow> int \<Rightarrow> int" where
  "duration_flag asg n d =
     (case map_of asg n of
        None \<Rightarrow> d
      | Some v \<Rightarrow> (case ParseDuration v of None \<Rightarrow> d | Some i \<Rightarrow> i))"

text \<open>The first undefined flag stops the parse, whatever follows it.\<close>

lemma flag_parse_undefined:
  assumes "flag_token a = FlagToken n val" and "map_of fs n = None"
    and "n \<noteq> ''help''" and "n \<noteq> ''h''"
  shows "flag_parse fs acc (a # args) = Inl (NotDefined n)"
  using assms by simp

end
