(* ===== verification/Config.thy ===== *)
theory Config
  imports GoFlag
begin

text \<open>
  Package \<open>config\<close> (\<open>pkg/config/config.go\<close>): the default constants, the typed readers of
  environment variables and the operator's configuration. The process environment is the map of
  the set variables; an unset variable reads as the empty string, as \<open>os.Getenv\<close> does.
\<close>

type_synonym environ = "string \<rightharpoonup> string"

definition Getenv :: "environ \<Rightarrow> string \<Rightarrow> string" where
  "Getenv env key = str_at env key"

section \<open>Defaults\<close>

abbreviation EnvOperatorNamespace :: string where "EnvOperatorNamespace \<equiv> ''OPERATOR_NAMESPACE''"
abbreviation DefaultNamespace :: string where "DefaultNamespace \<equiv> ''slingshot-system''"
abbreviation DefaultMetricsBindAddress :: string where "DefaultMetricsBindAddress \<equiv> '':8443''"
abbreviation DefaultHealthProbeBindAddress :: string where
  "DefaultHealthProbeBindAddress \<equiv> '':8081''"
abbreviation DefaultLeaderElectionID :: string where "DefaultLeaderElectionID \<equiv> ''bf7f9b28.hpe.com''"

definition DefaultDriverAgentImage :: string where
  "DefaultDriverAgentImage = ''ghcr.io/sielicki/slingshot-operator/driver-agent:latest''"
definition DefaultDevicePluginImage :: string where
  "DefaultDevicePluginImage = ''ghcr.io/sielicki/slingshot-operator/device-plugin:latest''"
definition DefaultRetryHandlerImage :: string where
  "DefaultRetryHandlerImage = ''ghcr.io/sielicki/slingshot-operator/retry-handler:latest''"
definition DefaultMetricsExporterImage :: string where
  "DefaultMetricsExporterImage = ''ghcr.io/sielicki/slingshot-operator/metrics-exporter:latest''"

abbreviation DefaultMetricsPort :: i32 where "DefaultMetricsPort \<equiv> 9090"

text \<open>
  The programs on the nodes do not use the constants below: each has its own copy of those it
  needs.
\<close>

abbreviation EnvNodeName :: string where "EnvNodeName \<equiv> ''NODE_NAME''"
abbreviation EnvNamespace :: string where "EnvNamespace \<equiv> ''NAMESPACE''"
abbreviation DefaultDevicePluginResourceName :: string where
  "DefaultDevicePluginResourceName \<equiv> ''hpe.com/cxi''"
abbreviation DefaultDevicePluginSharedCapacity :: int where "DefaultDevicePluginSharedCapacity \<equiv> 100"
abbreviation config_DefaultSwitchIDMask :: u32 where "config_DefaultSwitchIDMask \<equiv> 0xfffc0"
abbreviation DefaultHealthPort :: int where "DefaultHealthPort \<equiv> 8081"
abbreviation DefaultRetryHandlerHealthPort :: int where "DefaultRetryHandlerHealthPort \<equiv> 8080"
abbreviation DefaultScrapeInterval :: int where "DefaultScrapeInterval \<equiv> 15 * Second"
abbreviation DefaultPollInterval :: int where "DefaultPollInterval \<equiv> 30 * Second"
abbreviation DefaultCXIRHPath :: string where "DefaultCXIRHPath \<equiv> ''/usr/bin/cxi_rh''"

section \<open>Typed environment readers\<close>

definition GetEnv :: "environ \<Rightarrow> string \<Rightarrow> string \<Rightarrow> string" where
  "GetEnv env key def = (let v = Getenv env key in if v \<noteq> '''' then v else def)"

definition GetEnvInt :: "environ \<Rightarrow> string \<Rightarrow> int \<Rightarrow> int" where
  "GetEnvInt env key def =
     (let v = Getenv env key in
      if v \<noteq> '''' then (case Atoi v of Inr i \<Rightarrow> i | Inl _ \<Rightarrow> def) else def)"

definition GetEnvBool :: "environ \<Rightarrow> string \<Rightarrow> bool \<Rightarrow> bool" where
  "GetEnvBool env key def =
     (let v = Getenv env key in
      if v \<noteq> '''' then (case ParseBool v of Inr b \<Rightarrow> b | Inl _ \<Rightarrow> def) else def)"

definition GetEnvDuration :: "environ \<Rightarrow> string \<Rightarrow> int \<Rightarrow> int" where
  "GetEnvDuration env key def =
     (let v = Getenv env key in
      if v \<noteq> '''' then (case ParseDuration v of Some d \<Rightarrow> d | None \<Rightarrow> def) else def)"

definition GetEnvUint32 :: "environ \<Rightarrow> string \<Rightarrow> u32 \<Rightarrow> u32" where
  "GetEnvUint32 env key def =
     (let v = Getenv env key in
      if v = '''' then def
      else let r = (if 2 < length v \<and> (take 2 v = ''0x'' \<or> take 2 v = ''0X'')
                    then ParseUint (drop 2 v) 16 32 else ParseUint v 10 32)
           in (case r of Inl _ \<Rightarrow> def | Inr n \<Rightarrow> word_of_int n))"

section \<open>Operator configuration\<close>

record OperatorConfig =
  oc_namespace :: string
  oc_metrics_bind_address :: string
  oc_health_probe_bind_address :: string
  oc_leader_elect :: bool
  oc_leader_election_id :: string
  oc_secure_metrics :: bool
  oc_enable_http2 :: bool
  oc_enable_sidecar_webhook :: bool
  oc_retry_handler_image :: string

definition NewOperatorConfigFromEnv :: "environ \<Rightarrow> OperatorConfig" where
  "NewOperatorConfigFromEnv env =
     \<lparr>oc_namespace = GetEnv env EnvOperatorNamespace DefaultNamespace,
      oc_metrics_bind_address = GetEnv env ''METRICS_BIND_ADDRESS'' DefaultMetricsBindAddress,
      oc_health_probe_bind_address =
        GetEnv env ''HEALTH_PROBE_BIND_ADDRESS'' DefaultHealthProbeBindAddress,
      oc_leader_elect = GetEnvBool env ''LEADER_ELECT'' False,
      oc_leader_election_id = DefaultLeaderElectionID,
      oc_secure_metrics = GetEnvBool env ''SECURE_METRICS'' True,
      oc_enable_http2 = GetEnvBool env ''ENABLE_HTTP2'' False,
      oc_enable_sidecar_webhook = GetEnvBool env ''ENABLE_SIDECAR_WEBHOOK'' False,
      oc_retry_handler_image = GetEnv env ''RETRY_HANDLER_IMAGE'' DefaultRetryHandlerImage\<rparr>"

section \<open>Lemmas\<close>

lemma GetEnv_unset [simp]: "env key = None \<Longrightarrow> GetEnv env key def = def"
  by (simp add: GetEnv_def Getenv_def str_at_def)

lemma GetEnv_nonempty: "def \<noteq> '''' \<Longrightarrow> GetEnv env key def \<noteq> ''''"
  by (simp add: GetEnv_def Let_def)

lemma GetEnvInt_Itoa:
  assumes "env key = Some (Itoa i)" and "- (2 ^ 63) \<le> i" and "i < 2 ^ 63"
  shows "GetEnvInt env key def = i"
proof -
  have "Itoa i \<noteq> []" by (simp add: Itoa_def)
  with assms show ?thesis
    by (simp add: GetEnvInt_def Getenv_def str_at_def Atoi_Itoa)
qed

lemma digit_char_not_x: "d < 10 \<Longrightarrow> digit_char d \<noteq> CHR ''x'' \<and> digit_char d \<noteq> CHR ''X''"
  by (auto dest: arg_cong [where f = "of_char :: char \<Rightarrow> nat"] simp: digit_char_def)

lemma no_hex_prefix:
  assumes "\<forall>c\<in>set s. \<exists>d<10. c = digit_char d"
  shows "take 2 s \<noteq> ''0x'' \<and> take 2 s \<noteq> ''0X''"
proof (rule ccontr)
  assume "\<not> ?thesis"
  then have "CHR ''x'' \<in> set (take 2 s) \<or> CHR ''X'' \<in> set (take 2 s)" by auto
  then have "CHR ''x'' \<in> set s \<or> CHR ''X'' \<in> set s" by (meson in_set_takeD)
  with assms show False using digit_char_not_x by metis
qed

lemma GetEnvUint32_decimal:
  assumes "env key = Some (nat_digits n)" and "n < 2 ^ 32"
  shows "GetEnvUint32 env key def = of_nat n"
proof -
  have "\<not> (take 2 (nat_digits n) = ''0x'' \<or> take 2 (nat_digits n) = ''0X'')"
    using no_hex_prefix [of "nat_digits n"] nat_digits_digits by blast
  moreover have "ParseUint (nat_digits n) 10 32 = Inr (int n)"
    using assms(2) by (intro ParseUint_nat_digits) (metis of_nat_less_numeral_power_cancel_iff)
  ultimately show ?thesis
    using assms(1) by (simp add: GetEnvUint32_def Getenv_def str_at_def)
qed

end
