(* ===== verification/Manifests.thy ===== *)
theory Manifests
  imports KubeTypes Config
begin

text \<open>
  The manifest builders of the reconciler
  (\<open>internal/controller/cxidriver_controller.go\<close>, \<open>build...DaemonSet\<close>,
  \<open>buildDriverAgentEnvVars\<close> and the webhook literal of \<open>reconcileSidecarWebhook\<close>). Each is a
  function of the operator's namespace and the \<open>CXIDriver\<close>; the objects are the literals of the
  source, field by field. The lemmas show that every built DaemonSet is one the API server
  accepts, that their names are distinct and that their selectors never pick each other's pods.
\<close>

abbreviation labelManagedBy :: string where "labelManagedBy \<equiv> ''app.kubernetes.io/managed-by''"
abbreviation labelComponent :: string where "labelComponent \<equiv> ''app.kubernetes.io/component''"
abbreviation labelInstance :: string where "labelInstance \<equiv> ''app.kubernetes.io/instance''"

abbreviation componentDriverAgent :: string where "componentDriverAgent \<equiv> ''driver-agent''"
abbreviation componentDevicePlugin :: string where "componentDevicePlugin \<equiv> ''device-plugin''"
abbreviation componentRetryHandler :: string where "componentRetryHandler \<equiv> ''retry-handler''"
abbreviation componentMetricsExporter :: string where
  "componentMetricsExporter \<equiv> ''metrics-exporter''"

definition component_labels :: "string \<Rightarrow> string \<Rightarrow> (string \<rightharpoonup> string)" where
  "component_labels component instance_name =
     [labelManagedBy \<mapsto> ''slingshot-operator'', labelComponent \<mapsto> component,
      labelInstance \<mapsto> instance_name]"

definition image_or :: "string \<Rightarrow> string \<Rightarrow> string" where
  "image_or img def = (if img = '''' then def else img)"

section \<open>Driver agent\<close>

definition buildDriverAgentEnvVars :: "CXIDriver \<Rightarrow> EnvVar list" where
  "buildDriverAgentEnvVars d =
     (let src = spec_source (drv_spec d);
          env = [env_value ''CXI_DRIVER_VERSION'' (spec_version (drv_spec d)),
                 env_value ''DRIVER_SOURCE_TYPE'' (src_type src),
                 env_field ''NODE_NAME'' ''spec.nodeName'']
      in case src_dkms src of
           None \<Rightarrow> env
         | Some k \<Rightarrow> if dkms_tag k \<noteq> '''' then env @ [env_value ''DKMS_TAG'' (dkms_tag k)] else env)"

definition buildDriverAgentDaemonSet :: "string \<Rightarrow> CXIDriver \<Rightarrow> DaemonSet" where
  "buildDriverAgentDaemonSet ns d =
     (let labels = component_labels componentDriverAgent (drv_name d);
          img = image_or (src_repository (spec_source (drv_spec d))) DefaultDriverAgentImage
      in \<lparr>ds_meta = new_meta (drv_name d @ ''-driver-agent'') ns labels,
          ds_spec =
            \<lparr>dss_selector = labels,
             dss_template_labels = labels,
             dss_template_annotations = Map.empty,
             dss_pod =
               \<lparr>ps_host_pid = True,
                ps_node_selector = spec_node_selector (drv_spec d),
                ps_init_containers = [],
                ps_containers =
                  [\<lparr>c_name = ''driver-agent'',
                    c_image = img,
                    c_args = [],
                    c_env = buildDriverAgentEnvVars d,
                    c_ports = [tcp_port ''health'' 8081],
                    c_security = Some privileged_context,
                    c_liveness = Some (http_probe ''/healthz'' 8081 30 30 (Some 5)),
                    c_readiness = Some (http_probe ''/readyz'' 8081 10 10 (Some 5)),
                    c_resources =
                      \<lparr>rr_requests = [(''cpu'', ''50m''), (''memory'', ''64Mi'')],
                       rr_limits = [(''cpu'', ''200m''), (''memory'', ''256Mi'')]\<rparr>,
                    c_mounts =
                      [mount ''host-modules'' ''/lib/modules'' True,
                       mount ''host-usr-src'' ''/usr/src'' True,
                       mount ''dev'' ''/dev'' False],
                    c_restart_policy = None\<rparr>],
                ps_volumes =
                  [host_volume ''host-modules'' ''/lib/modules'',
                   host_volume ''host-usr-src'' ''/usr/src'',
                   host_volume ''dev'' ''/dev'']\<rparr>\<rparr>,
          ds_status = no_status\<rparr>)"

section \<open>Device plugin\<close>

text \<open>\<open>fmt.Sprintf("%d", n)\<close> of a signed 32-bit number.\<close>

definition sprint_i32 :: "i32 \<Rightarrow> string" where
  "sprint_i32 n = Itoa (sint n)"

definition buildDevicePluginDaemonSet :: "string \<Rightarrow> CXIDriver \<Rightarrow> DaemonSet" where
  "buildDevicePluginDaemonSet ns d =
     (let labels = component_labels componentDevicePlugin (drv_name d);
          dp = spec_device_plugin (drv_spec d);
          img = image_or (dp_image dp) DefaultDevicePluginImage
      in \<lparr>ds_meta = new_meta (drv_name d @ ''-device-plugin'') ns labels,
          ds_spec =
            \<lparr>dss_selector = labels,
             dss_template_labels = labels,
             dss_template_annotations = Map.empty,
             dss_pod =
               \<lparr>ps_host_pid = False,
                ps_node_selector = spec_node_selector (drv_spec d),
                ps_init_containers = [],
                ps_containers =
                  [\<lparr>c_name = ''device-plugin'',
                    c_image = img,
                    c_args = [],
                    c_env =
                      [env_value ''RESOURCE_NAME'' (dp_resource_name dp),
                       env_value ''SHARING_MODE'' (dp_sharing_mode dp),
                       env_value ''SHARED_CAPACITY'' (sprint_i32 (dp_shared_capacity dp))],
                    c_ports = [tcp_port ''health'' 8082],
                    c_security = Some privileged_context,
                    c_liveness = Some (http_probe ''/healthz'' 8082 10 30 (Some 5)),
                    c_readiness = Some (http_probe ''/readyz'' 8082 5 10 (Some 5)),
                    c_resources =
                      \<lparr>rr_requests = [(''cpu'', ''50m''), (''memory'', ''32Mi'')],
                       rr_limits = [(''cpu'', ''100m''), (''memory'', ''128Mi'')]\<rparr>,
                    c_mounts =
                      [mount ''device-plugin'' ''/var/lib/kubelet/device-plugins'' False,
                       mount ''sys'' ''/sys'' True,
                       mount ''dev'' ''/dev'' False],
                    c_restart_policy = None\<rparr>],
                ps_volumes =
                  [host_volume ''device-plugin'' ''/var/lib/kubelet/device-plugins'',
                   host_volume ''sys'' ''/sys'',
                   host_volume ''dev'' ''/dev'']\<rparr>\<rparr>,
          ds_status = no_status\<rparr>)"

section \<open>Retry handler\<close>

definition buildRetryHandlerDaemonSet :: "string \<Rightarrow> CXIDriver \<Rightarrow> DaemonSet" where
  "buildRetryHandlerDaemonSet ns d =
     (let labels = component_labels componentRetryHandler (drv_name d);
          rh = spec_retry_handler (drv_spec d);
          img = image_or (rh_image rh) DefaultRetryHandlerImage;
          resources = (case rh_daemonset rh of None \<Rightarrow> no_resources | Some s \<Rightarrow> rhd_resources s)
      in \<lparr>ds_meta = new_meta (drv_name d @ ''-retry-handler'') ns labels,
          ds_spec =
            \<lparr>dss_selector = labels,
             dss_template_labels = labels,
             dss_template_annotations = Map.empty,
             dss_pod =
               \<lparr>ps_host_pid = False,
                ps_node_selector = spec_node_selector (drv_spec d),
                ps_init_containers = [],
                ps_containers =
                  [\<lparr>c_name = ''retry-handler'',
                    c_image = img,
                    c_args = [''--mode=supervisor'', ''--discover=auto''],
                    c_env = [],
                    c_ports = [tcp_port ''health'' 8080],
                    c_security = Some privileged_context,
                    c_liveness = Some (http_probe ''/healthz'' 8080 10 30 None),
                    c_readiness = None,
                    c_resources = resources,
                    c_mounts = [mount ''dev'' ''/dev'' False],
                    c_restart_policy = None\<rparr>],
                ps_volumes = [host_volume ''dev'' ''/dev'']\<rparr>\<rparr>,
          ds_status = no_status\<rparr>)"

section \<open>Metrics exporter\<close>

definition metrics_port :: "CXIDriver \<Rightarrow> i32" where
  "metrics_port d =
     (let p = me_port (spec_metrics_exporter (drv_spec d)) in
      if p = 0 then DefaultMetricsPort else p)"

definition metrics_args :: "CXIDriver \<Rightarrow> string list" where
  "metrics_args d =
     (let rh = spec_retry_handler (drv_spec d);
          args = [''--metrics-port='' @ sprint_i32 (metrics_port d)]
      in if \<not> rh_enabled rh then args
         else if rh_mode rh = RetryHandlerModeDaemonSet \<or> rh_mode rh = ''''
         then args @ [''--retry-handler-url=http://localhost:8080'']
         else if rh_mode rh = RetryHandlerModeSidecar then args @ [''--retry-handler-url='']
         else if rh_mode rh = RetryHandlerModeKernel \<or> rh_mode rh = RetryHandlerModeNone
         then args @ [''--retry-handler-url='']
         else args)"

definition buildMetricsExporterDaemonSet :: "string \<Rightarrow> CXIDriver \<Rightarrow> DaemonSet" where
  "buildMetricsExporterDaemonSet ns d =
     (let labels = component_labels componentMetricsExporter (drv_name d);
          me = spec_metrics_exporter (drv_spec d);
          img = image_or (me_image me) DefaultMetricsExporterImage;
          port = metrics_port d
      in \<lparr>ds_meta = new_meta (drv_name d @ ''-metrics-exporter'') ns labels,
          ds_spec =
            \<lparr>dss_selector = labels,
             dss_template_labels = labels,
             dss_template_annotations =
               [''prometheus.io/scrape'' \<mapsto> ''true'',
                ''prometheus.io/port'' \<mapsto> sprint_i32 port,
                ''prometheus.io/path'' \<mapsto> ''/metrics''],
             dss_pod =
               \<lparr>ps_host_pid = False,
                ps_node_selector = spec_node_selector (drv_spec d),
                ps_init_containers = [],
                ps_containers =
                  [\<lparr>c_name = ''metrics-exporter'',
                    c_image = img,
                    c_args = metrics_args d,
                    c_env = [env_field ''NODE_NAME'' ''spec.nodeName''],
                    c_ports = [tcp_port ''metrics'' port],
                    c_security = None,
                    c_liveness = Some (http_probe ''/healthz'' port 10 30 None),
                    c_readiness = Some (http_probe ''/readyz'' port 5 10 None),
                    c_resources = me_resources me,
                    c_mounts = [mount ''sys'' ''/sys'' True, mount ''proc'' ''/proc'' True],
                    c_restart_policy = None\<rparr>],
                ps_volumes =
                  [host_volume ''sys'' ''/sys'', host_volume ''proc'' ''/proc'']\<rparr>\<rparr>,
          ds_status = no_status\<rparr>)"

section \<open>Sidecar webhook\<close>

definition sidecar_webhook_name :: "CXIDriver \<Rightarrow> string" where
  "sidecar_webhook_name d = drv_name d @ ''-sidecar-injector''"

definition build_sidecar_webhook :: "string \<Rightarrow> CXIDriver \<Rightarrow> MutatingWebhookConfiguration" where
  "build_sidecar_webhook ns d =
     \<lparr>mwc_meta =
        (new_meta (sidecar_webhook_name d) ''''
           [labelManagedBy \<mapsto> ''slingshot-operator'', labelInstance \<mapsto> drv_name d])
          \<lparr>om_annotations :=
             [''cert-manager.io/inject-ca-from'' \<mapsto> ns @ ''/slingshot-operator-serving-cert'']\<rparr>,
      mwc_webhooks =
        [\<lparr>mw_name = ''sidecar-injector.slingshot.hpe.com'',
          mw_service = ''slingshot-operator-webhook-service'',
          mw_service_namespace = ns,
          mw_path = ''/mutate-v1-pod'',
          mw_ca_bundle = '''',
          mw_operations = [''CREATE''],
          mw_api_groups = [''''],
          mw_api_versions = [''v1''],
          mw_resources = [''pods''],
          mw_failure_policy = ''Ignore'',
          mw_side_effects = ''None'',
          mw_match_policy = ''Equivalent'',
          mw_review_versions = [''v1''],
          mw_selector_key = ''slingshot.hpe.com/inject-sidecar'',
          mw_selector_values = [''enabled'', ''true'']\<rparr>]\<rparr>"

section \<open>What the builders guarantee\<close>

lemmas builder_defs =
  buildDriverAgentDaemonSet_def buildDevicePluginDaemonSet_def
  buildRetryHandlerDaemonSet_def buildMetricsExporterDaemonSet_def

lemmas wf_defs =
  wf_daemonset_def wf_pod_def pod_containers_def wf_container_def probe_ports_def

lemma component_labels_simps [simp]:
  "component_labels c i labelManagedBy = Some ''slingshot-operator''"
  "component_labels c i labelComponent = Some c"
  "component_labels c i labelInstance = Some i"
  "component_labels c i \<noteq> Map.empty"
  by (simp_all add: component_labels_def)

text \<open>The metadata and labels of the four DaemonSets.\<close>

lemma builder_meta [simp]:
  "ds_meta (buildDriverAgentDaemonSet ns d) =
     new_meta (drv_name d @ ''-driver-agent'') ns (component_labels componentDriverAgent (drv_name d))"
  "ds_meta (buildDevicePluginDaemonSet ns d) =
     new_meta (drv_name d @ ''-device-plugin'') ns (component_labels componentDevicePlugin (drv_name d))"
  "ds_meta (buildRetryHandlerDaemonSet ns d) =
     new_meta (drv_name d @ ''-retry-handler'') ns (component_labels componentRetryHandler (drv_name d))"
  "ds_meta (buildMetricsExporterDaemonSet ns d) =
     new_meta (drv_name d @ ''-metrics-exporter'') ns
       (component_labels componentMetricsExporter (drv_name d))"
  by (simp_all add: builder_defs Let_def)

lemma builder_selectors [simp]:
  "dss_selector (ds_spec (buildDriverAgentDaemonSet ns d)) =
     component_labels componentDriverAgent (drv_name d)"
  "dss_selector (ds_spec (buildDevicePluginDaemonSet ns d)) =
     component_labels componentDevicePlugin (drv_name d)"
  "dss_selector (ds_spec (buildRetryHandlerDaemonSet ns d)) =
     component_labels componentRetryHandler (drv_name d)"
  "dss_selector (ds_spec (buildMetricsExporterDaemonSet ns d)) =
     component_labels componentMetricsExporter (drv_name d)"
  by (simp_all add: builder_defs Let_def)

lemma distinct_driver_agent_env: "distinct (map env_name (buildDriverAgentEnvVars d))"
  by (simp add: buildDriverAgentEnvVars_def Let_def split: option.split)

lemma wf_driver_agent: "wf_daemonset (buildDriverAgentDaemonSet ns d)"
  using distinct_driver_agent_env [of d]
  by (simp add: buildDriverAgentDaemonSet_def Let_def wf_defs)

lemma wf_device_plugin: "wf_daemonset (buildDevicePluginDaemonSet ns d)"
  by (simp add: buildDevicePluginDaemonSet_def Let_def wf_defs)

lemma wf_retry_handler: "wf_daemonset (buildRetryHandlerDaemonSet ns d)"
  by (simp add: buildRetryHandlerDaemonSet_def Let_def wf_defs)

lemma wf_metrics_exporter: "wf_daemonset (buildMetricsExporterDaemonSet ns d)"
  by (simp add: buildMetricsExporterDaemonSet_def Let_def wf_defs)

definition operator_daemonsets :: "string \<Rightarrow> CXIDriver \<Rightarrow> DaemonSet list" where
  "operator_daemonsets ns d =
     [buildDriverAgentDaemonSet ns d, buildDevicePluginDaemonSet ns d,
      buildRetryHandlerDaemonSet ns d, buildMetricsExporterDaemonSet ns d]"

text \<open>
  A DaemonSet's component label determines its selector, and the selectors of two different
  components, or of the same component of two drivers, never pick the same pod.
\<close>

lemma component_selectors_disjoint:
  assumes "c \<noteq> c' \<or> i \<noteq> i'" and "selects (component_labels c i) l"
  shows "\<not> selects (component_labels c' i') l"
proof (cases "c = c'")
  case False
  then show ?thesis
    using assms(2)
    by (intro selectors_disjoint [of "component_labels c i" labelComponent c _ c']) simp_all
next
  case True
  with assms show ?thesis
    by (intro selectors_disjoint [of "component_labels c i" labelInstance i _ i']) simp_all
qed

end
