(* ===== verification/Reconciler.thy ===== *)
theory Reconciler
  imports KubeApi Manifests
begin

text \<open>
  The reconciler of \<open>internal/controller/cxidriver_controller.go\<close>. Every function takes the client
  and libraries \<open>K\<close> as a parameter, threads the world through its API calls in the order of the
  source, and returns the error as a value; every early return is a branch. \<open>Reconcile\<close> is cut
  where the source's comments cut it (not found, deletion, ignored, active, one stage per
  component) and composed in the same order. The source returns a nil error with every
  \<open>ctrl.Result\<close>, so the result alone is modelled; \<open>RequeueAfter\<close> counts seconds.
\<close>

abbreviation cxiDriverFinalizer :: string where "cxiDriverFinalizer \<equiv> ''cxi.hpe.com/finalizer''"

abbreviation conditionTypeAvailable :: string where "conditionTypeAvailable \<equiv> ''Available''"
abbreviation conditionTypeProgressing :: string where "conditionTypeProgressing \<equiv> ''Progressing''"
abbreviation conditionTypeDegraded :: string where "conditionTypeDegraded \<equiv> ''Degraded''"
abbreviation conditionTypeDriverAgentReady :: string where
  "conditionTypeDriverAgentReady \<equiv> ''DriverAgentReady''"
abbreviation conditionTypeDevicePluginReady :: string where
  "conditionTypeDevicePluginReady \<equiv> ''DevicePluginReady''"
abbreviation conditionTypeRetryHandlerReady :: string where
  "conditionTypeRetryHandlerReady \<equiv> ''RetryHandlerReady''"
abbreviation conditionTypeMetricsExporterReady :: string where
  "conditionTypeMetricsExporterReady \<equiv> ''MetricsExporterReady''"

abbreviation singletonConfigMapName :: string where
  "singletonConfigMapName \<equiv> ''cxidriver-singleton''"
abbreviation singletonActiveKey :: string where "singletonActiveKey \<equiv> ''active-driver''"

datatype reconcile_result = Done | Requeue | RequeueAfter int

section \<open>Status conditions\<close>

definition mk_condition :: "string \<Rightarrow> string \<Rightarrow> string \<Rightarrow> string \<Rightarrow> Condition" where
  "mk_condition t s r m =
     \<lparr>cond_type = t, cond_status = s, cond_reason = r, cond_message = m\<rparr>"

definition with_conditions :: "CXIDriver \<Rightarrow> Condition list \<Rightarrow> CXIDriver" where
  "with_conditions d cs = d\<lparr>drv_status := (drv_status d)\<lparr>st_conditions := cs\<rparr>\<rparr>"

definition set_condition :: "'b k8s_lib_scheme \<Rightarrow> CXIDriver \<Rightarrow> Condition \<Rightarrow> CXIDriver" where
  "set_condition K d c = with_conditions d (k_set_status_condition K (drv_conditions d) c)"

definition remove_condition :: "'b k8s_lib_scheme \<Rightarrow> CXIDriver \<Rightarrow> string \<Rightarrow> CXIDriver" where
  "remove_condition K d t = with_conditions d (k_remove_status_condition K (drv_conditions d) t)"

definition setComponentCondition ::
  "'b k8s_lib_scheme \<Rightarrow> CXIDriver \<Rightarrow> string \<Rightarrow> bool \<Rightarrow> string \<Rightarrow> string \<Rightarrow> CXIDriver" where
  "setComponentCondition K d t ready reason msg =
     set_condition K d (mk_condition t (if ready then ConditionTrue else ConditionFalse) reason msg)"

definition setDegradedCondition ::
  "'b k8s_lib_scheme \<Rightarrow> CXIDriver \<Rightarrow> string \<Rightarrow> string \<Rightarrow> CXIDriver" where
  "setDegradedCondition K d reason msg =
     set_condition K
       (set_condition K d (mk_condition conditionTypeDegraded ConditionTrue reason msg))
       (mk_condition conditionTypeAvailable ConditionFalse reason msg)"

section \<open>The singleton record\<close>

definition singleton_key :: "string \<Rightarrow> key" where
  "singleton_key ns = (ns, singletonConfigMapName)"

definition getActiveCXIDriver :: "'w k8s \<Rightarrow> string \<Rightarrow> ('w, string) reader" where
  "getActiveCXIDriver K ns w =
     (case k_get_cm K (singleton_key ns) w of
        (w1, Inl e) \<Rightarrow>
          if IsNotFound e then (w1, Inr '''')
          else (w1, Inl (wrapf ''getting singleton ConfigMap'' e))
      | (w1, Inr cm) \<Rightarrow> (w1, Inr (str_at (cm_data cm) singletonActiveKey)))"

definition new_singleton :: "string \<Rightarrow> string \<Rightarrow> ConfigMap" where
  "new_singleton ns name =
     \<lparr>cm_meta = new_meta singletonConfigMapName ns [labelManagedBy \<mapsto> ''slingshot-operator''],
      cm_data = [singletonActiveKey \<mapsto> name]\<rparr>"

definition setActiveCXIDriver :: "'w k8s \<Rightarrow> string \<Rightarrow> string \<Rightarrow> 'w writer" where
  "setActiveCXIDriver K ns name w =
     (case k_get_cm K (singleton_key ns) w of
        (w1, Inl e) \<Rightarrow>
          if IsNotFound e then
            (if name = '''' then (w1, None)
             else (case k_create_cm K (new_singleton ns name) w1 of
                     (w2, Some e2) \<Rightarrow> (w2, Some (wrapf ''creating singleton ConfigMap'' e2))
                   | (w2, None) \<Rightarrow> (w2, None)))
          else (w1, Some (wrapf ''getting singleton ConfigMap'' e))
      | (w1, Inr cm) \<Rightarrow>
          let cm' = (if name = '''' then cm\<lparr>cm_data := (cm_data cm)(singletonActiveKey := None)\<rparr>
                     else cm\<lparr>cm_data := (cm_data cm)(singletonActiveKey \<mapsto> name)\<rparr>)
          in (case k_update_cm K cm' w1 of
                (w2, Some e2) \<Rightarrow> (w2, Some (wrapf ''updating singleton ConfigMap'' e2))
              | (w2, None) \<Rightarrow> (w2, None)))"

definition isActiveCXIDriver :: "'w k8s \<Rightarrow> string \<Rightarrow> string \<Rightarrow> ('w, bool) reader" where
  "isActiveCXIDriver K ns name w =
     (case getActiveCXIDriver K ns w of
        (w1, Inl e) \<Rightarrow> (w1, Inl e)
      | (w1, Inr active) \<Rightarrow>
          if active = '''' then
            (case setActiveCXIDriver K ns name w1 of
               (w2, Some e) \<Rightarrow> (w2, Inl e)
             | (w2, None) \<Rightarrow> (w2, Inr True))
          else if active = name then (w1, Inr True)
          else (case k_get_driver K active w1 of
                  (w2, Inl e) \<Rightarrow>
                    if IsNotFound e then
                      (case setActiveCXIDriver K ns name w2 of
                         (w3, Some e2) \<Rightarrow> (w3, Inl e2)
                       | (w3, None) \<Rightarrow> (w3, Inr True))
                    else (w2, Inl (wrapf ''checking active CXIDriver'' e))
                | (w2, Inr _) \<Rightarrow> (w2, Inr False)))"

text \<open>\<open>active, _ := r.getActiveCXIDriver(ctx)\<close>: an error reads as no active driver.\<close>

definition active_or_empty :: "'w k8s \<Rightarrow> string \<Rightarrow> 'w \<Rightarrow> 'w \<times> string" where
  "active_or_empty K ns w =
     (case getActiveCXIDriver K ns w of (w1, Inl _) \<Rightarrow> (w1, '''') | (w1, Inr a) \<Rightarrow> (w1, a))"

definition clear_if_active :: "'w k8s \<Rightarrow> string \<Rightarrow> string \<Rightarrow> 'w \<Rightarrow> 'w" where
  "clear_if_active K ns name w =
     (case active_or_empty K ns w of
        (w1, active) \<Rightarrow> if active = name then fst (setActiveCXIDriver K ns '''' w1) else w1)"

section \<open>Managed objects\<close>

definition sync_daemonset :: "'w k8s \<Rightarrow> CXIDriver \<Rightarrow> DaemonSet \<Rightarrow> 'w writer" where
  "sync_daemonset K d ds w =
     (let n = om_name (ds_meta ds) in
      case k_set_controller_reference K d (ds_meta ds) of
        Inl e \<Rightarrow> (w, Some (wrapf ''setting controller reference'' e))
      | Inr m \<Rightarrow>
          (case k_get_ds K (meta_key m) w of
             (w1, Inl e) \<Rightarrow>
               if IsNotFound e then
                 (case k_create_ds K (ds\<lparr>ds_meta := m\<rparr>) w1 of
                    (w2, Some e2) \<Rightarrow> (w2, Some (wrapf (''creating DaemonSet '' @ n) e2))
                  | (w2, None) \<Rightarrow> (w2, None))
               else (w1, Some (wrapf (''getting DaemonSet '' @ n) e))
           | (w1, Inr existing) \<Rightarrow>
               (case k_update_ds K (existing\<lparr>ds_spec := ds_spec ds\<rparr>) w1 of
                  (w2, Some e2) \<Rightarrow> (w2, Some (wrapf (''updating DaemonSet '' @ n) e2))
                | (w2, None) \<Rightarrow> (w2, None))))"

definition reconcileDriverAgent :: "'w k8s \<Rightarrow> string \<Rightarrow> CXIDriver \<Rightarrow> 'w writer" where
  "reconcileDriverAgent K ns d = sync_daemonset K d (buildDriverAgentDaemonSet ns d)"

definition reconcileDevicePlugin :: "'w k8s \<Rightarrow> string \<Rightarrow> CXIDriver \<Rightarrow> 'w writer" where
  "reconcileDevicePlugin K ns d = sync_daemonset K d (buildDevicePluginDaemonSet ns d)"

definition reconcileMetricsExporter :: "'w k8s \<Rightarrow> string \<Rightarrow> CXIDriver \<Rightarrow> 'w writer" where
  "reconcileMetricsExporter K ns d = sync_daemonset K d (buildMetricsExporterDaemonSet ns d)"

definition reconcileSidecarWebhook :: "'w k8s \<Rightarrow> string \<Rightarrow> CXIDriver \<Rightarrow> 'w writer" where
  "reconcileSidecarWebhook K ns d w =
     (let webhook = build_sidecar_webhook ns d; n = sidecar_webhook_name d in
      case k_get_mwc K n w of
        (w1, Inl e) \<Rightarrow>
          if IsNotFound e then
            (case k_create_mwc K webhook w1 of
               (w2, Some e2) \<Rightarrow>
                 (w2, Some (wrapf (''creating MutatingWebhookConfiguration '' @ n) e2))
             | (w2, None) \<Rightarrow> (w2, None))
          else (w1, Some (wrapf (''getting MutatingWebhookConfiguration '' @ n) e))
      | (w1, Inr existing) \<Rightarrow>
          (case k_update_mwc K (existing\<lparr>mwc_webhooks := mwc_webhooks webhook\<rparr>) w1 of
             (w2, Some e2) \<Rightarrow>
               (w2, Some (wrapf (''updating MutatingWebhookConfiguration '' @ n) e2))
           | (w2, None) \<Rightarrow> (w2, None)))"

definition unknown_mode_error :: "string \<Rightarrow> api_error" where
  "unknown_mode_error mode =
     \<lparr>ae_reason = OtherReason, ae_text = ''unknown retry handler mode: '' @ mode\<rparr>"

definition reconcileRetryHandler :: "'w k8s \<Rightarrow> string \<Rightarrow> CXIDriver \<Rightarrow> 'w writer" where
  "reconcileRetryHandler K ns d w =
     (let mode = rh_mode (spec_retry_handler (drv_spec d)) in
      if mode = RetryHandlerModeDaemonSet \<or> mode = ''''
      then sync_daemonset K d (buildRetryHandlerDaemonSet ns d) w
      else if mode = RetryHandlerModeSidecar then
        (case reconcileSidecarWebhook K ns d w of
           (w1, Some e) \<Rightarrow> (w1, Some (wrapf ''reconciling sidecar webhook'' e))
         | (w1, None) \<Rightarrow> (w1, None))
      else if mode = RetryHandlerModeKernel then (w, None)
      else if mode = RetryHandlerModeNone then (w, None)
      else (w, Some (unknown_mode_error mode)))"

definition cleanupResources :: "'w k8s \<Rightarrow> CXIDriver \<Rightarrow> 'w writer" where
  "cleanupResources K d w =
     (if rh_mode (spec_retry_handler (drv_spec d)) = RetryHandlerModeSidecar then
        (let n = sidecar_webhook_name d in
         case k_get_mwc K n w of
           (w1, Inr webhook) \<Rightarrow>
             (case k_delete_mwc K webhook w1 of
                (w2, Some e) \<Rightarrow>
                  if IsNotFound e then (w2, None)
                  else (w2, Some (wrapf (''deleting MutatingWebhookConfiguration '' @ n) e))
              | (w2, None) \<Rightarrow> (w2, None))
         | (w1, Inl e) \<Rightarrow>
             if IsNotFound e then (w1, None)
             else (w1, Some (wrapf (''getting MutatingWebhookConfiguration '' @ n @ '' for cleanup'') e)))
      else (w, None))"

section \<open>Status\<close>

definition updateStatusRetryOnConflict :: "'w k8s \<Rightarrow> CXIDriver \<Rightarrow> 'w writer" where
  "updateStatusRetryOnConflict K d =
     k_retry_on_conflict K (\<lambda>w.
       (case k_get_driver K (drv_name d) w of
          (w1, Inl e) \<Rightarrow> (w1, Some (wrapf ''fetching latest CXIDriver'' e))
        | (w1, Inr latest) \<Rightarrow>
            (case k_update_driver_status K (latest\<lparr>drv_status := drv_status d\<rparr>) w1 of
               (w2, Some e) \<Rightarrow> (w2, Some (wrapf ''updating CXIDriver status'' e))
             | (w2, None) \<Rightarrow> (w2, None))))"

definition updateStatusWithRetry :: "'w k8s \<Rightarrow> CXIDriver \<Rightarrow> 'w \<Rightarrow> 'w \<times> reconcile_result" where
  "updateStatusWithRetry K d w =
     (let d' = d\<lparr>drv_status := (drv_status d)\<lparr>st_observed_generation := om_generation (drv_meta d)\<rparr>\<rparr>
      in case updateStatusRetryOnConflict K d' w of
           (w1, Some _) \<Rightarrow> (w1, RequeueAfter 5)
         | (w1, None) \<Rightarrow> (w1, Done))"

definition node_counts :: "'w k8s \<Rightarrow> string \<Rightarrow> CXIDriver \<Rightarrow> 'w \<Rightarrow> 'w \<times> i32 \<times> i32 \<times> i32" where
  "node_counts K ns d w =
     (case k_get_ds K (ns, drv_name d @ ''-driver-agent'') w of
        (w1, Inr s) \<Rightarrow>
          (w1, dst_number_ready (ds_status s),
               dst_desired (ds_status s) - dst_number_ready (ds_status s),
               dst_unavailable (ds_status s))
      | (w1, Inl _) \<Rightarrow> (w1, 0, 0, 0))"

text \<open>The status the counts lead to: the fields, then one of three groups of conditions.\<close>

definition status_fields :: "CXIDriver \<Rightarrow> i32 \<Rightarrow> i32 \<Rightarrow> i32 \<Rightarrow> CXIDriver" where
  "status_fields d ready updating failed =
     d\<lparr>drv_status := (drv_status d)
        \<lparr>st_ready := ready, st_updating := updating, st_failed := failed,
         st_driver_version := spec_version (drv_spec d),
         st_retry_handler_mode := rh_mode (spec_retry_handler (drv_spec d)),
         st_observed_generation := om_generation (drv_meta d)\<rparr>\<rparr>"

definition computeStatus ::
  "'b k8s_lib_scheme \<Rightarrow> CXIDriver \<Rightarrow> i32 \<Rightarrow> i32 \<Rightarrow> i32 \<Rightarrow> CXIDriver" where
  "computeStatus K d ready updating failed =
     (let d1 = status_fields d ready updating failed in
      if 0 < sint ready \<and> failed = 0 then
        remove_condition K
          (set_condition K
            (set_condition K d1
              (mk_condition conditionTypeAvailable ConditionTrue ''Ready''
                 (sprint_i32 ready @ '' nodes ready'')))
            (mk_condition conditionTypeProgressing ConditionFalse ''Deployed''
               ''All components deployed''))
          conditionTypeDegraded
      else if 0 < sint failed then
        setDegradedCondition K d1 ''NodesFailed'' (sprint_i32 failed @ '' nodes failed'')
      else set_condition K d1
             (mk_condition conditionTypeAvailable ConditionFalse ''WaitingForPods''
                ''Waiting for pods to become ready''))"

definition updateStatus :: "'w k8s \<Rightarrow> string \<Rightarrow> CXIDriver \<Rightarrow> 'w writer" where
  "updateStatus K ns d w =
     (case node_counts K ns d w of
        (w1, ready, updating, failed) \<Rightarrow>
          updateStatusRetryOnConflict K (computeStatus K d ready updating failed) w1)"

section \<open>Component stages\<close>

text \<open>
  One component of \<open>Reconcile\<close>: skipped and its condition removed when disabled; otherwise
  synchronised, and its condition set. \<open>Inl\<close> carries the driver whose failure is to be recorded.
\<close>

definition component_stage ::
  "'w k8s \<Rightarrow> string \<Rightarrow> string \<Rightarrow> string \<Rightarrow> bool \<Rightarrow> (CXIDriver \<Rightarrow> 'w writer) \<Rightarrow> CXIDriver \<Rightarrow> 'w
     \<Rightarrow> 'w \<times> (CXIDriver + CXIDriver)" where
  "component_stage K ctype fail_reason ready_msg enabled sync d w =
     (if \<not> enabled then (w, Inr (remove_condition K d ctype))
      else (case sync d w of
              (w1, Some e) \<Rightarrow>
                (w1, Inl (setDegradedCondition K
                            (setComponentCondition K d ctype False ''Failed'' (ae_text e))
                            fail_reason (ae_text e)))
            | (w1, None) \<Rightarrow>
                (w1, Inr (setComponentCondition K d ctype True ''Ready'' ready_msg))))"

definition stage_driver_agent where
  "stage_driver_agent K ns d =
     component_stage K conditionTypeDriverAgentReady ''DriverAgentFailed''
       ''Driver agent DaemonSet is ready'' True (reconcileDriverAgent K ns) d"

definition stage_device_plugin where
  "stage_device_plugin K ns d =
     component_stage K conditionTypeDevicePluginReady ''DevicePluginFailed''
       ''Device plugin DaemonSet is ready'' (dp_enabled (spec_device_plugin (drv_spec d)))
       (reconcileDevicePlugin K ns) d"

definition stage_retry_handler where
  "stage_retry_handler K ns d =
     component_stage K conditionTypeRetryHandlerReady ''RetryHandlerFailed''
       ''Retry handler is ready'' (rh_enabled (spec_retry_handler (drv_spec d)))
       (reconcileRetryHandler K ns) d"

definition stage_metrics_exporter where
  "stage_metrics_exporter K ns d =
     component_stage K conditionTypeMetricsExporterReady ''MetricsExporterFailed''
       ''Metrics exporter DaemonSet is ready'' (me_enabled (spec_metrics_exporter (drv_spec d)))
       (reconcileMetricsExporter K ns) d"

text \<open>The stages run in order and the first failure skips the rest.\<close>

fun run_stages ::
  "(CXIDriver \<Rightarrow> 'w \<Rightarrow> 'w \<times> (CXIDriver + CXIDriver)) list \<Rightarrow> CXIDriver \<Rightarrow> 'w
     \<Rightarrow> 'w \<times> (CXIDriver + CXIDriver)" where
  "run_stages [] d w = (w, Inr d)"
| "run_stages (s # ss) d w =
     (case s d w of (w1, Inl d1) \<Rightarrow> (w1, Inl d1) | (w1, Inr d1) \<Rightarrow> run_stages ss d1 w1)"

definition reconcile_components ::
  "'w k8s \<Rightarrow> string \<Rightarrow> CXIDriver \<Rightarrow> 'w \<Rightarrow> 'w \<times> (CXIDriver + CXIDriver)" where
  "reconcile_components K ns =
     run_stages [stage_driver_agent K ns, stage_device_plugin K ns, stage_retry_handler K ns,
                 stage_metrics_exporter K ns]"

section \<open>Reconcile\<close>

definition reconcile_deletion ::
  "'w k8s \<Rightarrow> string \<Rightarrow> CXIDriver \<Rightarrow> 'w \<Rightarrow> 'w \<times> reconcile_result" where
  "reconcile_deletion K ns d w =
     (if k_contains_finalizer K (drv_meta d) cxiDriverFinalizer then
        (case cleanupResources K d w of
           (w1, Some _) \<Rightarrow> (w1, RequeueAfter 5)
         | (w1, None) \<Rightarrow>
             let d' = d\<lparr>drv_meta := k_remove_finalizer K (drv_meta d) cxiDriverFinalizer\<rparr> in
             (case k_update_driver K d' w1 of
                (w2, Some _) \<Rightarrow> (w2, RequeueAfter 5)
              | (w2, None) \<Rightarrow> (clear_if_active K ns (drv_name d) w2, Done)))
      else (w, Done))"

definition ignored_status :: "'b k8s_lib_scheme \<Rightarrow> CXIDriver \<Rightarrow> string \<Rightarrow> CXIDriver" where
  "ignored_status K d active =
     set_condition K
       (set_condition K d
         (mk_condition conditionTypeDegraded ConditionTrue ''AnotherCXIDriverActive''
            (''CXIDriver '' @ quote active @ '' is already active; this resource is ignored'')))
       (mk_condition conditionTypeAvailable ConditionFalse ''Ignored''
          ''Another CXIDriver is already managing this cluster'')"

definition reconcile_ignored ::
  "'w k8s \<Rightarrow> string \<Rightarrow> CXIDriver \<Rightarrow> 'w \<Rightarrow> 'w \<times> reconcile_result" where
  "reconcile_ignored K ns d w =
     (case active_or_empty K ns w of
        (w1, active) \<Rightarrow> updateStatusWithRetry K (ignored_status K d active) w1)"

definition reconcile_add_finalizer ::
  "'w k8s \<Rightarrow> CXIDriver \<Rightarrow> 'w \<Rightarrow> 'w \<times> reconcile_result" where
  "reconcile_add_finalizer K d w =
     (case k_update_driver K
             (d\<lparr>drv_meta := k_add_finalizer K (drv_meta d) cxiDriverFinalizer\<rparr>) w of
        (w1, Some _) \<Rightarrow> (w1, RequeueAfter 5)
      | (w1, None) \<Rightarrow> (w1, Requeue))"

definition reconcile_active ::
  "'w k8s \<Rightarrow> string \<Rightarrow> CXIDriver \<Rightarrow> 'w \<Rightarrow> 'w \<times> reconcile_result" where
  "reconcile_active K ns d w =
     (let d0 = set_condition K d
                 (mk_condition conditionTypeProgressing ConditionTrue ''Reconciling''
                    ''Reconciling CXIDriver resources'')
      in case reconcile_components K ns d0 w of
           (w1, Inl d1) \<Rightarrow> (fst (updateStatusWithRetry K d1 w1), RequeueAfter 30)
         | (w1, Inr d1) \<Rightarrow>
             (case updateStatus K ns d1 w1 of
                (w2, Some _) \<Rightarrow> (w2, RequeueAfter 5)
              | (w2, None) \<Rightarrow> (w2, Done)))"

definition Reconcile :: "'w k8s \<Rightarrow> string \<Rightarrow> string \<Rightarrow> 'w \<Rightarrow> 'w \<times> reconcile_result" where
  "Reconcile K ns name w =
     (case k_get_driver K name w of
        (w1, Inl e) \<Rightarrow>
          if IsNotFound e then (clear_if_active K ns name w1, Done) else (w1, RequeueAfter 5)
      | (w1, Inr d) \<Rightarrow>
          if om_deleting (drv_meta d) then reconcile_deletion K ns d w1
          else (case isActiveCXIDriver K ns (drv_name d) w1 of
                  (w2, Inl _) \<Rightarrow> (w2, RequeueAfter 5)
                | (w2, Inr active) \<Rightarrow>
                    if \<not> active then reconcile_ignored K ns d w2
                    else if \<not> k_contains_finalizer K (drv_meta d) cxiDriverFinalizer
                    then reconcile_add_finalizer K d w2
                    else reconcile_active K ns d w2))"

end
