(* ===== verification/ReconcilerFrame.thy ===== *)
theory ReconcilerFrame
  imports Reconciler
begin

text \<open>
  What each operation of the reconciler can change in the cluster, whatever fails. The lemmas are
  proved once for every client that satisfies the API laws (inside the locale \<open>k8s_api\<close>): one frame
  relation per kind of object, one lemma per operation, and their composition in \<open>Reconcile\<close>.
\<close>

section \<open>Frame relations\<close>

definition active_of :: "string \<Rightarrow> cluster \<Rightarrow> string" where
  "active_of ns c =
     (case cl_cms c (singleton_key ns) of None \<Rightarrow> '''' | Some m \<Rightarrow> str_at (cm_data m) singletonActiveKey)"

text \<open>Config maps: only the singleton's map changes, and only its active driver matters.\<close>

definition cm_step :: "string \<Rightarrow> cluster \<Rightarrow> cluster \<Rightarrow> bool" where
  "cm_step ns c c' \<longleftrightarrow>
     cl_drivers c' = cl_drivers c \<and> cl_dss c' = cl_dss c \<and> cl_mwcs c' = cl_mwcs c \<and>
     (\<forall>k. k \<noteq> singleton_key ns \<longrightarrow> cl_cms c' k = cl_cms c k)"

text \<open>The status of one driver.\<close>

definition status_step :: "string \<Rightarrow> cluster \<Rightarrow> cluster \<Rightarrow> bool" where
  "status_step n c c' \<longleftrightarrow>
     cl_cms c' = cl_cms c \<and> cl_dss c' = cl_dss c \<and> cl_mwcs c' = cl_mwcs c \<and>
     (\<forall>m. m \<noteq> n \<longrightarrow> cl_drivers c' m = cl_drivers c m) \<and>
     map_option (\<lambda>d. (drv_meta d, drv_spec d)) (cl_drivers c' n) =
       map_option (\<lambda>d. (drv_meta d, drv_spec d)) (cl_drivers c n)"

definition status_written :: "string \<Rightarrow> CXIDriverStatus \<Rightarrow> cluster \<Rightarrow> cluster \<Rightarrow> bool" where
  "status_written n st c c' \<longleftrightarrow>
     status_step n c c' \<and>
     (cl_drivers c' n = cl_drivers c n \<or>
      (\<exists>x. cl_drivers c' n = Some x \<and> drv_status x = st))"

text \<open>The object of one driver, as the finalizer updates change it.\<close>

definition driver_step :: "string \<Rightarrow> cluster \<Rightarrow> cluster \<Rightarrow> bool" where
  "driver_step n c c' \<longleftrightarrow>
     cl_cms c' = cl_cms c \<and> cl_dss c' = cl_dss c \<and> cl_mwcs c' = cl_mwcs c \<and>
     (\<forall>m. m \<noteq> n \<longrightarrow> cl_drivers c' m = cl_drivers c m)"

text \<open>The objects a driver owns: the four DaemonSets and the webhook named after it.\<close>

definition managed_keys :: "string \<Rightarrow> string \<Rightarrow> key set" where
  "managed_keys ns n =
     {(ns, n @ ''-driver-agent''), (ns, n @ ''-device-plugin''), (ns, n @ ''-retry-handler''),
      (ns, n @ ''-metrics-exporter'')}"

definition managed_in :: "key set \<Rightarrow> string set \<Rightarrow> cluster \<Rightarrow> cluster \<Rightarrow> bool" where
  "managed_in Ks Ms c c' \<longleftrightarrow>
     cl_drivers c' = cl_drivers c \<and> cl_cms c' = cl_cms c \<and>
     (\<forall>k. k \<notin> Ks \<longrightarrow> cl_dss c' k = cl_dss c k) \<and>
     (\<forall>k. cl_dss c k \<noteq> None \<longrightarrow> cl_dss c' k \<noteq> None) \<and>
     (\<forall>m. m \<notin> Ms \<longrightarrow> cl_mwcs c' m = cl_mwcs c m)"

abbreviation managed_step :: "string \<Rightarrow> string \<Rightarrow> cluster \<Rightarrow> cluster \<Rightarrow> bool" where
  "managed_step ns n \<equiv> managed_in (managed_keys ns n) {n @ ''-sidecar-injector''}"

lemmas step_defs = cm_step_def status_step_def driver_step_def managed_in_def

lemma step_refl [simp]:
  "cm_step ns c c" "status_step n c c" "driver_step n c c" "managed_in Ks Ms c c"
  by (simp_all add: step_defs)

lemma cm_step_trans: "cm_step ns a b \<Longrightarrow> cm_step ns b c \<Longrightarrow> cm_step ns a c"
  by (simp add: step_defs)

lemma status_step_trans: "status_step n a b \<Longrightarrow> status_step n b c \<Longrightarrow> status_step n a c"
  by (simp add: step_defs)

lemma status_written_trans:
  "status_written n st a b \<Longrightarrow> status_written n st b c \<Longrightarrow> status_written n st a c"
  by (auto simp: status_written_def dest: status_step_trans)

lemma status_writtenD: "status_written n st c c' \<Longrightarrow> status_step n c c'"
  by (simp add: status_written_def)

lemma managed_in_trans: "managed_in Ks Ms a b \<Longrightarrow> managed_in Ks Ms b c \<Longrightarrow> managed_in Ks Ms a c"
  by (simp add: step_defs)

lemma managed_in_mono:
  "managed_in Ks Ms a b \<Longrightarrow> Ks \<subseteq> Ks' \<Longrightarrow> Ms \<subseteq> Ms' \<Longrightarrow> managed_in Ks' Ms' a b"
  by (auto simp: step_defs)

lemma status_is_driver_step: "status_step n c c' \<Longrightarrow> driver_step n c c'"
  by (simp add: step_defs)

lemma active_of_frame:
  "status_step n c c' \<Longrightarrow> active_of ns c' = active_of ns c"
  "driver_step n c c' \<Longrightarrow> active_of ns c' = active_of ns c"
  "managed_in Ks Ms c c' \<Longrightarrow> active_of ns c' = active_of ns c"
  by (simp_all add: active_of_def step_defs)

section \<open>The effects of the primitive writes\<close>

lemma eff_put_ds_managed: "managed_in {meta_key (ds_meta s)} {} c (eff_put_ds s c)"
  by (auto simp: eff_put_ds_def step_defs)

lemma eff_put_mwc_managed: "managed_in {} {om_name (mwc_meta m)} c (eff_put_mwc m c)"
  by (auto simp: eff_put_mwc_def step_defs)

lemma eff_delete_mwc_managed: "managed_in {} {om_name (mwc_meta m)} c (eff_delete_mwc m c)"
  by (auto simp: eff_delete_mwc_def step_defs)

lemma eff_put_cm_step: "meta_key (cm_meta m) = singleton_key ns \<Longrightarrow> cm_step ns c (eff_put_cm m c)"
  by (auto simp: eff_put_cm_def step_defs)

lemma eff_update_status_step: "drv_name d = n \<Longrightarrow> status_step n c (eff_update_status d c)"
  by (auto simp: eff_update_status_def step_defs split: option.split)

lemma eff_update_driver_step: "drv_name d = n \<Longrightarrow> driver_step n c (eff_update_driver d c)"
  by (auto simp: eff_update_driver_def step_defs split: option.split)

lemma active_of_put:
  "meta_key (cm_meta m) = singleton_key ns \<Longrightarrow>
     active_of ns (eff_put_cm m c) = str_at (cm_data m) singletonActiveKey"
  by (simp add: active_of_def eff_put_cm_def)

text \<open>Using the laws of reads and writes.\<close>

lemma readsD:
  assumes "reads view look g" and "g w = (w', r)"
  shows "view w' = view w"
    and "r = Inr x \<Longrightarrow> look (view w) = Some x"
    and "r = Inl e \<Longrightarrow> IsNotFound e \<Longrightarrow> look (view w) = None"
  using assms by (auto simp: reads_def split: sum.splits)

lemma writesD:
  assumes "writes view pre eff g" and "g w = (w', r)"
  shows "view w' = view w \<or> (pre (view w) \<and> view w' = eff (view w))"
    and "r = None \<Longrightarrow> pre (view w) \<and> view w' = eff (view w)"
  using assms by (auto simp: writes_def split: option.splits)

text \<open>
  Objects are stored under their own name; every write of the operator keeps it so.
\<close>

definition well_named :: "cluster \<Rightarrow> bool" where
  "well_named c \<longleftrightarrow>
     (\<forall>n d. cl_drivers c n = Some d \<longrightarrow> drv_name d = n) \<and>
     (\<forall>k m. cl_cms c k = Some m \<longrightarrow> meta_key (cm_meta m) = k) \<and>
     (\<forall>k s. cl_dss c k = Some s \<longrightarrow> meta_key (ds_meta s) = k) \<and>
     (\<forall>n m. cl_mwcs c n = Some m \<longrightarrow> om_name (mwc_meta m) = n)"

lemma well_namedD:
  assumes "well_named c"
  shows "cl_drivers c n = Some d \<Longrightarrow> drv_name d = n"
    and "cl_cms c k = Some m \<Longrightarrow> meta_key (cm_meta m) = k"
    and "cl_dss c k' = Some s \<Longrightarrow> meta_key (ds_meta s) = k'"
    and "cl_mwcs c n' = Some m' \<Longrightarrow> om_name (mwc_meta m') = n'"
  using assms unfolding well_named_def by blast+

lemma well_named_eff:
  "well_named c \<Longrightarrow> well_named (eff_put_cm m c)"
  "well_named c \<Longrightarrow> well_named (eff_put_ds s c)"
  "well_named c \<Longrightarrow> well_named (eff_put_mwc h c)"
  "well_named c \<Longrightarrow> well_named (eff_delete_mwc h c)"
  "well_named c \<Longrightarrow> well_named (eff_update_driver d c)"
  "well_named c \<Longrightarrow> well_named (eff_update_status d c)"
  by (auto simp: well_named_def eff_put_cm_def eff_put_ds_def eff_put_mwc_def eff_delete_mwc_def
      eff_update_driver_def eff_update_status_def split: option.split)

section \<open>Pure parts: conditions change the status only\<close>

lemma with_conditions_simps [simp]:
  "drv_meta (with_conditions d cs) = drv_meta d"
  "drv_spec (with_conditions d cs) = drv_spec d"
  "drv_conditions (with_conditions d cs) = cs"
  "st_observed_generation (drv_status (with_conditions d cs)) = st_observed_generation (drv_status d)"
  "st_ready (drv_status (with_conditions d cs)) = st_ready (drv_status d)"
  "st_updating (drv_status (with_conditions d cs)) = st_updating (drv_status d)"
  "st_failed (drv_status (with_conditions d cs)) = st_failed (drv_status d)"
  "st_driver_version (drv_status (with_conditions d cs)) = st_driver_version (drv_status d)"
  "st_retry_handler_mode (drv_status (with_conditions d cs)) = st_retry_handler_mode (drv_status d)"
  by (simp_all add: with_conditions_def)

lemmas condition_defs =
  set_condition_def remove_condition_def setComponentCondition_def setDegradedCondition_def

lemma condition_ops_frame [simp]:
  "drv_meta (set_condition K d c) = drv_meta d" "drv_spec (set_condition K d c) = drv_spec d"
  "drv_meta (remove_condition K d t) = drv_meta d" "drv_spec (remove_condition K d t) = drv_spec d"
  "drv_meta (setComponentCondition K d t b r m) = drv_meta d"
  "drv_spec (setComponentCondition K d t b r m) = drv_spec d"
  "drv_meta (setDegradedCondition K d r m) = drv_meta d"
  "drv_spec (setDegradedCondition K d r m) = drv_spec d"
  by (simp_all add: condition_defs)

lemma status_fields_frame [simp]:
  "drv_meta (status_fields d r u f) = drv_meta d" "drv_spec (status_fields d r u f) = drv_spec d"
  "drv_conditions (status_fields d r u f) = drv_conditions d"
  by (simp_all add: status_fields_def)

lemma computeStatus_frame [simp]:
  "drv_meta (computeStatus K d r u f) = drv_meta d" "drv_spec (computeStatus K d r u f) = drv_spec d"
  by (simp_all add: computeStatus_def Let_def)

text \<open>The manifests depend on the name and the specification only.\<close>

lemma builders_cong:
  assumes "drv_name d' = drv_name d" and "drv_spec d' = drv_spec d"
  shows "buildDriverAgentDaemonSet ns d' = buildDriverAgentDaemonSet ns d"
    and "buildDevicePluginDaemonSet ns d' = buildDevicePluginDaemonSet ns d"
    and "buildRetryHandlerDaemonSet ns d' = buildRetryHandlerDaemonSet ns d"
    and "buildMetricsExporterDaemonSet ns d' = buildMetricsExporterDaemonSet ns d"
    and "build_sidecar_webhook ns d' = build_sidecar_webhook ns d"
  using assms
  by (simp_all add: builder_defs buildDriverAgentEnvVars_def metrics_args_def metrics_port_def
      build_sidecar_webhook_def sidecar_webhook_name_def)

lemma mk_condition_sel [simp]:
  "cond_type (mk_condition t s r m) = t" "cond_status (mk_condition t s r m) = s"
  "cond_reason (mk_condition t s r m) = r" "cond_message (mk_condition t s r m) = m"
  by (simp_all add: mk_condition_def)

section \<open>Objects in place\<close>

text \<open>A DaemonSet (a webhook) of the wanted specification is stored under the wanted name.\<close>

definition has_ds :: "cluster \<Rightarrow> DaemonSet \<Rightarrow> bool" where
  "has_ds c s \<longleftrightarrow>
     (case cl_dss c (meta_key (ds_meta s)) of None \<Rightarrow> False | Some x \<Rightarrow> ds_spec x = ds_spec s)"

definition has_mwc :: "cluster \<Rightarrow> MutatingWebhookConfiguration \<Rightarrow> bool" where
  "has_mwc c h \<longleftrightarrow>
     (case cl_mwcs c (om_name (mwc_meta h)) of None \<Rightarrow> False
      | Some x \<Rightarrow> mwc_webhooks x = mwc_webhooks h)"

lemma has_ds_frame:
  "managed_in Ks Ms c c' \<Longrightarrow> meta_key (ds_meta s) \<notin> Ks \<Longrightarrow> has_ds c' s = has_ds c s"
  by (cases "meta_key (ds_meta s)") (simp add: has_ds_def step_defs)

lemma has_mwc_frame:
  "managed_in Ks Ms c c' \<Longrightarrow> om_name (mwc_meta h) \<notin> Ms \<Longrightarrow> has_mwc c' h = has_mwc c h"
  by (simp add: has_mwc_def step_defs)

text \<open>The counts of the status are those of the driver agent's DaemonSet, or zero when it cannot be read.\<close>

definition agent_counts :: "DaemonSet option \<Rightarrow> i32 \<times> i32 \<times> i32" where
  "agent_counts ds =
     (case ds of None \<Rightarrow> (0, 0, 0)
      | Some s \<Rightarrow> (dst_number_ready (ds_status s),
                  dst_desired (ds_status s) - dst_number_ready (ds_status s),
                  dst_unavailable (ds_status s)))"

section \<open>One lemma per operation\<close>

context k8s_api begin

lemma getActive:
  assumes "getActiveCXIDriver K ns w = (w', r)"
  shows "view w' = view w" and "r = Inr a \<Longrightarrow> a = active_of ns (view w)"
proof -
  obtain w1 q where g: "k_get_cm K (singleton_key ns) w = (w1, q)"
    by (cases "k_get_cm K (singleton_key ns) w")
  note R = readsD [OF get_cm g]
  show "view w' = view w"
    using assms g R(1) by (auto simp: getActiveCXIDriver_def split: sum.splits if_splits)
  assume "r = Inr a"
  then show "a = active_of ns (view w)"
    using assms g R(2,3)
    by (cases q) (auto simp: getActiveCXIDriver_def active_of_def split: if_splits)
qed

lemma setActive:
  assumes "setActiveCXIDriver K ns n w = (w', r)" and wn: "well_named (view w)"
  shows "cm_step ns (view w) (view w') \<and> well_named (view w') \<and>
    active_of ns (view w') \<in> {active_of ns (view w), n} \<and>
    (r = None \<longrightarrow> active_of ns (view w') = n)"
proof -
  obtain w1 q where g: "k_get_cm K (singleton_key ns) w = (w1, q)"
    by (cases "k_get_cm K (singleton_key ns) w")
  note R = readsD [OF get_cm g]
  show ?thesis
  proof (cases q)
    case (Inl e)
    have key: "meta_key (cm_meta (new_singleton ns n)) = singleton_key ns"
      by (simp add: new_singleton_def meta_key_def singleton_key_def)
    obtain w2 q2 where c: "k_create_cm K (new_singleton ns n) w1 = (w2, q2)"
      by (cases "k_create_cm K (new_singleton ns n) w1")
    have "str_at (cm_data (new_singleton ns n)) singletonActiveKey = n"
      by (simp add: new_singleton_def)
    then show ?thesis
      using assms g Inl R c writesD [OF create_cm c] wn
        eff_put_cm_step [OF key] active_of_put [OF key] well_named_eff(1)
      by (auto simp: setActiveCXIDriver_def active_of_def [of ns "view w"]
          split: if_splits option.splits)
  next
    case (Inr m)
    define m' where "m' = (if n = '''' then m\<lparr>cm_data := (cm_data m)(singletonActiveKey := None)\<rparr>
      else m\<lparr>cm_data := (cm_data m)(singletonActiveKey \<mapsto> n)\<rparr>)"
    have key: "meta_key (cm_meta m') = singleton_key ns"
      using wn R(2) Inr by (auto simp: m'_def dest: well_namedD(2))
    obtain w2 q2 where c: "k_update_cm K m' w1 = (w2, q2)"
      by (cases "k_update_cm K m' w1")
    have "str_at (cm_data m') singletonActiveKey = n"
      by (simp add: m'_def)
    then show ?thesis
      using assms g Inr R c writesD [OF update_cm c] wn
        eff_put_cm_step [OF key] active_of_put [OF key] well_named_eff(1)
      by (auto simp: setActiveCXIDriver_def m'_def [symmetric] split: option.splits)
  qed
qed

lemma isActive:
  assumes "isActiveCXIDriver K ns n w = (w', r)" and wn: "well_named (view w)"
  shows "cm_step ns (view w) (view w')" and "well_named (view w')"
    and "r = Inr True \<Longrightarrow> active_of ns (view w') = n"
    and "r = Inr False \<Longrightarrow> view w' = view w \<and> active_of ns (view w) \<notin> {'''', n} \<and>
           cl_drivers (view w) (active_of ns (view w)) \<noteq> None"
    and "active_of ns (view w) \<notin> {'''', n} \<Longrightarrow>
         cl_drivers (view w) (active_of ns (view w)) \<noteq> None \<Longrightarrow> view w' = view w \<and> r \<noteq> Inr True"
    and "n \<noteq> '''' \<Longrightarrow> active_of ns (view w) = n \<Longrightarrow> view w' = view w \<and> r \<noteq> Inr False"
proof -
  obtain w1 q where g: "getActiveCXIDriver K ns w = (w1, q)"
    by (cases "getActiveCXIDriver K ns w")
  note G = getActive [OF g]
  have "cm_step ns (view w) (view w') \<and> well_named (view w') \<and>
    (r = Inr True \<longrightarrow> active_of ns (view w') = n) \<and>
    (r = Inr False \<longrightarrow> view w' = view w \<and> active_of ns (view w) \<notin> {'''', n} \<and>
       cl_drivers (view w) (active_of ns (view w)) \<noteq> None) \<and>
    (active_of ns (view w) \<notin> {'''', n} \<and>
       cl_drivers (view w) (active_of ns (view w)) \<noteq> None \<longrightarrow> view w' = view w \<and> r \<noteq> Inr True) \<and>
    (n \<noteq> '''' \<and> active_of ns (view w) = n \<longrightarrow> view w' = view w \<and> r \<noteq> Inr False)"
  proof (cases q)
    case (Inl e)
    then show ?thesis
      using assms g G(1) by (auto simp: isActiveCXIDriver_def)
  next
    case (Inr a)
    then have a: "a = active_of ns (view w)" by (rule G(2))
    obtain w2 q2 where s: "setActiveCXIDriver K ns n w1 = (w2, q2)"
      by (cases "setActiveCXIDriver K ns n w1")
    obtain w3 q3 where d: "k_get_driver K a w1 = (w3, q3)"
      by (cases "k_get_driver K a w1")
    obtain w4 q4 where s2: "setActiveCXIDriver K ns n w3 = (w4, q4)"
      by (cases "setActiveCXIDriver K ns n w3")
    note D = readsD [OF get_driver d]
    have wn1: "well_named (view w1)" "well_named (view w3)"
      using wn G(1) D(1) by simp_all
    show ?thesis
      using assms g G(1) Inr a s d D s2 setActive [OF s wn1(1)] setActive [OF s2 wn1(2)]
      by (auto simp: isActiveCXIDriver_def split: if_splits option.splits sum.splits)
  qed
  then show "cm_step ns (view w) (view w')" "well_named (view w')"
    "r = Inr True \<Longrightarrow> active_of ns (view w') = n"
    "r = Inr False \<Longrightarrow> view w' = view w \<and> active_of ns (view w) \<notin> {'''', n} \<and>
       cl_drivers (view w) (active_of ns (view w)) \<noteq> None"
    "active_of ns (view w) \<notin> {'''', n} \<Longrightarrow>
       cl_drivers (view w) (active_of ns (view w)) \<noteq> None \<Longrightarrow> view w' = view w \<and> r \<noteq> Inr True"
    "n \<noteq> '''' \<Longrightarrow> active_of ns (view w) = n \<Longrightarrow> view w' = view w \<and> r \<noteq> Inr False"
    by blast+
qed

lemma active_or_empty_frame:
  "active_or_empty K ns w = (w', a) \<Longrightarrow> view w' = view w \<and> a \<in> {'''', active_of ns (view w)}"
  by (auto simp: active_or_empty_def split: prod.splits sum.splits dest: getActive)

lemma clear_if_active_frame:
  assumes "well_named (view w)"
  shows "cm_step ns (view w) (view (clear_if_active K ns n w)) \<and>
    well_named (view (clear_if_active K ns n w)) \<and>
    active_of ns (view (clear_if_active K ns n w)) \<in> {active_of ns (view w), ''''} \<and>
    (n \<noteq> '''' \<and> active_of ns (view w) \<noteq> n \<longrightarrow> view (clear_if_active K ns n w) = view w)"
proof -
  obtain w1 a where g: "active_or_empty K ns w = (w1, a)" by (cases "active_or_empty K ns w")
  note A = active_or_empty_frame [OF g]
  obtain w2 q where s: "setActiveCXIDriver K ns '''' w1 = (w2, q)"
    by (cases "setActiveCXIDriver K ns '''' w1")
  have "well_named (view w1)" using A assms by simp
  from setActive [OF s this] show ?thesis
    using g A s assms by (auto simp: clear_if_active_def)
qed

lemma sync_daemonset:
  assumes "sync_daemonset K d s w = (w', r)" and wn: "well_named (view w)"
  shows "managed_in {meta_key (ds_meta s)} {} (view w) (view w') \<and> well_named (view w') \<and>
    (r = None \<longrightarrow> has_ds (view w') s)"
proof (cases "k_set_controller_reference K d (ds_meta s)")
  case (Inl e)
  then show ?thesis using assms by (auto simp: sync_daemonset_def)
next
  case (Inr m)
  then have m: "m = (ds_meta s)\<lparr>om_controller := Some (drv_name d)\<rparr>"
    by (rule set_controller_reference)
  then have key: "meta_key m = meta_key (ds_meta s)" by (simp add: meta_key_def)
  obtain w1 q where g: "k_get_ds K (meta_key m) w = (w1, q)" by (cases "k_get_ds K (meta_key m) w")
  note R = readsD [OF get_ds g]
  show ?thesis
  proof (cases q)
    case (Inl e)
    let ?s = "s\<lparr>ds_meta := m\<rparr>"
    obtain w2 q2 where c: "k_create_ds K ?s w1 = (w2, q2)" by (cases "k_create_ds K ?s w1")
    have "has_ds (eff_put_ds ?s (view w)) s" using key by (simp add: has_ds_def eff_put_ds_def)
    then show ?thesis
      using assms \<open>k_set_controller_reference K d (ds_meta s) = Inr m\<close> g Inl R(1)
        writesD [OF create_ds c] c eff_put_ds_managed [of ?s] key well_named_eff(2) [of "view w" ?s]
      by (auto simp: sync_daemonset_def Let_def split: if_splits option.splits)
  next
    case (Inr x)
    let ?x = "x\<lparr>ds_spec := ds_spec s\<rparr>"
    have xk: "meta_key (ds_meta ?x) = meta_key (ds_meta s)"
      using R(2) [OF Inr] wn key by (auto dest: well_namedD(3))
    obtain w2 q2 where c: "k_update_ds K ?x w1 = (w2, q2)" by (cases "k_update_ds K ?x w1")
    have "has_ds (eff_put_ds ?x (view w)) s" using xk by (simp add: has_ds_def eff_put_ds_def)
    then show ?thesis
      using assms \<open>k_set_controller_reference K d (ds_meta s) = Inr m\<close> g Inr R(1)
        writesD [OF update_ds c] c eff_put_ds_managed [of ?x] xk well_named_eff(2) [of "view w" ?x]
      by (auto simp: sync_daemonset_def Let_def split: if_splits option.splits)
  qed
qed

lemma reconcileSidecarWebhook:
  assumes "reconcileSidecarWebhook K ns d w = (w', r)" and wn: "well_named (view w)"
  shows "managed_in {} {sidecar_webhook_name d} (view w) (view w') \<and> well_named (view w') \<and>
    (r = None \<longrightarrow> has_mwc (view w') (build_sidecar_webhook ns d))"
proof -
  let ?n = "sidecar_webhook_name d" and ?h = "build_sidecar_webhook ns d"
  have hn: "om_name (mwc_meta ?h) = ?n" by (simp add: build_sidecar_webhook_def)
  obtain w1 q where g: "k_get_mwc K ?n w = (w1, q)" by (cases "k_get_mwc K ?n w")
  note R = readsD [OF get_mwc g]
  show ?thesis
  proof (cases q)
    case (Inl e)
    obtain w2 q2 where c: "k_create_mwc K ?h w1 = (w2, q2)" by (cases "k_create_mwc K ?h w1")
    have "has_mwc (eff_put_mwc ?h (view w)) ?h" by (simp add: has_mwc_def eff_put_mwc_def)
    then show ?thesis
      using assms g Inl R(1) writesD [OF create_mwc c] c eff_put_mwc_managed [of ?h] hn
        well_named_eff(3) [of "view w" ?h]
      by (auto simp: reconcileSidecarWebhook_def Let_def split: if_splits option.splits)
  next
    case (Inr x)
    let ?x = "x\<lparr>mwc_webhooks := mwc_webhooks ?h\<rparr>"
    have xn: "om_name (mwc_meta ?x) = ?n"
      using R(2) [OF Inr] wn by (auto dest: well_namedD(4))
    obtain w2 q2 where c: "k_update_mwc K ?x w1 = (w2, q2)" by (cases "k_update_mwc K ?x w1")
    have "has_mwc (eff_put_mwc ?x (view w)) ?h" using xn hn by (simp add: has_mwc_def eff_put_mwc_def)
    then show ?thesis
      using assms g Inr R(1) writesD [OF update_mwc c] c eff_put_mwc_managed [of ?x] xn
        well_named_eff(3) [of "view w" ?x]
      by (auto simp: reconcileSidecarWebhook_def Let_def split: if_splits option.splits)
  qed
qed

lemma cleanupResources:
  assumes "cleanupResources K d w = (w', r)" and wn: "well_named (view w)"
  shows "managed_in {} {sidecar_webhook_name d} (view w) (view w') \<and> well_named (view w') \<and>
    (r = None \<and> rh_mode (spec_retry_handler (drv_spec d)) = RetryHandlerModeSidecar \<longrightarrow>
       cl_mwcs (view w') (sidecar_webhook_name d) = None)"
proof (cases "rh_mode (spec_retry_handler (drv_spec d)) = RetryHandlerModeSidecar")
  case False
  then show ?thesis using assms by (auto simp: cleanupResources_def)
next
  case True
  let ?n = "sidecar_webhook_name d"
  obtain w1 q where g: "k_get_mwc K ?n w = (w1, q)" by (cases "k_get_mwc K ?n w")
  note R = readsD [OF get_mwc g]
  show ?thesis
  proof (cases q)
    case (Inl e)
    then show ?thesis
      using assms g True R by (auto simp: cleanupResources_def Let_def split: if_splits)
  next
    case (Inr x)
    have xn: "om_name (mwc_meta x) = ?n"
      using R(2) [OF Inr] wn by (auto dest: well_namedD(4))
    obtain w2 q2 where c: "k_delete_mwc K x w1 = (w2, q2)" by (cases "k_delete_mwc K x w1")
    have "cl_mwcs (eff_delete_mwc x (view w)) ?n = None" using xn by (simp add: eff_delete_mwc_def)
    then show ?thesis
      using assms g Inr True R(1) writesD [OF delete_mwc c] c delete_mwc_not_found [of x w1]
        eff_delete_mwc_managed [of x] xn well_named_eff(4) [of "view w" x]
      by (auto simp: cleanupResources_def Let_def split: if_splits option.splits)
  qed
qed

text \<open>One attempt to store a status, on the latest version of the driver.\<close>

lemma status_attempt:
  assumes "(case k_get_driver K (drv_name d) v of
      (w1, Inl e) \<Rightarrow> (w1, Some (wrapf ''fetching latest CXIDriver'' e))
    | (w1, Inr latest) \<Rightarrow>
        (case k_update_driver_status K (latest\<lparr>drv_status := drv_status d\<rparr>) w1 of
           (w2, Some e) \<Rightarrow> (w2, Some (wrapf ''updating CXIDriver status'' e))
         | (w2, None) \<Rightarrow> (w2, None))) = (v', q)"
    and "status_written (drv_name d) (drv_status d) c (view v) \<and> well_named (view v)"
  shows "(status_written (drv_name d) (drv_status d) c (view v') \<and> well_named (view v')) \<and>
    (q = None \<longrightarrow> (\<exists>x. cl_drivers (view v') (drv_name d) = Some x \<and> drv_status x = drv_status d))"
proof -
  obtain v1 g1 where g: "k_get_driver K (drv_name d) v = (v1, g1)"
    by (cases "k_get_driver K (drv_name d) v")
  note R = readsD [OF get_driver g]
  show ?thesis
  proof (cases g1)
    case (Inl e)
    then show ?thesis using assms g R(1) by auto
  next
    case (Inr x)
    let ?x = "x\<lparr>drv_status := drv_status d\<rparr>"
    have xn: "drv_name ?x = drv_name d" and st: "cl_drivers (view v) (drv_name d) = Some x"
      using R(2) [OF Inr] assms(2) by (auto dest: well_namedD(1))
    obtain v2 q2 where c: "k_update_driver_status K ?x v1 = (v2, q2)"
      by (cases "k_update_driver_status K ?x v1")
    have "status_written (drv_name d) (drv_status d) (view v) (eff_update_status ?x (view v))"
      using eff_update_status_step [OF xn, of "view v"] st xn
      by (simp add: status_written_def eff_update_status_def)
    moreover have "\<exists>y. cl_drivers (eff_update_status ?x (view v)) (drv_name d) = Some y \<and>
        drv_status y = drv_status d"
      using st xn by (simp add: eff_update_status_def)
    ultimately show ?thesis
      using assms g Inr R(1) writesD [OF update_driver_status c] c
        well_named_eff(6) [of "view v" ?x]
      by (auto split: option.splits intro: status_written_trans)
  qed
qed

lemma updateStatusRetryOnConflict:
  assumes "updateStatusRetryOnConflict K d w = (w', r)" and wn: "well_named (view w)"
  shows "status_written (drv_name d) (drv_status d) (view w) (view w') \<and> well_named (view w') \<and>
    (r = None \<longrightarrow> (\<exists>x. cl_drivers (view w') (drv_name d) = Some x \<and> drv_status x = drv_status d))"
proof -
  obtain n where n: "k_retry_on_conflict K = retry_steps n" using retry_on_conflict by blast
  note run = assms(1) [unfolded updateStatusRetryOnConflict_def n]
  let ?P = "\<lambda>v. status_written (drv_name d) (drv_status d) (view w) (view v) \<and> well_named (view v)"
  have P0: "?P w" using wn by (simp add: status_written_def)
  have "?P w'"
    by (rule retry_steps_invariant [where P = ?P, OF _ run P0]) (use status_attempt in blast)
  moreover have "\<exists>x. cl_drivers (view w') (drv_name d) = Some x \<and> drv_status x = drv_status d"
    if none: "r = None"
  proof -
    note ex = retry_steps_success [where P = ?P, OF run [unfolded none] _ P0]
    show ?thesis by (rule exE [OF ex]) (use status_attempt in blast)+
  qed
  ultimately show ?thesis by blast
qed

lemma updateStatusWithRetry:
  assumes "updateStatusWithRetry K d w = (w', r)" and "well_named (view w)"
  shows "status_written (drv_name d)
      ((drv_status d)\<lparr>st_observed_generation := om_generation (drv_meta d)\<rparr>) (view w) (view w') \<and>
    well_named (view w') \<and> r \<in> {Done, RequeueAfter 5} \<and>
    (r = Done \<longrightarrow> (\<exists>x. cl_drivers (view w') (drv_name d) = Some x \<and>
       drv_status x = (drv_status d)\<lparr>st_observed_generation := om_generation (drv_meta d)\<rparr>))"
proof -
  let ?d = "d\<lparr>drv_status := (drv_status d)\<lparr>st_observed_generation := om_generation (drv_meta d)\<rparr>\<rparr>"
  obtain w1 q where u: "updateStatusRetryOnConflict K ?d w = (w1, q)"
    by (cases "updateStatusRetryOnConflict K ?d w")
  from updateStatusRetryOnConflict [OF u assms(2)] show ?thesis
    using assms(1) u by (auto simp: updateStatusWithRetry_def Let_def split: option.splits)
qed

lemma node_counts:
  assumes "node_counts K ns d w = (w1, cs)"
  shows "view w1 = view w"
    and "cs \<in> {agent_counts (cl_dss (view w) (ns, drv_name d @ ''-driver-agent'')), (0, 0, 0)}"
proof -
  obtain w2 q where g: "k_get_ds K (ns, drv_name d @ ''-driver-agent'') w = (w2, q)"
    by (cases "k_get_ds K (ns, drv_name d @ ''-driver-agent'') w")
  note R = readsD [OF get_ds g]
  show "view w1 = view w" using assms g R(1) by (auto simp: node_counts_def split: sum.splits)
  show "cs \<in> {agent_counts (cl_dss (view w) (ns, drv_name d @ ''-driver-agent'')), (0, 0, 0)}"
    using assms g R(2) by (cases q) (auto simp: node_counts_def agent_counts_def)
qed

lemma updateStatus:
  assumes "updateStatus K ns d w = (w', r)" and "well_named (view w)"
  obtains ready updating failed where
    "(ready, updating, failed) \<in>
       {agent_counts (cl_dss (view w) (ns, drv_name d @ ''-driver-agent'')), (0, 0, 0)}"
    and "status_written (drv_name d) (drv_status (computeStatus K d ready updating failed))
           (view w) (view w')"
    and "well_named (view w')"
    and "r = None \<Longrightarrow> \<exists>x. cl_drivers (view w') (drv_name d) = Some x \<and>
       drv_status x = drv_status (computeStatus K d ready updating failed)"
proof -
  obtain w1 c1 c2 c3 where n: "node_counts K ns d w = (w1, c1, c2, c3)"
    by (metis prod_cases4)
  note N = node_counts [OF n]
  have u: "updateStatusRetryOnConflict K (computeStatus K d c1 c2 c3) w1 = (w', r)"
    using assms(1) n by (simp add: updateStatus_def)
  from updateStatusRetryOnConflict [OF u] assms(2) N that [of c1 c2 c3] show ?thesis by simp
qed

end

end
