(* ===== verification/ReconcilerStages.thy ===== *)
theory ReconcilerStages
  imports ReconcilerFrame
begin

text \<open>
  The component stages of \<open>Reconcile\<close> and their composition: what a successful pass leaves in
  place, in which order the components are rolled out, and what a failing component records in
  the status.
\<close>

definition same_object :: "CXIDriver \<Rightarrow> CXIDriver \<Rightarrow> bool" where
  "same_object d d' \<longleftrightarrow> drv_meta d' = drv_meta d \<and> drv_spec d' = drv_spec d"

lemma same_object_simps [simp]:
  "same_object d d"
  "same_object d (set_condition K d c)"
  "same_object d (remove_condition K d t)"
  "same_object d (setComponentCondition K d t b r m)"
  by (simp_all add: same_object_def)

lemma same_object_trans: "same_object a b \<Longrightarrow> same_object b c \<Longrightarrow> same_object a c"
  by (simp add: same_object_def)

lemma same_object_builders:
  assumes "same_object d d'"
  shows "buildDriverAgentDaemonSet ns d' = buildDriverAgentDaemonSet ns d"
    and "buildDevicePluginDaemonSet ns d' = buildDevicePluginDaemonSet ns d"
    and "buildRetryHandlerDaemonSet ns d' = buildRetryHandlerDaemonSet ns d"
    and "buildMetricsExporterDaemonSet ns d' = buildMetricsExporterDaemonSet ns d"
    and "build_sidecar_webhook ns d' = build_sidecar_webhook ns d"
    and "drv_name d' = drv_name d" and "drv_spec d' = drv_spec d"
  using assms builders_cong [of d' d] by (simp_all add: same_object_def)

section \<open>Deployment of the components\<close>

definition handler_deployed :: "string \<Rightarrow> CXIDriver \<Rightarrow> cluster \<Rightarrow> bool" where
  "handler_deployed ns d c \<longleftrightarrow>
     (let mode = rh_mode (spec_retry_handler (drv_spec d)) in
      if mode = RetryHandlerModeDaemonSet \<or> mode = '''' then has_ds c (buildRetryHandlerDaemonSet ns d)
      else if mode = RetryHandlerModeSidecar then has_mwc c (build_sidecar_webhook ns d)
      else mode \<in> {RetryHandlerModeKernel, RetryHandlerModeNone})"

definition plugin_deployed :: "string \<Rightarrow> CXIDriver \<Rightarrow> cluster \<Rightarrow> bool" where
  "plugin_deployed ns d c \<longleftrightarrow>
     (dp_enabled (spec_device_plugin (drv_spec d)) \<longrightarrow> has_ds c (buildDevicePluginDaemonSet ns d))"

definition retry_deployed :: "string \<Rightarrow> CXIDriver \<Rightarrow> cluster \<Rightarrow> bool" where
  "retry_deployed ns d c \<longleftrightarrow>
     (rh_enabled (spec_retry_handler (drv_spec d)) \<longrightarrow> handler_deployed ns d c)"

definition exporter_deployed :: "string \<Rightarrow> CXIDriver \<Rightarrow> cluster \<Rightarrow> bool" where
  "exporter_deployed ns d c \<longleftrightarrow>
     (me_enabled (spec_metrics_exporter (drv_spec d)) \<longrightarrow> has_ds c (buildMetricsExporterDaemonSet ns d))"

definition deployed :: "string \<Rightarrow> CXIDriver \<Rightarrow> cluster \<Rightarrow> bool" where
  "deployed ns d c \<longleftrightarrow>
     has_ds c (buildDriverAgentDaemonSet ns d) \<and> plugin_deployed ns d c \<and> retry_deployed ns d c \<and>
     exporter_deployed ns d c"

lemmas deployed_defs =
  deployed_def plugin_deployed_def retry_deployed_def exporter_deployed_def handler_deployed_def

lemma deployed_cong:
  assumes "same_object d d'"
  shows "plugin_deployed ns d' = plugin_deployed ns d"
    and "retry_deployed ns d' = retry_deployed ns d"
    and "exporter_deployed ns d' = exporter_deployed ns d"
    and "handler_deployed ns d' = handler_deployed ns d"
    and "deployed ns d' = deployed ns d"
  using same_object_builders [OF assms] by (auto simp: deployed_defs fun_eq_iff)

lemma deployed_cong_spec:
  "drv_name d' = drv_name d \<Longrightarrow> drv_spec d' = drv_spec d \<Longrightarrow> deployed ns d' = deployed ns d"
  using builders_cong [of d' d] by (auto simp: deployed_defs fun_eq_iff)

text \<open>The keys of the four DaemonSets are distinct, so a later stage keeps what an earlier one built.\<close>

lemma keys_distinct [simp]:
  "meta_key (new_meta (n @ a) ns l) = meta_key (new_meta (n @ b) ns l') \<longleftrightarrow> a = b"
  by (simp add: meta_key_def)

lemma key_in_managed:
  "meta_key (ds_meta (buildDriverAgentDaemonSet ns d)) \<in> managed_keys ns (drv_name d)"
  "meta_key (ds_meta (buildDevicePluginDaemonSet ns d)) \<in> managed_keys ns (drv_name d)"
  "meta_key (ds_meta (buildRetryHandlerDaemonSet ns d)) \<in> managed_keys ns (drv_name d)"
  "meta_key (ds_meta (buildMetricsExporterDaemonSet ns d)) \<in> managed_keys ns (drv_name d)"
  by (simp_all add: managed_keys_def meta_key_def)

section \<open>One stage\<close>

text \<open>The conditions a stage that failed has set on the driver it returns.\<close>

definition failure_recorded :: "CXIDriver \<Rightarrow> string \<Rightarrow> string \<Rightarrow> bool" where
  "failure_recorded d ctype reason \<longleftrightarrow>
     (\<exists>msg.
        find_condition (drv_conditions d) ctype = Some (mk_condition ctype ConditionFalse ''Failed'' msg) \<and>
        find_condition (drv_conditions d) conditionTypeDegraded =
          Some (mk_condition conditionTypeDegraded ConditionTrue reason msg) \<and>
        find_condition (drv_conditions d) conditionTypeAvailable =
          Some (mk_condition conditionTypeAvailable ConditionFalse reason msg))"

context k8s_lib_laws begin

lemma find_set_condition [simp]:
  "find_condition (drv_conditions (set_condition L d c)) t =
     (if t = cond_type c then Some c else find_condition (drv_conditions d) t)"
  by (simp add: set_condition_def set_status_condition)

lemma find_remove_condition [simp]:
  "find_condition (drv_conditions (remove_condition L d t')) t =
     (if t = t' then None else find_condition (drv_conditions d) t)"
  by (simp add: remove_condition_def remove_status_condition)

lemma failure_recorded_stage:
  assumes "ctype \<notin> {conditionTypeDegraded, conditionTypeAvailable}"
  shows "failure_recorded
    (setDegradedCondition L (setComponentCondition L d ctype False ''Failed'' msg) reason msg)
    ctype reason"
  using assms by (auto simp: failure_recorded_def setDegradedCondition_def setComponentCondition_def)

end

context k8s_api begin

lemma component_stage:
  assumes "component_stage K ctype reason msg enabled sync d w = (w', r)" and "well_named (view w)"
    and "\<And>w2 q. enabled \<Longrightarrow> sync d w = (w2, q) \<Longrightarrow>
      managed_in Ks Ms (view w) (view w2) \<and> well_named (view w2) \<and> (q = None \<longrightarrow> P (view w2))"
    and "ctype \<notin> {conditionTypeDegraded, conditionTypeAvailable}"
  shows "managed_in Ks Ms (view w) (view w') \<and> well_named (view w') \<and>
    (case r of Inl d' \<Rightarrow> same_object d d' \<and> failure_recorded d' ctype reason
     | Inr d' \<Rightarrow> same_object d d' \<and> (enabled \<longrightarrow> P (view w')))"
proof (cases enabled)
  case False
  then show ?thesis using assms(1,2) by (auto simp: component_stage_def)
next
  case True
  obtain w2 q where s: "sync d w = (w2, q)" by (cases "sync d w")
  show ?thesis
    using assms(1) assms(3) [OF True s] True s failure_recorded_stage [OF assms(4)]
    by (auto simp: component_stage_def same_object_def split: option.splits)
qed

lemma stage_driver_agent:
  assumes "stage_driver_agent K ns d w = (w', r)" and wn: "well_named (view w)"
  shows "managed_in {meta_key (ds_meta (buildDriverAgentDaemonSet ns d))} {} (view w) (view w') \<and>
    well_named (view w') \<and>
    (case r of
       Inl d' \<Rightarrow> same_object d d' \<and>
         failure_recorded d' conditionTypeDriverAgentReady ''DriverAgentFailed''
     | Inr d' \<Rightarrow> same_object d d' \<and> has_ds (view w') (buildDriverAgentDaemonSet ns d))"
  using component_stage [OF assms(1) [unfolded stage_driver_agent_def] wn,
      where P = "\<lambda>c. has_ds c (buildDriverAgentDaemonSet ns d)"
        and Ks = "{meta_key (ds_meta (buildDriverAgentDaemonSet ns d))}" and Ms = "{}"]
    sync_daemonset [OF _ wn, where s = "buildDriverAgentDaemonSet ns d"]
  by (simp add: reconcileDriverAgent_def split: sum.splits)

lemma stage_device_plugin:
  assumes "stage_device_plugin K ns d w = (w', r)" and wn: "well_named (view w)"
  shows "managed_in {meta_key (ds_meta (buildDevicePluginDaemonSet ns d))} {} (view w) (view w') \<and>
    well_named (view w') \<and>
    (case r of
       Inl d' \<Rightarrow> same_object d d' \<and>
         failure_recorded d' conditionTypeDevicePluginReady ''DevicePluginFailed''
     | Inr d' \<Rightarrow> same_object d d' \<and> plugin_deployed ns d (view w'))"
  using component_stage [OF assms(1) [unfolded stage_device_plugin_def] wn,
      where P = "\<lambda>c. has_ds c (buildDevicePluginDaemonSet ns d)"
        and Ks = "{meta_key (ds_meta (buildDevicePluginDaemonSet ns d))}" and Ms = "{}"]
    sync_daemonset [OF _ wn, where s = "buildDevicePluginDaemonSet ns d"]
  by (simp add: reconcileDevicePlugin_def plugin_deployed_def split: sum.splits)

lemma stage_metrics_exporter:
  assumes "stage_metrics_exporter K ns d w = (w', r)" and wn: "well_named (view w)"
  shows "managed_in {meta_key (ds_meta (buildMetricsExporterDaemonSet ns d))} {} (view w) (view w') \<and>
    well_named (view w') \<and>
    (case r of
       Inl d' \<Rightarrow> same_object d d' \<and>
         failure_recorded d' conditionTypeMetricsExporterReady ''MetricsExporterFailed''
     | Inr d' \<Rightarrow> same_object d d' \<and> exporter_deployed ns d (view w'))"
  using component_stage [OF assms(1) [unfolded stage_metrics_exporter_def] wn,
      where P = "\<lambda>c. has_ds c (buildMetricsExporterDaemonSet ns d)"
        and Ks = "{meta_key (ds_meta (buildMetricsExporterDaemonSet ns d))}" and Ms = "{}"]
    sync_daemonset [OF _ wn, where s = "buildMetricsExporterDaemonSet ns d"]
  by (simp add: reconcileMetricsExporter_def exporter_deployed_def split: sum.splits)

lemma reconcileRetryHandler:
  assumes "reconcileRetryHandler K ns d w = (w', r)" and wn: "well_named (view w)"
  shows "managed_in {meta_key (ds_meta (buildRetryHandlerDaemonSet ns d))} {sidecar_webhook_name d}
      (view w) (view w') \<and> well_named (view w') \<and> (r = None \<longrightarrow> handler_deployed ns d (view w'))"
proof -
  let ?mode = "rh_mode (spec_retry_handler (drv_spec d))"
  consider (ds) "?mode = RetryHandlerModeDaemonSet \<or> ?mode = ''''"
    | (side) "?mode = RetryHandlerModeSidecar"
    | (other) "?mode \<notin> {RetryHandlerModeDaemonSet, '''', RetryHandlerModeSidecar}"
    by auto
  then show ?thesis
  proof cases
    case ds
    then have "sync_daemonset K d (buildRetryHandlerDaemonSet ns d) w = (w', r)"
      using assms(1) by (auto simp: reconcileRetryHandler_def)
    from sync_daemonset [OF this wn] ds show ?thesis
      by (auto simp: handler_deployed_def elim: managed_in_mono)
  next
    case side
    obtain w1 q where s: "reconcileSidecarWebhook K ns d w = (w1, q)"
      by (cases "reconcileSidecarWebhook K ns d w")
    from reconcileSidecarWebhook [OF s wn] s side assms(1) show ?thesis
      by (auto simp: reconcileRetryHandler_def handler_deployed_def elim: managed_in_mono
          split: option.splits)
  next
    case other
    with assms show ?thesis
      by (auto simp: reconcileRetryHandler_def handler_deployed_def Let_def split: if_splits)
  qed
qed

lemma stage_retry_handler:
  assumes "stage_retry_handler K ns d w = (w', r)" and wn: "well_named (view w)"
  shows "managed_in {meta_key (ds_meta (buildRetryHandlerDaemonSet ns d))} {sidecar_webhook_name d}
      (view w) (view w') \<and> well_named (view w') \<and>
    (case r of
       Inl d' \<Rightarrow> same_object d d' \<and>
         failure_recorded d' conditionTypeRetryHandlerReady ''RetryHandlerFailed''
     | Inr d' \<Rightarrow> same_object d d' \<and> retry_deployed ns d (view w'))"
  using component_stage [OF assms(1) [unfolded stage_retry_handler_def] wn,
      where P = "handler_deployed ns d"
        and Ks = "{meta_key (ds_meta (buildRetryHandlerDaemonSet ns d))}"
        and Ms = "{sidecar_webhook_name d}"]
    reconcileRetryHandler [OF _ wn]
  by (simp add: retry_deployed_def split: sum.splits)

end

section \<open>All stages\<close>

text \<open>
  The order of the rollout, seen from outside: when a component's object has changed, every
  component before it is in place.
\<close>

definition ds_changed :: "DaemonSet \<Rightarrow> cluster \<Rightarrow> cluster \<Rightarrow> bool" where
  "ds_changed s c c' \<longleftrightarrow> cl_dss c' (meta_key (ds_meta s)) \<noteq> cl_dss c (meta_key (ds_meta s))"

definition handler_changed :: "string \<Rightarrow> CXIDriver \<Rightarrow> cluster \<Rightarrow> cluster \<Rightarrow> bool" where
  "handler_changed ns d c c' \<longleftrightarrow>
     ds_changed (buildRetryHandlerDaemonSet ns d) c c' \<or>
     cl_mwcs c' (sidecar_webhook_name d) \<noteq> cl_mwcs c (sidecar_webhook_name d)"

definition rollout_ordered :: "string \<Rightarrow> CXIDriver \<Rightarrow> cluster \<Rightarrow> cluster \<Rightarrow> bool" where
  "rollout_ordered ns d c c' \<longleftrightarrow>
     (ds_changed (buildDevicePluginDaemonSet ns d) c c' \<longrightarrow>
        has_ds c' (buildDriverAgentDaemonSet ns d)) \<and>
     (handler_changed ns d c c' \<longrightarrow>
        has_ds c' (buildDriverAgentDaemonSet ns d) \<and> plugin_deployed ns d c') \<and>
     (ds_changed (buildMetricsExporterDaemonSet ns d) c c' \<longrightarrow>
        has_ds c' (buildDriverAgentDaemonSet ns d) \<and> plugin_deployed ns d c' \<and>
        retry_deployed ns d c')"

text \<open>One of the components is marked failed.\<close>

definition some_failure :: "CXIDriver \<Rightarrow> bool" where
  "some_failure d \<longleftrightarrow>
     failure_recorded d conditionTypeDriverAgentReady ''DriverAgentFailed'' \<or>
     failure_recorded d conditionTypeDevicePluginReady ''DevicePluginFailed'' \<or>
     failure_recorded d conditionTypeRetryHandlerReady ''RetryHandlerFailed'' \<or>
     failure_recorded d conditionTypeMetricsExporterReady ''MetricsExporterFailed''"

lemma run_stages_Inl:
  "s d w = (w1, Inl d1) \<Longrightarrow> run_stages (s # ss) d w = (w1, Inl d1)"
  "s d w = (w1, Inr d1) \<Longrightarrow> run_stages (s # ss) d w = run_stages ss d1 w1"
  by simp_all

lemma managed_in_managed_step:
  "managed_in {meta_key (ds_meta (buildDriverAgentDaemonSet ns d))} {} c c' \<Longrightarrow>
     managed_step ns (drv_name d) c c'"
  "managed_in {meta_key (ds_meta (buildDevicePluginDaemonSet ns d))} {} c c' \<Longrightarrow>
     managed_step ns (drv_name d) c c'"
  "managed_in {meta_key (ds_meta (buildRetryHandlerDaemonSet ns d))} {sidecar_webhook_name d} c c' \<Longrightarrow>
     managed_step ns (drv_name d) c c'"
  "managed_in {meta_key (ds_meta (buildMetricsExporterDaemonSet ns d))} {} c c' \<Longrightarrow>
     managed_step ns (drv_name d) c c'"
  using key_in_managed [of ns d]
  by (auto elim!: managed_in_mono simp: sidecar_webhook_name_def simp del: builder_meta)


text \<open>What each stage leaves alone, in the form the composition needs.\<close>

lemma agent_kept:
  "managed_in {meta_key (ds_meta (buildDevicePluginDaemonSet ns d))} {} c c' \<Longrightarrow>
     has_ds c' (buildDriverAgentDaemonSet ns d) = has_ds c (buildDriverAgentDaemonSet ns d)"
  "managed_in {meta_key (ds_meta (buildRetryHandlerDaemonSet ns d))} Ms c c' \<Longrightarrow>
     has_ds c' (buildDriverAgentDaemonSet ns d) = has_ds c (buildDriverAgentDaemonSet ns d)"
  "managed_in {meta_key (ds_meta (buildMetricsExporterDaemonSet ns d))} {} c c' \<Longrightarrow>
     has_ds c' (buildDriverAgentDaemonSet ns d) = has_ds c (buildDriverAgentDaemonSet ns d)"
  by (erule has_ds_frame, simp)+

lemma plugin_kept:
  "managed_in {meta_key (ds_meta (buildRetryHandlerDaemonSet ns d))} Ms c c' \<Longrightarrow>
     plugin_deployed ns d c' = plugin_deployed ns d c"
  "managed_in {meta_key (ds_meta (buildMetricsExporterDaemonSet ns d))} {} c c' \<Longrightarrow>
     plugin_deployed ns d c' = plugin_deployed ns d c"
  unfolding plugin_deployed_def by (drule has_ds_frame [where s = "buildDevicePluginDaemonSet ns d"]; simp)+

lemma retry_kept:
  assumes "managed_in {meta_key (ds_meta (buildMetricsExporterDaemonSet ns d))} {} c c'"
  shows "retry_deployed ns d c' = retry_deployed ns d c"
  using has_ds_frame [OF assms, of "buildRetryHandlerDaemonSet ns d"]
    has_mwc_frame [OF assms, of "build_sidecar_webhook ns d"]
  by (simp add: retry_deployed_def handler_deployed_def)

lemma unchangedI:
  "managed_in Ks Ms c c' \<Longrightarrow> meta_key (ds_meta s) \<notin> Ks \<Longrightarrow> \<not> ds_changed s c c'"
  "managed_in Ks Ms c c' \<Longrightarrow> meta_key (ds_meta (buildRetryHandlerDaemonSet ns d)) \<notin> Ks \<Longrightarrow>
     sidecar_webhook_name d \<notin> Ms \<Longrightarrow> \<not> handler_changed ns d c c'"
  unfolding ds_changed_def handler_changed_def managed_in_def
  by (metis surj_pair)+

lemma unchanged_by:
  assumes "managed_in {meta_key (ds_meta s)} Ms c c'"
  shows "s = buildDriverAgentDaemonSet ns d \<Longrightarrow> Ms = {} \<Longrightarrow>
       \<not> ds_changed (buildDevicePluginDaemonSet ns d) c c' \<and> \<not> handler_changed ns d c c' \<and>
       \<not> ds_changed (buildMetricsExporterDaemonSet ns d) c c'"
    and "s = buildDevicePluginDaemonSet ns d \<Longrightarrow> Ms = {} \<Longrightarrow>
       \<not> handler_changed ns d c c' \<and> \<not> ds_changed (buildMetricsExporterDaemonSet ns d) c c'"
    and "s = buildRetryHandlerDaemonSet ns d \<Longrightarrow>
       \<not> ds_changed (buildDevicePluginDaemonSet ns d) c c' \<and>
       \<not> ds_changed (buildMetricsExporterDaemonSet ns d) c c'"
    and "s = buildMetricsExporterDaemonSet ns d \<Longrightarrow> Ms = {} \<Longrightarrow>
       \<not> ds_changed (buildDevicePluginDaemonSet ns d) c c' \<and> \<not> handler_changed ns d c c'"
  using unchangedI(1) [OF assms] unchangedI(2) [OF assms] by simp_all

lemma changed_trans:
  "\<not> ds_changed s a b \<Longrightarrow> \<not> ds_changed s b c \<Longrightarrow> \<not> ds_changed s a c"
  "\<not> handler_changed ns d a b \<Longrightarrow> \<not> handler_changed ns d b c \<Longrightarrow> \<not> handler_changed ns d a c"
  by (simp_all add: ds_changed_def handler_changed_def)

context k8s_api begin

text \<open>
  The four stages in order, composed one at a time: the tail of the list starts from the driver
  and the cluster the stage before it left.
\<close>

lemma last_stage:
  assumes "run_stages [stage_metrics_exporter K ns] d3 w3 = (w', r)" and "well_named (view w3)"
    and "same_object d d3" and "has_ds (view w3) (buildDriverAgentDaemonSet ns d)"
    and "plugin_deployed ns d (view w3)" and "retry_deployed ns d (view w3)"
  shows "managed_step ns (drv_name d) (view w3) (view w') \<and> well_named (view w') \<and>
    \<not> ds_changed (buildDevicePluginDaemonSet ns d) (view w3) (view w') \<and>
    \<not> handler_changed ns d (view w3) (view w') \<and>
    has_ds (view w') (buildDriverAgentDaemonSet ns d) \<and> plugin_deployed ns d (view w') \<and>
    retry_deployed ns d (view w') \<and>
    (case r of Inl d' \<Rightarrow> same_object d d' \<and> some_failure d'
     | Inr d' \<Rightarrow> same_object d d' \<and> exporter_deployed ns d (view w'))"
proof -
  obtain w4 r4 where x: "stage_metrics_exporter K ns d3 w3 = (w4, r4)"
    by (cases "stage_metrics_exporter K ns d3 w3")
  note so = same_object_builders [OF assms(3)] deployed_cong [OF assms(3)]
  note X = stage_metrics_exporter [OF x assms(2), unfolded so]
  note M = conjunct1 [OF X]
  have "w4 = w'" "r4 = r" using assms(1) x by (auto split: sum.splits)
  then show ?thesis
    using X assms(3-6) managed_in_managed_step(4) [OF M] agent_kept(3) [OF M] plugin_kept(2) [OF M]
      retry_kept [OF M] unchanged_by(4) [OF M refl refl] same_object_trans [OF assms(3)]
    by (auto simp: some_failure_def simp del: builder_meta split: sum.splits)
qed

lemma last_two_stages:
  assumes "run_stages [stage_retry_handler K ns, stage_metrics_exporter K ns] d2 w2 = (w', r)"
    and "well_named (view w2)" and "same_object d d2"
    and "has_ds (view w2) (buildDriverAgentDaemonSet ns d)" and "plugin_deployed ns d (view w2)"
  shows "managed_step ns (drv_name d) (view w2) (view w') \<and> well_named (view w') \<and>
    \<not> ds_changed (buildDevicePluginDaemonSet ns d) (view w2) (view w') \<and>
    has_ds (view w') (buildDriverAgentDaemonSet ns d) \<and> plugin_deployed ns d (view w') \<and>
    (ds_changed (buildMetricsExporterDaemonSet ns d) (view w2) (view w') \<longrightarrow>
       retry_deployed ns d (view w')) \<and>
    (case r of Inl d' \<Rightarrow> same_object d d' \<and> some_failure d'
     | Inr d' \<Rightarrow> same_object d d' \<and> retry_deployed ns d (view w') \<and>
         exporter_deployed ns d (view w'))"
proof -
  obtain w3 r3 where x: "stage_retry_handler K ns d2 w2 = (w3, r3)"
    by (cases "stage_retry_handler K ns d2 w2")
  note so = same_object_builders [OF assms(3)] deployed_cong [OF assms(3)]
  have sw: "sidecar_webhook_name d2 = sidecar_webhook_name d"
    by (simp add: sidecar_webhook_name_def so)
  note X = stage_retry_handler [OF x assms(2), unfolded so sw]
  note M = conjunct1 [OF X]
  note F = managed_in_managed_step(3) [OF M] agent_kept(2) [OF M] plugin_kept(1) [OF M]
    unchanged_by(3) [OF M refl]
  show ?thesis
  proof (cases r3)
    case (Inl d3)
    then have "w3 = w'" "r = Inl d3" using assms(1) x by auto
    then show ?thesis
      using X F assms(4,5) Inl same_object_trans [OF assms(3)]
      by (simp add: some_failure_def del: builder_meta)
  next
    case (Inr d3)
    have "run_stages [stage_metrics_exporter K ns] d3 w3 = (w', r)" using assms(1) x Inr by simp
    from last_stage [OF this, of d] X F assms(4,5) Inr same_object_trans [OF assms(3)]
    show ?thesis
      by (auto split: sum.splits simp del: builder_meta run_stages.simps
          dest: managed_in_trans changed_trans)
  qed
qed

lemma last_three_stages:
  assumes "run_stages [stage_device_plugin K ns, stage_retry_handler K ns, stage_metrics_exporter K ns]
      d1 w1 = (w', r)"
    and "well_named (view w1)" and "same_object d d1"
    and "has_ds (view w1) (buildDriverAgentDaemonSet ns d)"
  shows "managed_step ns (drv_name d) (view w1) (view w') \<and> well_named (view w') \<and>
    has_ds (view w') (buildDriverAgentDaemonSet ns d) \<and>
    (handler_changed ns d (view w1) (view w') \<longrightarrow> plugin_deployed ns d (view w')) \<and>
    (ds_changed (buildMetricsExporterDaemonSet ns d) (view w1) (view w') \<longrightarrow>
       plugin_deployed ns d (view w') \<and> retry_deployed ns d (view w')) \<and>
    (case r of Inl d' \<Rightarrow> same_object d d' \<and> some_failure d'
     | Inr d' \<Rightarrow> same_object d d' \<and> plugin_deployed ns d (view w') \<and>
         retry_deployed ns d (view w') \<and> exporter_deployed ns d (view w'))"
proof -
  obtain w2 r2 where x: "stage_device_plugin K ns d1 w1 = (w2, r2)"
    by (cases "stage_device_plugin K ns d1 w1")
  note so = same_object_builders [OF assms(3)] deployed_cong [OF assms(3)]
  note X = stage_device_plugin [OF x assms(2), unfolded so]
  note M = conjunct1 [OF X]
  note F = managed_in_managed_step(2) [OF M] agent_kept(1) [OF M] unchanged_by(2) [OF M refl refl]
  show ?thesis
  proof (cases r2)
    case (Inl d2)
    then have "w2 = w'" "r = Inl d2" using assms(1) x by auto
    then show ?thesis
      using X F assms(4) Inl same_object_trans [OF assms(3)]
      by (simp add: some_failure_def del: builder_meta)
  next
    case (Inr d2)
    have "run_stages [stage_retry_handler K ns, stage_metrics_exporter K ns] d2 w2 = (w', r)"
      using assms(1) x Inr by simp
    from last_two_stages [OF this, of d] X F assms(4) Inr same_object_trans [OF assms(3)]
    show ?thesis
      by (auto split: sum.splits simp del: builder_meta run_stages.simps
          dest: managed_in_trans changed_trans)
  qed
qed

lemma reconcile_components:
  assumes "reconcile_components K ns d w = (w', r)" and "well_named (view w)"
  shows "managed_step ns (drv_name d) (view w) (view w') \<and> well_named (view w') \<and>
    rollout_ordered ns d (view w) (view w') \<and>
    (case r of Inl d' \<Rightarrow> same_object d d' \<and> some_failure d'
     | Inr d' \<Rightarrow> same_object d d' \<and> deployed ns d (view w'))"
proof -
  obtain w1 r1 where x: "stage_driver_agent K ns d w = (w1, r1)"
    by (cases "stage_driver_agent K ns d w")
  note X = stage_driver_agent [OF x assms(2)]
  note M = conjunct1 [OF X]
  note F = managed_in_managed_step(1) [OF M] unchanged_by(1) [OF M refl refl]
  show ?thesis
  proof (cases r1)
    case (Inl d1)
    then have "w1 = w'" "r = Inl d1" using assms(1) x by (auto simp: reconcile_components_def)
    then show ?thesis
      using X F Inl by (simp add: some_failure_def rollout_ordered_def del: builder_meta)
  next
    case (Inr d1)
    have "run_stages [stage_device_plugin K ns, stage_retry_handler K ns,
        stage_metrics_exporter K ns] d1 w1 = (w', r)"
      using assms(1) x Inr by (simp add: reconcile_components_def)
    from last_three_stages [OF this, of d] X F Inr show ?thesis
      by (auto split: sum.splits simp del: builder_meta run_stages.simps
          simp: rollout_ordered_def deployed_def dest: managed_in_trans changed_trans)
  qed
qed

end

end
