(* ===== verification/ReconcilerHandlers.thy ===== *)
theory ReconcilerHandlers
  imports ReconcilerStages
begin

text \<open>
  The branches of \<open>Reconcile\<close>, and \<open>Reconcile\<close> itself: what one request may touch, what it leaves
  alone for a driver that is not the active one, and what each result means. All inside the
  locale of the API laws; \<open>ReconcilerProps\<close> states the outcome at the top level.
\<close>

section \<open>Footprints\<close>

text \<open>What a request for driver \<open>n\<close> may touch at all.\<close>

definition footprint :: "string \<Rightarrow> string \<Rightarrow> cluster \<Rightarrow> cluster \<Rightarrow> bool" where
  "footprint ns n c c' \<longleftrightarrow>
     (\<forall>m. m \<noteq> n \<longrightarrow> cl_drivers c' m = cl_drivers c m) \<and>
     (\<forall>k. k \<noteq> singleton_key ns \<longrightarrow> cl_cms c' k = cl_cms c k) \<and>
     (\<forall>k. k \<notin> managed_keys ns n \<longrightarrow> cl_dss c' k = cl_dss c k) \<and>
     (\<forall>k. cl_dss c k \<noteq> None \<longrightarrow> cl_dss c' k \<noteq> None) \<and>
     (\<forall>m. m \<noteq> n @ ''-sidecar-injector'' \<longrightarrow> cl_mwcs c' m = cl_mwcs c m)"

lemma footprint_refl [simp]: "footprint ns n c c"
  by (simp add: footprint_def)

lemma footprint_trans: "footprint ns n a b \<Longrightarrow> footprint ns n b c \<Longrightarrow> footprint ns n a c"
  by (simp add: footprint_def)

lemma footprintI:
  "cm_step ns c c' \<Longrightarrow> footprint ns n c c'"
  "status_step n c c' \<Longrightarrow> footprint ns n c c'"
  "status_written n st c c' \<Longrightarrow> footprint ns n c c'"
  "driver_step n c c' \<Longrightarrow> footprint ns n c c'"
  "managed_step ns n c c' \<Longrightarrow> footprint ns n c c'"
  "managed_in {} {n @ ''-sidecar-injector''} c c' \<Longrightarrow> footprint ns n c c'"
  by (simp_all add: footprint_def status_written_def step_defs)

text \<open>The objects that run on the nodes: DaemonSets and webhooks.\<close>

definition same_managed :: "cluster \<Rightarrow> cluster \<Rightarrow> bool" where
  "same_managed c c' \<longleftrightarrow> cl_dss c' = cl_dss c \<and> cl_mwcs c' = cl_mwcs c"

lemma same_managedI [simp]:
  "same_managed c c"
  "cm_step ns c c' \<Longrightarrow> same_managed c c'"
  "status_step n c c' \<Longrightarrow> same_managed c c'"
  "status_written n st c c' \<Longrightarrow> same_managed c c'"
  "driver_step n c c' \<Longrightarrow> same_managed c c'"
  by (simp_all add: same_managed_def status_written_def step_defs)

lemma same_managed_trans: "same_managed a b \<Longrightarrow> same_managed b c \<Longrightarrow> same_managed a c"
  by (simp add: same_managed_def)

lemma status_written_keeps_active:
  "status_written n st c c' \<Longrightarrow> active_of ns c' = active_of ns c"
  by (drule status_writtenD) (rule active_of_frame(1))

lemma deployed_frame:
  "same_managed c c' \<Longrightarrow> deployed ns d c' = deployed ns d c"
  "same_managed c c' \<Longrightarrow> rollout_ordered ns d a c' = rollout_ordered ns d a c"
  "same_managed c c' \<Longrightarrow> rollout_ordered ns d c' a = rollout_ordered ns d c a"
  by (simp_all add: deployed_defs has_ds_def has_mwc_def same_managed_def rollout_ordered_def
      ds_changed_def handler_changed_def)

lemma rollout_ordered_refl: "rollout_ordered ns d c c"
  by (simp add: rollout_ordered_def ds_changed_def handler_changed_def)

text \<open>Metadata and specification of a driver are as before.\<close>

definition driver_kept :: "string \<Rightarrow> cluster \<Rightarrow> cluster \<Rightarrow> bool" where
  "driver_kept n c c' \<longleftrightarrow>
     map_option (\<lambda>d. (drv_meta d, drv_spec d)) (cl_drivers c' n) =
     map_option (\<lambda>d. (drv_meta d, drv_spec d)) (cl_drivers c n)"

lemma driver_keptD:
  assumes "driver_kept n c c'" and "cl_drivers c n = Some d"
  obtains d' where "cl_drivers c' n = Some d'" and "same_object d d'"
  using assms by (auto simp: driver_kept_def same_object_def)

lemma driver_kept_status: "status_written n st c c' \<Longrightarrow> driver_kept n c c'"
  by (simp add: driver_kept_def status_written_def status_step_def)

text \<open>
  The stored status is \<open>computeStatus\<close> of this driver, with the counts of the driver agent's
  DaemonSet (or zeros, when it could not be read).
\<close>

definition status_reported :: "'b k8s_lib_scheme \<Rightarrow> string \<Rightarrow> CXIDriver \<Rightarrow> cluster \<Rightarrow> bool" where
  "status_reported K ns d c \<longleftrightarrow>
     (\<exists>x y ready updating failed. cl_drivers c (drv_name d) = Some x \<and> same_object d y \<and>
        (ready, updating, failed) \<in>
          {agent_counts (cl_dss c (ns, drv_name d @ ''-driver-agent'')), (0, 0, 0)} \<and>
        drv_status x = drv_status (computeStatus K y ready updating failed))"

lemma status_reportedI:
  "cl_drivers c (drv_name d) = Some x \<Longrightarrow> same_object d y \<Longrightarrow>
     (a, b, e) \<in> {agent_counts (cl_dss c (ns, drv_name d @ ''-driver-agent'')), (0, 0, 0)} \<Longrightarrow>
     drv_status x = drv_status (computeStatus K y a b e) \<Longrightarrow> status_reported K ns d c"
  unfolding status_reported_def by blast

context k8s_api begin

lemma finalizer_frame [simp]:
  "om_name (k_add_finalizer K m f) = om_name m" "om_name (k_remove_finalizer K m f) = om_name m"
  "om_deleting (k_add_finalizer K m f) = om_deleting m"
  "om_deleting (k_remove_finalizer K m f) = om_deleting m"
proof -
  obtain fs gs where "k_add_finalizer K m f = m\<lparr>om_finalizers := fs\<rparr>"
    and "k_remove_finalizer K m f = m\<lparr>om_finalizers := gs\<rparr>"
    using add_finalizer remove_finalizer by meson
  then show "om_name (k_add_finalizer K m f) = om_name m"
    "om_name (k_remove_finalizer K m f) = om_name m"
    "om_deleting (k_add_finalizer K m f) = om_deleting m"
    "om_deleting (k_remove_finalizer K m f) = om_deleting m" by simp_all
qed

lemma update_driver_effect:
  assumes "k_update_driver K d w = (w', r)" and "well_named (view w)"
  shows "driver_step (drv_name d) (view w) (view w')" and "well_named (view w')"
    and "r = None \<Longrightarrow> view w' = eff_update_driver d (view w)"
    and "view w' = view w \<or> view w' = eff_update_driver d (view w)"
  using writesD [OF update_driver assms(1)] well_named_eff(5) [of "view w" d] assms(2)
    eff_update_driver_step [of d "drv_name d" "view w"]
  by auto

text \<open>The three steps of a deletion, and what each leaves alone.\<close>

lemma deletion_step:
  "managed_in {} {n @ ''-sidecar-injector''} c c' \<Longrightarrow> footprint ns n c c' \<and> cl_dss c' = cl_dss c \<and>
     cl_drivers c' = cl_drivers c \<and> cl_cms c' = cl_cms c \<and> active_of ns c' = active_of ns c"
  "driver_step n c c' \<Longrightarrow> footprint ns n c c' \<and> cl_dss c' = cl_dss c \<and>
     cl_mwcs c' = cl_mwcs c \<and> cl_cms c' = cl_cms c \<and> active_of ns c' = active_of ns c"
  "cm_step ns c c' \<Longrightarrow> footprint ns n c c' \<and> cl_dss c' = cl_dss c \<and> cl_mwcs c' = cl_mwcs c \<and>
     cl_drivers c' = cl_drivers c"
  by (auto simp: step_defs active_of_def intro: footprintI)

lemma reconcile_deletion_cases:
  assumes "reconcile_deletion K ns d w = (w', r)"
  obtains (held) "cxiDriverFinalizer \<notin> set (om_finalizers (drv_meta d))" "w' = w" "r = Done"
    | (failed) e where "cxiDriverFinalizer \<in> set (om_finalizers (drv_meta d))"
      "cleanupResources K d w = (w', Some e)" "r = RequeueAfter 5"
    | (refused) w1 e where "cxiDriverFinalizer \<in> set (om_finalizers (drv_meta d))"
      "cleanupResources K d w = (w1, None)" "r = RequeueAfter 5"
      "k_update_driver K (d\<lparr>drv_meta := k_remove_finalizer K (drv_meta d) cxiDriverFinalizer\<rparr>) w1 =
         (w', Some e)"
    | (removed) w1 w2 where "cxiDriverFinalizer \<in> set (om_finalizers (drv_meta d))"
      "cleanupResources K d w = (w1, None)" "r = Done"
      "k_update_driver K (d\<lparr>drv_meta := k_remove_finalizer K (drv_meta d) cxiDriverFinalizer\<rparr>) w1 =
         (w2, None)" "w' = clear_if_active K ns (drv_name d) w2"
  using assms
  by (cases "cxiDriverFinalizer \<in> set (om_finalizers (drv_meta d))")
    (auto simp: reconcile_deletion_def contains_finalizer Let_def split: prod.splits option.splits)

lemma update_finalizer_effect:
  assumes "k_update_driver K (d\<lparr>drv_meta := k_remove_finalizer K (drv_meta d) f\<rparr>) w = (w', r)"
    and "well_named (view w)"
  shows "driver_step (drv_name d) (view w) (view w') \<and> well_named (view w')"
  using update_driver_effect(1,2) [OF assms] by simp

lemma reconcile_deletion_effect:
  assumes "reconcile_deletion K ns d w = (w', r)" and "well_named (view w)"
  shows "footprint ns (drv_name d) (view w) (view w') \<and> well_named (view w') \<and>
    cl_dss (view w') = cl_dss (view w) \<and> active_of ns (view w') \<in> {active_of ns (view w), ''''} \<and>
    (drv_name d \<noteq> '''' \<and> active_of ns (view w) \<noteq> drv_name d \<longrightarrow> cl_cms (view w') = cl_cms (view w)) \<and>
    r \<in> {Done, RequeueAfter 5} \<and>
    (cxiDriverFinalizer \<notin> set (om_finalizers (drv_meta d)) \<longrightarrow> view w' = view w \<and> r = Done) \<and>
    (cl_drivers (view w') \<noteq> cl_drivers (view w) \<and>
       rh_mode (spec_retry_handler (drv_spec d)) = RetryHandlerModeSidecar \<longrightarrow>
       cl_mwcs (view w') (sidecar_webhook_name d) = None) \<and>
    (rh_mode (spec_retry_handler (drv_spec d)) \<noteq> RetryHandlerModeSidecar \<longrightarrow>
       cl_mwcs (view w') = cl_mwcs (view w))"
proof -
  let ?n = "drv_name d"
  have side: "rh_mode (spec_retry_handler (drv_spec d)) \<noteq> RetryHandlerModeSidecar \<Longrightarrow> view w1 = view w"
    if "cleanupResources K d w = (w1, q)" for w1 q
    using that by (auto simp: cleanupResources_def)
  note C = cleanupResources [OF _ assms(2), of d, unfolded sidecar_webhook_name_def]
  from assms(1) show ?thesis
  proof (cases rule: reconcile_deletion_cases)
    case (failed e)
    then show ?thesis
      using C [OF failed(2)] side [OF failed(2)] deletion_step(1) [of ?n "view w" "view w'" ns] by auto
  next
    case (refused w1 e)
    note C1 = C [OF refused(2)] deletion_step(1) [of ?n "view w" "view w1" ns]
    note U = update_finalizer_effect [OF refused(4)] deletion_step(2) [of ?n "view w1" "view w'" ns]
    show ?thesis
      using C1 U side [OF refused(2)] refused(1,3) footprint_trans [of ns ?n "view w" "view w1" "view w'"]
      by (auto simp: sidecar_webhook_name_def)
  next
    case (removed w1 w2)
    note C1 = C [OF removed(2)] deletion_step(1) [of ?n "view w" "view w1" ns]
    note U = update_finalizer_effect [OF removed(4)] deletion_step(2) [of ?n "view w1" "view w2" ns]
    have wn: "well_named (view w2)" using C1 U by simp
    note L = clear_if_active_frame [OF wn, of ns ?n] deletion_step(3) [of ns "view w2" "view w'" ?n]
    show ?thesis
      using C1 U L side [OF removed(2)] removed(1,3,5) footprint_trans [of ns ?n "view w" "view w1" "view w2"]
        footprint_trans [of ns ?n "view w" "view w2" "view w'"]
      by (auto simp: sidecar_webhook_name_def)
  qed (use assms(2) in simp_all)
qed

lemma reconcile_deletion:
  assumes "reconcile_deletion K ns d w = (w', r)" and "well_named (view w)"
  shows "footprint ns (drv_name d) (view w) (view w')" and "well_named (view w')"
    and "cl_dss (view w') = cl_dss (view w)"
    and "active_of ns (view w') \<in> {active_of ns (view w), ''''}"
    and "drv_name d \<noteq> '''' \<Longrightarrow> active_of ns (view w) \<noteq> drv_name d \<Longrightarrow>
           cl_cms (view w') = cl_cms (view w)"
    and "r \<in> {Done, RequeueAfter 5}"
    and "cxiDriverFinalizer \<notin> set (om_finalizers (drv_meta d)) \<Longrightarrow> view w' = view w \<and> r = Done"
    and "cl_drivers (view w') \<noteq> cl_drivers (view w) \<Longrightarrow>
           rh_mode (spec_retry_handler (drv_spec d)) = RetryHandlerModeSidecar \<Longrightarrow>
           cl_mwcs (view w') (sidecar_webhook_name d) = None"
    and "rh_mode (spec_retry_handler (drv_spec d)) \<noteq> RetryHandlerModeSidecar \<Longrightarrow>
           cl_mwcs (view w') = cl_mwcs (view w)"
  using reconcile_deletion_effect [OF assms] by blast+

lemma reconcile_ignored:
  assumes "reconcile_ignored K ns d w = (w', r)" and "well_named (view w)"
  shows "\<exists>a \<in> {'''', active_of ns (view w)}.
      status_written (drv_name d)
        ((drv_status (ignored_status K d a))\<lparr>st_observed_generation := om_generation (drv_meta d)\<rparr>)
        (view w) (view w')"
    and "well_named (view w')" and "r \<in> {Done, RequeueAfter 5}"
proof -
  obtain w1 a where g: "active_or_empty K ns w = (w1, a)" by (cases "active_or_empty K ns w")
  note A = active_or_empty_frame [OF g]
  have u: "updateStatusWithRetry K (ignored_status K d a) w1 = (w', r)"
    using assms(1) g by (simp add: reconcile_ignored_def)
  have wn: "well_named (view w1)" using A assms(2) by simp
  have n: "drv_meta (ignored_status K d a) = drv_meta d" by (simp add: ignored_status_def)
  note U = updateStatusWithRetry [OF u wn, unfolded n]
  show "\<exists>a \<in> {'''', active_of ns (view w)}.
      status_written (drv_name d)
        ((drv_status (ignored_status K d a))\<lparr>st_observed_generation := om_generation (drv_meta d)\<rparr>)
        (view w) (view w')"
    using A U by (intro bexI [of _ a]) simp_all
  show "well_named (view w')" "r \<in> {Done, RequeueAfter 5}" using U by simp_all
qed

lemma reconcile_add_finalizer:
  assumes "reconcile_add_finalizer K d w = (w', r)" and "well_named (view w)"
  shows "driver_step (drv_name d) (view w) (view w')" and "well_named (view w')"
    and "r \<in> {Requeue, RequeueAfter 5}"
    and "r = Requeue \<Longrightarrow> cl_drivers (view w) (drv_name d) = Some x \<Longrightarrow>
      \<not> om_deleting (drv_meta d) \<Longrightarrow>
      \<exists>y. cl_drivers (view w') (drv_name d) = Some y \<and> drv_spec y = drv_spec d \<and>
        \<not> om_deleting (drv_meta y) \<and> cxiDriverFinalizer \<in> set (om_finalizers (drv_meta y))"
proof -
  let ?d = "d\<lparr>drv_meta := k_add_finalizer K (drv_meta d) cxiDriverFinalizer\<rparr>"
  obtain w1 q where u: "k_update_driver K ?d w = (w1, q)" by (cases "k_update_driver K ?d w")
  note U = update_driver_effect [OF u assms(2)]
  have r: "w1 = w'" "r = (case q of None \<Rightarrow> Requeue | Some e \<Rightarrow> RequeueAfter 5)"
    using assms(1) u by (auto simp: reconcile_add_finalizer_def split: option.splits)
  show "driver_step (drv_name d) (view w) (view w')" "well_named (view w')" using U r by simp_all
  show "r \<in> {Requeue, RequeueAfter 5}" using r by (auto split: option.splits)
  obtain fs where fs: "k_add_finalizer K (drv_meta d) cxiDriverFinalizer = (drv_meta d)\<lparr>om_finalizers := fs\<rparr>"
    "cxiDriverFinalizer \<in> set fs"
    using add_finalizer [of "drv_meta d" cxiDriverFinalizer] by auto
  show "\<exists>y. cl_drivers (view w') (drv_name d) = Some y \<and> drv_spec y = drv_spec d \<and>
        \<not> om_deleting (drv_meta y) \<and> cxiDriverFinalizer \<in> set (om_finalizers (drv_meta y))"
    if "r = Requeue" "cl_drivers (view w) (drv_name d) = Some x" "\<not> om_deleting (drv_meta d)"
    using U(3) r that fs by (auto simp: eff_update_driver_def split: option.splits)
qed

lemma active_components:
  assumes "reconcile_components K ns (set_condition K d c) w = (w', r)" and "well_named (view w)"
  shows "footprint ns (drv_name d) (view w) (view w')"
    and "cl_drivers (view w') = cl_drivers (view w)" and "cl_cms (view w') = cl_cms (view w)"
    and "well_named (view w')" and "rollout_ordered ns d (view w) (view w')"
    and "case r of Inl d' \<Rightarrow> same_object d d' \<and> some_failure d'
         | Inr d' \<Rightarrow> same_object d d' \<and> deployed ns d (view w')"
proof -
  have so: "same_object d (set_condition K d c)" by simp
  have ro: "rollout_ordered ns (set_condition K d c) = rollout_ordered ns d"
    using same_object_builders [OF so] deployed_cong [OF so]
    by (simp add: fun_eq_iff rollout_ordered_def handler_changed_def sidecar_webhook_name_def)
  note R = reconcile_components [OF assms, unfolded ro same_object_builders(6) [OF so]
      deployed_cong(5) [OF so]]
  show "footprint ns (drv_name d) (view w) (view w')"
    "cl_drivers (view w') = cl_drivers (view w)" "cl_cms (view w') = cl_cms (view w)"
    "well_named (view w')" "rollout_ordered ns d (view w) (view w')"
    using R by (auto simp: managed_in_def intro: footprintI)
  show "case r of Inl d' \<Rightarrow> same_object d d' \<and> some_failure d'
         | Inr d' \<Rightarrow> same_object d d' \<and> deployed ns d (view w')"
    using R same_object_trans [OF so] by (simp split: sum.splits)
qed

lemma active_then_status:
  assumes "footprint ns (drv_name d) (view w) (view w1)"
    and "cl_drivers (view w1) = cl_drivers (view w)"
    and "cl_cms (view w1) = cl_cms (view w)" and "rollout_ordered ns d (view w) (view w1)"
    and sw: "status_written (drv_name d) st (view w1) (view w')"
  shows "footprint ns (drv_name d) (view w) (view w')"
    and "rollout_ordered ns d (view w) (view w')" and "cl_cms (view w') = cl_cms (view w)"
    and "cl_dss (view w') = cl_dss (view w1)"
    and "deployed ns d (view w') = deployed ns d (view w1)"
    and "driver_kept (drv_name d) (view w) (view w')"
proof -
  note S = same_managedI(4) [OF sw]
  show "footprint ns (drv_name d) (view w) (view w')"
    by (rule footprint_trans [OF assms(1) footprintI(3) [OF sw]])
  show "rollout_ordered ns d (view w) (view w')" using assms(4) by (simp only: deployed_frame(2) [OF S])
  show "cl_cms (view w') = cl_cms (view w)"
    using assms(3) sw by (simp add: status_written_def status_step_def)
  show "cl_dss (view w') = cl_dss (view w1)" using S by (simp add: same_managed_def)
  show "deployed ns d (view w') = deployed ns d (view w1)" by (rule deployed_frame(1) [OF S])
  show "driver_kept (drv_name d) (view w) (view w')"
    using driver_kept_status [OF sw] assms(2) by (simp add: driver_kept_def)
qed

lemma failure_reported:
  assumes "updateStatusWithRetry K d w = (w', r)" and "well_named (view w)" and "some_failure d"
  shows "cl_drivers (view w') (drv_name d) = cl_drivers (view w) (drv_name d) \<or>
    (\<exists>x. cl_drivers (view w') (drv_name d) = Some x \<and> some_failure x)"
proof -
  have "some_failure x" if "drv_status x = (drv_status d)\<lparr>st_observed_generation := o'\<rparr>" for x o'
    using assms(3) that by (simp add: some_failure_def failure_recorded_def)
  then show ?thesis
    using updateStatusWithRetry [OF assms(1,2)] unfolding status_written_def by blast
qed

lemma success_reported:
  assumes "updateStatus K ns d1 w = (w', r)" and "well_named (view w)" and so: "same_object d d1"
  obtains st where "status_written (drv_name d) st (view w) (view w')" and "well_named (view w')"
    and "r = None \<Longrightarrow> status_reported K ns d (view w')"
proof -
  have n: "drv_name d1 = drv_name d" using so by (simp add: same_object_def)
  obtain a b c where cs: "(a, b, c) \<in>
      {agent_counts (cl_dss (view w) (ns, drv_name d @ ''-driver-agent'')), (0, 0, 0)}"
    and sw: "status_written (drv_name d) (drv_status (computeStatus K d1 a b c)) (view w) (view w')"
    and wn: "well_named (view w')"
    and ok: "r = None \<Longrightarrow> \<exists>x. cl_drivers (view w') (drv_name d) = Some x \<and>
       drv_status x = drv_status (computeStatus K d1 a b c)"
    using updateStatus [OF assms(1,2)] n by metis
  have "cl_dss (view w') = cl_dss (view w)"
    using same_managedI(4) [OF sw] by (simp add: same_managed_def)
  with ok cs have "status_reported K ns d (view w')" if "r = None"
    using that status_reportedI [OF _ so] by metis
  with sw wn show ?thesis by (rule that)
qed

lemma reconcile_active:
  assumes "reconcile_active K ns d w = (w', r)" and "well_named (view w)"
  shows "footprint ns (drv_name d) (view w) (view w') \<and> well_named (view w') \<and>
    rollout_ordered ns d (view w) (view w') \<and> cl_cms (view w') = cl_cms (view w) \<and>
    driver_kept (drv_name d) (view w) (view w') \<and> r \<in> {Done, RequeueAfter 5, RequeueAfter 30} \<and>
    (r \<noteq> RequeueAfter 30 \<longrightarrow> deployed ns d (view w')) \<and>
    (r = RequeueAfter 30 \<longrightarrow>
      cl_drivers (view w') (drv_name d) = cl_drivers (view w) (drv_name d) \<or>
      (\<exists>x. cl_drivers (view w') (drv_name d) = Some x \<and> some_failure x)) \<and>
    (r = Done \<longrightarrow> status_reported K ns d (view w'))"
proof -
  let ?d0 = "set_condition K d (mk_condition conditionTypeProgressing ConditionTrue ''Reconciling''
    ''Reconciling CXIDriver resources'')"
  obtain w1 q where g: "reconcile_components K ns ?d0 w = (w1, q)"
    by (cases "reconcile_components K ns ?d0 w")
  note C = active_components [OF g assms(2)]
  note A = active_then_status [OF C(1) C(2) C(3) C(5)]
  show ?thesis
  proof (cases q)
    case (Inl d1)
    obtain w2 r2 where u: "updateStatusWithRetry K d1 w1 = (w2, r2)"
      by (cases "updateStatusWithRetry K d1 w1")
    have w2: "w2 = w'" "r = RequeueAfter 30"
      using assms(1) g Inl u by (auto simp: reconcile_active_def Let_def)
    have d1: "drv_name d1 = drv_name d" "some_failure d1"
      using C(6) Inl by (simp_all add: same_object_def)
    note U = updateStatusWithRetry [OF u C(4), unfolded d1(1) w2(1)]
    from failure_reported [OF u C(4) d1(2)] A [OF conjunct1 [OF U]] U w2 d1(1) C(2)
    show ?thesis by simp
  next
    case (Inr d1)
    obtain w2 r2 where u: "updateStatus K ns d1 w1 = (w2, r2)" by (cases "updateStatus K ns d1 w1")
    have d1: "same_object d d1" "drv_name d1 = drv_name d" "deployed ns d (view w1)"
      using C(6) Inr by (simp_all add: same_object_def)
    have w2: "w2 = w'" "r = (case r2 of None \<Rightarrow> Done | Some e \<Rightarrow> RequeueAfter 5)"
      using assms(1) g Inr u by (auto simp: reconcile_active_def Let_def split: option.splits)
    obtain st where sw: "status_written (drv_name d) st (view w1) (view w')"
      and U: "well_named (view w')" "r2 = None \<Longrightarrow> status_reported K ns d (view w')"
      using success_reported [OF u C(4) d1(1)] unfolding w2(1) by blast
    note S = A [OF sw]
    have "deployed ns d (view w')" using d1(3) S(5) by simp
    then show ?thesis using S(1-3,6) U w2(2) by (cases r2) simp_all
  qed
qed

text \<open>The branches of \<open>Reconcile\<close>, with the world each starts from.\<close>

lemma Reconcile_cases:
  assumes "Reconcile K ns n w = (w', r)" and "well_named (view w)"
  obtains (gone) w1 where "cl_drivers (view w) n = None" "view w1 = view w"
      "w' = clear_if_active K ns n w1" "r = Done"
    | (unread) "view w' = view w" "r = RequeueAfter 5"
    | (deleting) d w1 where "cl_drivers (view w) n = Some d" "drv_name d = n"
      "om_deleting (drv_meta d)" "view w1 = view w" "reconcile_deletion K ns d w1 = (w', r)"
    | (undecided) d w1 e where "cl_drivers (view w) n = Some d" "drv_name d = n"
      "\<not> om_deleting (drv_meta d)" "view w1 = view w" "isActiveCXIDriver K ns n w1 = (w', Inl e)"
      "r = RequeueAfter 5"
    | (ignored) d w1 w2 where "cl_drivers (view w) n = Some d" "drv_name d = n"
      "\<not> om_deleting (drv_meta d)" "view w1 = view w" "isActiveCXIDriver K ns n w1 = (w2, Inr False)"
      "reconcile_ignored K ns d w2 = (w', r)"
    | (finalizer) d w1 w2 where "cl_drivers (view w) n = Some d" "drv_name d = n"
      "\<not> om_deleting (drv_meta d)" "view w1 = view w" "isActiveCXIDriver K ns n w1 = (w2, Inr True)"
      "cxiDriverFinalizer \<notin> set (om_finalizers (drv_meta d))"
      "reconcile_add_finalizer K d w2 = (w', r)"
    | (active) d w1 w2 where "cl_drivers (view w) n = Some d" "drv_name d = n"
      "\<not> om_deleting (drv_meta d)" "view w1 = view w" "isActiveCXIDriver K ns n w1 = (w2, Inr True)"
      "cxiDriverFinalizer \<in> set (om_finalizers (drv_meta d))"
      "reconcile_active K ns d w2 = (w', r)"
proof -
  obtain w1 q where g: "k_get_driver K n w = (w1, q)" by (cases "k_get_driver K n w")
  note R = readsD [OF get_driver g]
  show thesis
  proof (cases q)
    case (Inl e)
    then show thesis using assms(1) g R gone unread by (auto simp: Reconcile_def split: if_splits)
  next
    case (Inr d)
    then have d: "cl_drivers (view w) n = Some d" using R by simp
    have n: "drv_name d = n" using assms(2) d by (rule well_namedD(1))
    obtain w2 b where i: "isActiveCXIDriver K ns n w1 = (w2, b)"
      by (cases "isActiveCXIDriver K ns n w1")
    note step = assms(1) [unfolded Reconcile_def g Inr prod.case sum.case n i contains_finalizer]
    show thesis
    proof (cases "om_deleting (drv_meta d)")
      case True
      then show thesis using deleting d n R(1) step by simp
    next
      case False
      then show thesis
        using step d n R(1) i undecided ignored finalizer active
        by (auto split: sum.splits if_splits)
    qed
  qed
qed

end

end
