(* ===== verification/ReconcilerSafety.thy ===== *)
theory ReconcilerSafety
  imports ReconcilerHandlers
begin

text \<open>
  Safety of one request, from the branches of \<open>Reconcile\<close>: which objects may change and when, that
  the active driver keeps its place, what a result says about the cluster.
\<close>

context k8s_api begin

lemma active_branch:
  assumes "isActiveCXIDriver K ns n w1 = (w2, Inr True)" and "well_named (view w1)"
    and "reconcile_active K ns d w2 = (w', r)" and "drv_name d = n"
  shows "footprint ns n (view w1) (view w') \<and> well_named (view w') \<and>
    rollout_ordered ns d (view w1) (view w') \<and> active_of ns (view w') = n \<and>
    driver_kept n (view w1) (view w') \<and> r \<in> {Done, RequeueAfter 5, RequeueAfter 30} \<and>
    (r \<noteq> RequeueAfter 30 \<longrightarrow> deployed ns d (view w')) \<and>
    (r = RequeueAfter 30 \<longrightarrow> cl_drivers (view w') n = cl_drivers (view w1) n \<or>
      (\<exists>x. cl_drivers (view w') n = Some x \<and> some_failure x)) \<and>
    (r = Done \<longrightarrow> status_reported K ns d (view w'))"
proof -
  note I = isActive [OF assms(1,2)]
  note A = reconcile_active [OF assms(3) I(2), unfolded assms(4)]
  have "active_of ns (view w') = n" using I(3) A by (simp add: active_of_def)
  moreover have "rollout_ordered ns d (view w1) (view w')"
    using A by (simp only: deployed_frame(3) [OF same_managedI(2) [OF I(1)]])
  moreover have "footprint ns n (view w1) (view w')"
    using A by (intro footprint_trans [OF footprintI(1) [OF I(1)]]) simp
  moreover have "cl_drivers (view w2) = cl_drivers (view w1)" using I(1) by (simp add: step_defs)
  ultimately show ?thesis using A by (simp add: driver_kept_def)
qed

text \<open>One request, in a form that suffices for all safety properties.\<close>

lemma reconcile_safe:
  assumes "Reconcile K ns n w = (w', r)" and "well_named (view w)"
  shows "footprint ns n (view w) (view w') \<and> well_named (view w')"
  using assms
proof (cases rule: Reconcile_cases)
  case (gone w1)
  then show ?thesis using clear_if_active_frame [of w1 ns n] assms(2) by (auto intro: footprintI)
next
  case (deleting d w1)
  then show ?thesis using reconcile_deletion(1,2) [OF deleting(5)] assms(2) by simp
next
  case (undecided d w1 e)
  then show ?thesis using isActive(1,2) [OF undecided(5)] assms(2) by (auto intro: footprintI)
next
  case (ignored d w1 w2)
  note I = isActive [OF ignored(5)]
  have v: "view w2 = view w" using I(4) ignored(4) assms(2) by simp
  with reconcile_ignored [OF ignored(6)] ignored(2) assms(2) show ?thesis
    by (auto intro: footprintI(3))
next
  case (finalizer d w1 w2)
  note I = isActive [OF finalizer(5)]
  have wn: "well_named (view w2)" "footprint ns n (view w) (view w2)"
    using I(1,2) finalizer(4) assms(2) by (auto intro: footprintI)
  have "footprint ns n (view w2) (view w')" "well_named (view w')"
    using reconcile_add_finalizer(1,2) [OF finalizer(7) wn(1)] finalizer(2) by (auto intro: footprintI)
  with wn(2) show ?thesis by (auto intro: footprint_trans)
next
  case (active d w1 w2)
  then show ?thesis using active_branch [OF active(5) _ active(7) active(2)] assms(2) by simp
qed (use assms(2) in simp)

text \<open>A driver that is not being deleted stays, with its specification.\<close>

lemma add_finalizer_keeps:
  assumes "reconcile_add_finalizer K d w = (w', r)" and "cl_drivers (view w) (drv_name d) = Some d"
    and "\<not> om_deleting (drv_meta d)"
  shows "\<exists>d'. cl_drivers (view w') (drv_name d) = Some d' \<and> \<not> om_deleting (drv_meta d') \<and>
    drv_spec d' = drv_spec d"
proof -
  let ?d = "d\<lparr>drv_meta := k_add_finalizer K (drv_meta d) cxiDriverFinalizer\<rparr>"
  obtain w1 q where u: "k_update_driver K ?d w = (w1, q)" by (cases "k_update_driver K ?d w")
  have "w1 = w'" using assms(1) u by (auto simp: reconcile_add_finalizer_def split: option.splits)
  moreover have "view w1 = view w \<or> view w1 = eff_update_driver ?d (view w)"
    using writesD(1) [OF update_driver u] by auto
  ultimately show ?thesis using assms(2,3) by (auto simp: eff_update_driver_def)
qed

lemma reconcile_keeps_driver:
  assumes "Reconcile K ns n w = (w', r)" and wn: "well_named (view w)"
    and d: "cl_drivers (view w) n = Some d" and nd: "\<not> om_deleting (drv_meta d)"
  shows "\<exists>d'. cl_drivers (view w') n = Some d' \<and> \<not> om_deleting (drv_meta d') \<and>
    drv_spec d' = drv_spec d"
  using assms(1) wn
proof (cases rule: Reconcile_cases)
  case (undecided d w1 e)
  then show ?thesis using isActive(1) [OF undecided(5)] wn assms(3,4) by (simp add: step_defs)
next
  case (ignored d1 w1 w2)
  have v: "view w2 = view w" using isActive(4) [OF ignored(5)] ignored(4) wn by simp
  obtain st where "status_written n st (view w2) (view w')"
    using reconcile_ignored(1) [OF ignored(6)] ignored(2) v wn by auto
  from driver_kept_status [OF this] v d nd show ?thesis
    by (auto elim!: driver_keptD simp: same_object_def)
next
  case (finalizer d1 w1 w2)
  have "cl_drivers (view w2) = cl_drivers (view w)"
    using isActive(1) [OF finalizer(5)] finalizer(4) wn by (simp add: step_defs)
  with add_finalizer_keeps [OF finalizer(7)] finalizer(1-3) d show ?thesis by simp
next
  case (active d1 w1 w2)
  from active_branch [OF active(5) _ active(7) active(2)] active(1,4) wn d nd show ?thesis
    by (auto elim!: driver_keptD simp: same_object_def)
qed (use d nd in auto)

text \<open>Which branch changes DaemonSets and webhooks.\<close>

lemma reconcile_managed:
  assumes "Reconcile K ns n w = (w', r)" and wn: "well_named (view w)"
  shows "same_managed (view w) (view w') \<or>
    (\<exists>d. cl_drivers (view w) n = Some d \<and> \<not> om_deleting (drv_meta d) \<and>
       cxiDriverFinalizer \<in> set (om_finalizers (drv_meta d)) \<and> active_of ns (view w') = n) \<or>
    (\<exists>d. cl_drivers (view w) n = Some d \<and> om_deleting (drv_meta d) \<and>
       cxiDriverFinalizer \<in> set (om_finalizers (drv_meta d)) \<and>
       rh_mode (spec_retry_handler (drv_spec d)) = RetryHandlerModeSidecar \<and>
       cl_dss (view w') = cl_dss (view w))"
  using assms
proof (cases rule: Reconcile_cases)
  case (gone w1)
  then show ?thesis using clear_if_active_frame [of w1 ns n] wn by (metis same_managedI(2))
next
  case (deleting d w1)
  have "cl_dss (view w') = cl_dss (view w)"
    using reconcile_deletion(3) [OF deleting(5)] deleting(4) wn by simp
  moreover have "same_managed (view w) (view w')"
    if "cxiDriverFinalizer \<notin> set (om_finalizers (drv_meta d))"
    using reconcile_deletion(7) [OF deleting(5)] deleting(4) wn that by simp
  moreover have "same_managed (view w) (view w')"
    if "rh_mode (spec_retry_handler (drv_spec d)) \<noteq> RetryHandlerModeSidecar"
    using reconcile_deletion(9) [OF deleting(5)] calculation(1) deleting(4) wn that
    by (simp add: same_managed_def)
  ultimately show ?thesis using deleting(1,3) by blast
next
  case (undecided d w1 e)
  then show ?thesis using isActive(1) [OF undecided(5)] wn by (metis same_managedI(2))
next
  case (ignored d w1 w2)
  have v: "view w2 = view w" using isActive(4) [OF ignored(5)] ignored(4) wn by simp
  then show ?thesis using reconcile_ignored(1) [OF ignored(6)] wn by (auto dest: same_managedI(4))
next
  case (finalizer d w1 w2)
  note I = isActive(1,2) [OF finalizer(5)]
  have "well_named (view w2)" "same_managed (view w) (view w2)" using I finalizer(4) wn by auto
  with reconcile_add_finalizer(1) [OF finalizer(7)] show ?thesis
    by (auto dest: same_managedI(5) intro: same_managed_trans)
next
  case (active d w1 w2)
  from active_branch [OF active(5) _ active(7) active(2)] active show ?thesis using wn by simp
qed simp

text \<open>The active driver, while it exists and is not being deleted, stays the active one.\<close>

lemma reconcile_keeps_active:
  assumes "Reconcile K ns n w = (w', r)" and wn: "well_named (view w)" and n: "n \<noteq> ''''"
    and m: "m \<noteq> ''''" "active_of ns (view w) = m" "cl_drivers (view w) m = Some dm"
      "\<not> om_deleting (drv_meta dm)"
  shows "active_of ns (view w') = m"
  using assms(1) wn
proof (cases rule: Reconcile_cases)
  case (gone w1)
  then have "n \<noteq> m" using m by auto
  with clear_if_active_frame [of w1 ns n] gone wn n m show ?thesis by simp
next
  case (deleting d w1)
  then have "n \<noteq> m" using m by auto
  with reconcile_deletion(5) [OF deleting(5)] deleting(2,4) wn n m show ?thesis
    by (simp add: active_of_def)
next
  case (undecided d w1 e)
  then show ?thesis using isActive(5,6) [OF undecided(5)] wn n m by (cases "n = m") auto
next
  case (ignored d w1 w2)
  have v: "view w2 = view w" using isActive(4) [OF ignored(5)] ignored(4) wn by simp
  then show ?thesis
    using reconcile_ignored(1) [OF ignored(6)] wn m by (auto dest: status_written_keeps_active)
next
  case (finalizer d w1 w2)
  note I = isActive(5,6) [OF finalizer(5)] isActive(2) [OF finalizer(5)]
  have "n = m" using I(1) finalizer(4) wn m n by auto
  with I finalizer(4) wn m n have "view w2 = view w" by simp
  with reconcile_add_finalizer(1) [OF finalizer(7)] wn m show ?thesis
    by (auto dest: active_of_frame(2))
next
  case (active d w1 w2)
  note I = isActive(5,6) [OF active(5)]
  have "n = m" using I(1) active(4) wn m n by auto
  then show ?thesis using active_branch [OF active(5) _ active(7) active(2)] active(4) wn by simp
qed (use m in simp)

lemma reconcile_other_frozen:
  assumes "Reconcile K ns n w = (w', r)" and wn: "well_named (view w)" and n: "n \<noteq> ''''"
    and m: "m \<noteq> ''''" "active_of ns (view w) = m" "cl_drivers (view w) m = Some dm"
      "\<not> om_deleting (drv_meta dm)"
    and "n \<noteq> m"
  shows "cl_dss (view w') = cl_dss (view w)"
  using reconcile_managed [OF assms(1) wn] reconcile_keeps_active [OF assms(1-7)] assms(8)
  by (auto simp: same_managed_def)

text \<open>What a successful request for the active driver has achieved.\<close>

lemma reconcile_done:
  assumes "Reconcile K ns n w = (w', Done)" and wn: "well_named (view w)"
    and "cl_drivers (view w) n = Some d" and "\<not> om_deleting (drv_meta d)"
    and "active_of ns (view w') = n"
  shows "deployed ns d (view w') \<and> status_reported K ns d (view w')"
  using assms(1) wn
proof (cases rule: Reconcile_cases)
  case (ignored d1 w1 w2)
  have v: "view w2 = view w" "active_of ns (view w) \<noteq> n"
    using isActive(4) [OF ignored(5)] ignored(4) wn by simp_all
  then obtain st where "status_written (drv_name d1) st (view w) (view w')"
    using reconcile_ignored(1) [OF ignored(6)] wn by auto
  from status_written_keeps_active [OF this, of ns] v(2) assms(5) show ?thesis by simp
next
  case (finalizer d1 w1 w2)
  note I = isActive(1,2) [OF finalizer(5)]
  have "well_named (view w2)" using I finalizer(4) wn by simp
  then show ?thesis using reconcile_add_finalizer(3) [OF finalizer(7)] by simp
next
  case (active d1 w1 w2)
  from active_branch [OF active(5) _ active(7) active(2)] active(1,4) wn assms(3) show ?thesis by simp
qed (use assms in auto)

lemma reconcile_rollout:
  assumes "Reconcile K ns n w = (w', r)" and wn: "well_named (view w)"
    and "cl_drivers (view w) n = Some d" and "\<not> om_deleting (drv_meta d)"
  shows "rollout_ordered ns d (view w) (view w')"
proof (cases "same_managed (view w) (view w')")
  case True
  then show ?thesis using deployed_frame(2) [OF True] rollout_ordered_refl by simp
next
  case False
  from assms(1) wn show ?thesis
  proof (cases rule: Reconcile_cases)
    case (active d1 w1 w2)
    from active_branch [OF active(5) _ active(7) active(2)] active(1,4) wn assms(3)
    show ?thesis by simp
  next
    case (finalizer d1 w1 w2)
    note I = isActive(1,2) [OF finalizer(5)]
    have "well_named (view w2)" "same_managed (view w) (view w2)" using I finalizer(4) wn by auto
    with reconcile_add_finalizer(1) [OF finalizer(7)] False show ?thesis
      by (auto dest: same_managedI(5) intro: same_managed_trans)
  next
    case (ignored d1 w1 w2)
    then show ?thesis
      using isActive(4) [OF ignored(5)] reconcile_ignored(1) [OF ignored(6)] wn False
      by (auto dest: same_managedI(4))
  next
    case (undecided d1 w1 e)
    then show ?thesis using isActive(1) [OF undecided(5)] wn False by (metis same_managedI(2))
  qed (use assms False in auto)
qed

lemma reconcile_failure:
  assumes "Reconcile K ns n w = (w', RequeueAfter 30)" and wn: "well_named (view w)"
  shows "\<exists>d. cl_drivers (view w) n = Some d \<and> \<not> om_deleting (drv_meta d) \<and>
    (cl_drivers (view w') n = cl_drivers (view w) n \<or>
     (\<exists>x. cl_drivers (view w') n = Some x \<and> some_failure x))"
  using assms
proof (cases rule: Reconcile_cases)
  case (deleting d w1)
  then show ?thesis using reconcile_deletion(6) [OF deleting(5)] wn by simp
next
  case (ignored d w1 w2)
  have "well_named (view w2)" using isActive(2) [OF ignored(5)] ignored(4) wn by simp
  then show ?thesis using reconcile_ignored(3) [OF ignored(6)] by simp
next
  case (finalizer d w1 w2)
  have "well_named (view w2)" using isActive(2) [OF finalizer(5)] finalizer(4) wn by simp
  then show ?thesis using reconcile_add_finalizer(3) [OF finalizer(7)] by simp
next
  case (active d w1 w2)
  from active_branch [OF active(5) _ active(7) active(2)] active(1,3,4) wn show ?thesis by simp
qed simp_all

text \<open>A request for a driver that is being deleted.\<close>

lemma reconcile_deleting:
  assumes "Reconcile K ns n w = (w', r)" and wn: "well_named (view w)"
    and d: "cl_drivers (view w) n = Some d" "om_deleting (drv_meta d)"
  shows "cl_dss (view w') = cl_dss (view w) \<and>
    (rh_mode (spec_retry_handler (drv_spec d)) = RetryHandlerModeSidecar \<and>
       cl_drivers (view w') \<noteq> cl_drivers (view w) \<longrightarrow>
       cl_mwcs (view w') (sidecar_webhook_name d) = None) \<and>
    (rh_mode (spec_retry_handler (drv_spec d)) \<noteq> RetryHandlerModeSidecar \<longrightarrow>
       cl_mwcs (view w') = cl_mwcs (view w))"
  using assms(1) wn
proof (cases rule: Reconcile_cases)
  case (deleting d1 w1)
  then have "d1 = d" using d by simp
  with reconcile_deletion(3,8,9) [OF deleting(5)] deleting(4) wn show ?thesis by simp
qed (use d in auto)

end

end
