(* ===== verification/ReconcilerLive.thy ===== *)
theory ReconcilerLive
  imports ReconcilerSafety
begin

text \<open>
  Liveness of the reconciler, inside the locale of a server that answers: every operation of the
  active driver's pass succeeds, so one request adds the finalizer and the next deploys.
\<close>

text \<open>The retry handler modes \<open>reconcileRetryHandler\<close> knows.\<close>

definition known_mode :: "CXIDriver \<Rightarrow> bool" where
  "known_mode d \<longleftrightarrow>
     rh_enabled (spec_retry_handler (drv_spec d)) \<longrightarrow>
     rh_mode (spec_retry_handler (drv_spec d)) \<in>
       {'''', RetryHandlerModeDaemonSet, RetryHandlerModeSidecar, RetryHandlerModeKernel,
        RetryHandlerModeNone}"

text \<open>The driver can take, or has, the singleton.\<close>

definition claimable :: "string \<Rightarrow> string \<Rightarrow> cluster \<Rightarrow> bool" where
  "claimable ns n c \<longleftrightarrow>
     active_of ns c \<in> {'''', n} \<or> cl_drivers c (active_of ns c) = None"

lemma answersD:
  assumes "answers ok view look g" and "reads view look g" and "ok w"
  obtains (found) x w1 where "g w = (w1, Inr x)" "look (view w) = Some x" "ok w1" "view w1 = view w"
    | (missing) e w1 where "g w = (w1, Inl e)" "IsNotFound e" "look (view w) = None" "ok w1"
      "view w1 = view w"
proof -
  obtain w1 r where g: "g w = (w1, r)" by (cases "g w")
  have v: "view w1 = view w" by (rule readsD(1) [OF assms(2) g])
  have ok1: "ok w1" using assms(1,3) g unfolding answers_def by (metis fst_conv)
  show thesis
  proof (cases "look (view w)")
    case (Some x)
    then have "r = Inr x" using assms(1,3) g unfolding answers_def by fastforce
    then show thesis using found g Some v ok1 by blast
  next
    case None
    then obtain e where "r = Inl e" "IsNotFound e"
      using assms(1,3) g unfolding answers_def by fastforce
    then show thesis using missing g None v ok1 by blast
  qed
qed

lemma acceptsD:
  assumes "accepts ok view pre g" and "writes view pre eff g" and "ok w" and "pre (view w)"
  shows "\<exists>w1. g w = (w1, None) \<and> ok w1 \<and> view w1 = eff (view w)"
proof -
  obtain w1 r where g: "g w = (w1, r)" by (cases "g w")
  have "r = None" "ok w1" using assms(1,3,4) g unfolding accepts_def by (metis fst_conv snd_conv)+
  then show ?thesis using g writesD(2) [OF assms(2) g] by simp
qed

context k8s_reliable begin

lemmas live_driver = answersD [OF ans_get_driver get_driver, consumes 1, case_names found missing]
lemmas live_cm = answersD [OF ans_get_cm get_cm, consumes 1, case_names found missing]
lemmas live_ds = answersD [OF ans_get_ds get_ds, consumes 1, case_names found missing]
lemmas live_mwc = answersD [OF ans_get_mwc get_mwc, consumes 1, case_names found missing]
lemmas live_update_driver = acceptsD [OF acc_update_driver update_driver]
lemmas live_update_status = acceptsD [OF acc_update_driver_status update_driver_status]
lemmas live_create_cm = acceptsD [OF acc_create_cm create_cm]
lemmas live_update_cm = acceptsD [OF acc_update_cm update_cm]
lemmas live_create_ds = acceptsD [OF acc_create_ds create_ds]
lemmas live_update_ds = acceptsD [OF acc_update_ds update_ds]
lemmas live_create_mwc = acceptsD [OF acc_create_mwc create_mwc]
lemmas live_update_mwc = acceptsD [OF acc_update_mwc update_mwc]
lemmas live_delete_mwc = acceptsD [OF acc_delete_mwc delete_mwc]

lemma getActive_live:
  assumes "ok w"
  obtains w1 where "getActiveCXIDriver K ns w = (w1, Inr (active_of ns (view w)))"
    "ok w1" "view w1 = view w"
  using assms
proof (cases rule: live_cm [of w "singleton_key ns", case_names found missing])
  case (found x w1)
  then show ?thesis using that by (simp add: getActiveCXIDriver_def active_of_def)
next
  case (missing e w1)
  then show ?thesis using that by (simp add: getActiveCXIDriver_def active_of_def)
qed

lemma setActive_live:
  assumes "ok w" and "well_named (view w)"
  shows "\<exists>w1. setActiveCXIDriver K ns n w = (w1, None) \<and> ok w1"
  using assms(1)
proof (cases rule: live_cm [of w "singleton_key ns", case_names found missing])
  case (found m w1)
  have key: "meta_key (cm_meta m) = singleton_key ns" by (rule well_namedD(2) [OF assms(2) found(2)])
  have "\<exists>w2. k_update_cm K (m\<lparr>cm_data := x\<rparr>) w1 = (w2, None) \<and> ok w2" for x
    using live_update_cm [of w1 "m\<lparr>cm_data := x\<rparr>"] found key by auto
  then obtain w2 where "k_update_cm K (if n = '''' then m\<lparr>cm_data := (cm_data m)(singletonActiveKey := None)\<rparr>
      else m\<lparr>cm_data := (cm_data m)(singletonActiveKey \<mapsto> n)\<rparr>) w1 = (w2, None)" "ok w2"
    by (cases "n = ''''") (simp_all, metis+)
  then show ?thesis using found(1) by (simp add: setActiveCXIDriver_def Let_def)
next
  case (missing e w1)
  have "meta_key (cm_meta (new_singleton ns n)) = singleton_key ns"
    by (simp add: new_singleton_def meta_key_def singleton_key_def)
  then have "\<exists>w2. k_create_cm K (new_singleton ns n) w1 = (w2, None) \<and> ok w2"
    using live_create_cm [of w1 "new_singleton ns n"] missing by auto
  then show ?thesis using missing by (fastforce simp: setActiveCXIDriver_def)
qed

lemma isActive_live:
  assumes "ok w" and "well_named (view w)" and "claimable ns n (view w)"
  shows "\<exists>w1. isActiveCXIDriver K ns n w = (w1, Inr True) \<and> ok w1"
proof -
  obtain w1 where g: "getActiveCXIDriver K ns w = (w1, Inr (active_of ns (view w)))"
    "ok w1" "view w1 = view w" using getActive_live [OF assms(1)] by blast
  have wn: "well_named (view w1)" using assms(2) g(3) by simp
  let ?a = "active_of ns (view w)"
  consider "?a = ''''" | "?a \<noteq> ''''" "?a = n" | (missing) "?a \<notin> {'''', n}" "cl_drivers (view w) ?a = None"
    using assms(3) by (auto simp: claimable_def)
  then show ?thesis
  proof cases
    case missing
    note other = missing
    show ?thesis
      using g(2)
    proof (cases rule: live_driver [of w1 ?a, case_names found missing])
      case (found x w2)
      then show ?thesis using other g(3) by simp
    next
      case (missing e w2)
      then have "well_named (view w2)" using wn by simp
      from setActive_live [OF missing(4) this, of ns n] other missing(1,2) g(1) show ?thesis
        by (auto simp: isActiveCXIDriver_def)
    qed
  qed (use setActive_live [OF g(2) wn, of ns n] g in \<open>fastforce simp: isActiveCXIDriver_def\<close>)+
qed

lemma sync_daemonset_live:
  assumes "ok w" and "well_named (view w)" and "om_controller (ds_meta s) = None"
  shows "\<exists>w1. sync_daemonset K d s w = (w1, None) \<and> ok w1"
proof -
  obtain m where m: "k_set_controller_reference K d (ds_meta s) = Inr m"
    using ref_ok [OF assms(3), of d] by (auto simp: is_ok_def split: sum.splits)
  note note_m = set_controller_reference [OF m]
  show ?thesis
    using assms(1)
  proof (cases rule: live_ds [of w "meta_key m", case_names found missing])
    case (found x w1)
    have key: "meta_key (ds_meta x) = meta_key m" by (rule well_namedD(3) [OF assms(2) found(2)])
    have "\<exists>w2. k_update_ds K (x\<lparr>ds_spec := ds_spec s\<rparr>) w1 = (w2, None) \<and> ok w2"
      using live_update_ds [of w1 "x\<lparr>ds_spec := ds_spec s\<rparr>"] found key by auto
    then show ?thesis using found(1) m by (fastforce simp: sync_daemonset_def Let_def)
  next
    case (missing e w1)
    have "\<exists>w2. k_create_ds K (s\<lparr>ds_meta := m\<rparr>) w1 = (w2, None) \<and> ok w2"
      using live_create_ds [of w1 "s\<lparr>ds_meta := m\<rparr>"] missing by auto
    then show ?thesis using missing m by (fastforce simp: sync_daemonset_def Let_def)
  qed
qed

lemma reconcileSidecarWebhook_live:
  assumes "ok w" and "well_named (view w)"
  shows "\<exists>w1. reconcileSidecarWebhook K ns d w = (w1, None) \<and> ok w1"
  using assms(1)
proof (cases rule: live_mwc [of w "sidecar_webhook_name d", case_names found missing])
  case (found x w1)
  have key: "om_name (mwc_meta x) = sidecar_webhook_name d" by (rule well_namedD(4) [OF assms(2) found(2)])
  let ?x = "x\<lparr>mwc_webhooks := mwc_webhooks (build_sidecar_webhook ns d)\<rparr>"
  have "\<exists>w2. k_update_mwc K ?x w1 = (w2, None) \<and> ok w2"
    using live_update_mwc [of w1 ?x] found key by auto
  then show ?thesis using found(1) by (auto simp: reconcileSidecarWebhook_def Let_def)
next
  case (missing e w1)
  have "om_name (mwc_meta (build_sidecar_webhook ns d)) = sidecar_webhook_name d"
    by (simp add: build_sidecar_webhook_def)
  then have "\<exists>w2. k_create_mwc K (build_sidecar_webhook ns d) w1 = (w2, None) \<and> ok w2"
    using live_create_mwc [of w1 "build_sidecar_webhook ns d"] missing by auto
  then show ?thesis using missing(1,2) by (auto simp: reconcileSidecarWebhook_def Let_def)
qed

lemma reconcileRetryHandler_live:
  assumes "ok w" and "well_named (view w)" and "rh_enabled (spec_retry_handler (drv_spec d))"
    and "known_mode d"
  shows "\<exists>w1. reconcileRetryHandler K ns d w = (w1, None) \<and> ok w1"
  using sync_daemonset_live [OF assms(1,2), of "buildRetryHandlerDaemonSet ns d" d]
    reconcileSidecarWebhook_live [OF assms(1,2), of ns d] assms
  by (auto simp: reconcileRetryHandler_def known_mode_def Let_def)

lemma component_stage_live:
  assumes "ok w" and "enabled \<Longrightarrow> \<exists>w1. sync d w = (w1, None) \<and> ok w1"
  shows "\<exists>w1 d1. component_stage K ctype reason msg enabled sync d w = (w1, Inr d1) \<and> ok w1"
  using assms by (auto simp: component_stage_def)

lemma stages_live:
  assumes "ok w" and "well_named (view w)"
  shows "\<exists>w1 d1. stage_driver_agent K ns d w = (w1, Inr d1) \<and> ok w1"
    and "\<exists>w1 d1. stage_device_plugin K ns d w = (w1, Inr d1) \<and> ok w1"
    and "known_mode d \<Longrightarrow> \<exists>w1 d1. stage_retry_handler K ns d w = (w1, Inr d1) \<and> ok w1"
    and "\<exists>w1 d1. stage_metrics_exporter K ns d w = (w1, Inr d1) \<and> ok w1"
  unfolding stage_driver_agent_def stage_device_plugin_def stage_retry_handler_def
    stage_metrics_exporter_def reconcileDriverAgent_def reconcileDevicePlugin_def
    reconcileMetricsExporter_def
  by (rule component_stage_live [OF assms(1)];
      simp add: sync_daemonset_live [OF assms] reconcileRetryHandler_live [OF assms]
        reconcileDriverAgent_def reconcileDevicePlugin_def reconcileMetricsExporter_def)+

lemma run_stages_live:
  assumes "ok w" and "well_named (view w)" and "known_mode d"
    and "\<And>s d w. s \<in> set ss \<Longrightarrow> ok w \<Longrightarrow> well_named (view w) \<Longrightarrow> known_mode d \<Longrightarrow>
      \<exists>w1 d1. s d w = (w1, Inr d1) \<and> ok w1 \<and> well_named (view w1) \<and> known_mode d1"
  shows "\<exists>w1 d1. run_stages ss d w = (w1, Inr d1) \<and> ok w1"
  using assms
proof (induction ss arbitrary: d w)
  case (Cons s ss)
  obtain w1 d1 where s: "s d w = (w1, Inr d1)" "ok w1" "well_named (view w1)" "known_mode d1"
    using Cons.prems(4) [of s w d] Cons.prems(1-3) by auto
  have "\<exists>w2 d2. run_stages ss d1 w1 = (w2, Inr d2) \<and> ok w2"
    by (rule Cons.IH [OF s(2-4)]) (use Cons.prems(4) in auto)
  then show ?case using s(1) by simp
qed simp

lemma reconcile_components_live:
  assumes "ok w" and "well_named (view w)" and "known_mode d"
  shows "\<exists>w1 d1. reconcile_components K ns d w = (w1, Inr d1) \<and> ok w1"
  unfolding reconcile_components_def
proof (rule run_stages_live [OF assms], goal_cases)
  case (1 s d w)
  have km: "same_object d d1 \<Longrightarrow> known_mode d1" for d1
    using 1(4) by (simp add: same_object_def known_mode_def)
  from 1(1) consider "s = stage_driver_agent K ns" | "s = stage_device_plugin K ns"
    | "s = stage_retry_handler K ns" | "s = stage_metrics_exporter K ns" by auto
  then show ?case
  proof cases
    case 1
    from stages_live(1) [OF \<open>ok w\<close> \<open>well_named (view w)\<close>, of ns d] show ?thesis
      using stage_driver_agent [of ns d w] \<open>well_named (view w)\<close> km unfolding 1 by fastforce
  next
    case 2
    from stages_live(2) [OF \<open>ok w\<close> \<open>well_named (view w)\<close>, of ns d] show ?thesis
      using stage_device_plugin [of ns d w] \<open>well_named (view w)\<close> km unfolding 2 by fastforce
  next
    case 3
    from stages_live(3) [OF \<open>ok w\<close> \<open>well_named (view w)\<close> \<open>known_mode d\<close>, of ns] show ?thesis
      using stage_retry_handler [of ns d w] \<open>well_named (view w)\<close> km unfolding 3 by fastforce
  next
    case 4
    from stages_live(4) [OF \<open>ok w\<close> \<open>well_named (view w)\<close>, of ns d] show ?thesis
      using stage_metrics_exporter [of ns d w] \<open>well_named (view w)\<close> km unfolding 4 by fastforce
  qed
qed

lemma updateStatus_live:
  assumes "ok w" and "well_named (view w)" and "cl_drivers (view w) (drv_name d) \<noteq> None"
  shows "\<exists>w1. updateStatusRetryOnConflict K d w = (w1, None) \<and> ok w1"
  using assms(1)
proof (cases rule: live_driver [of w "drv_name d", case_names found missing])
  case (found x w1)
  have xn: "drv_name x = drv_name d" by (rule well_namedD(1) [OF assms(2) found(2)])
  let ?x = "x\<lparr>drv_status := drv_status d\<rparr>"
  have "\<exists>w2. k_update_driver_status K ?x w1 = (w2, None) \<and> ok w2"
    using live_update_status [of w1 ?x] found xn assms(3) by auto
  moreover obtain n where "k_retry_on_conflict K = retry_steps n" using retry_on_conflict by blast
  ultimately show ?thesis
    using found(1) by (cases n) (auto simp: updateStatusRetryOnConflict_def)
qed (use assms(3) in simp)

lemma reconcile_active_live:
  assumes "ok w" and "well_named (view w)" and "known_mode d"
    and "cl_drivers (view w) (drv_name d) \<noteq> None"
  shows "\<exists>w1. reconcile_active K ns d w = (w1, Done) \<and> ok w1"
proof -
  let ?d0 = "set_condition K d (mk_condition conditionTypeProgressing ConditionTrue ''Reconciling''
    ''Reconciling CXIDriver resources'')"
  have "known_mode ?d0" using assms(3) by (simp add: known_mode_def)
  from reconcile_components_live [OF assms(1,2) this]
  obtain w1 d1 where g: "reconcile_components K ns ?d0 w = (w1, Inr d1)" "ok w1" by blast
  note C = active_components [OF g(1) assms(2)]
  have n: "drv_name d1 = drv_name d" using C(6) by (simp add: same_object_def)
  obtain w2 a b c where cs: "node_counts K ns d1 w1 = (w2, a, b, c)" by (metis prod_cases4)
  have w2: "ok w2" "view w2 = view w1"
  proof -
    show "view w2 = view w1" by (rule node_counts(1) [OF cs])
    from g(2) show "ok w2"
    proof (cases rule: live_ds [of w1 "(ns, drv_name d1 @ ''-driver-agent'')", case_names found missing])
      case (found x w3)
      then show ?thesis using cs by (simp add: node_counts_def)
    next
      case (missing e w3)
      then show ?thesis using cs by (simp add: node_counts_def)
    qed
  qed
  have "cl_drivers (view w2) (drv_name (computeStatus K d1 a b c)) \<noteq> None"
    using C(2) w2(2) n assms(4) by simp
  then obtain w3 where "updateStatusRetryOnConflict K (computeStatus K d1 a b c) w2 = (w3, None)" "ok w3"
    using updateStatus_live [of w2 "computeStatus K d1 a b c"] w2 C(4) by auto
  then have "updateStatus K ns d1 w1 = (w3, None)" using cs by (simp add: updateStatus_def)
  then show ?thesis using g(1) \<open>ok w3\<close> by (simp add: reconcile_active_def Let_def)
qed

text \<open>One request: the finalizer is added first; with it in place everything is deployed.\<close>

lemma Reconcile_live:
  assumes "ok w" and "well_named (view w)" and "cl_drivers (view w) n = Some d"
    and "\<not> om_deleting (drv_meta d)" and "claimable ns n (view w)" and "known_mode d"
  shows "\<exists>w1. Reconcile K ns n w =
      (w1, if cxiDriverFinalizer \<in> set (om_finalizers (drv_meta d)) then Done else Requeue) \<and>
    ok w1 \<and> active_of ns (view w1) = n \<and>
    (\<exists>d1. cl_drivers (view w1) n = Some d1 \<and> \<not> om_deleting (drv_meta d1) \<and>
       drv_spec d1 = drv_spec d \<and> cxiDriverFinalizer \<in> set (om_finalizers (drv_meta d1)))"
proof -
  have n: "drv_name d = n" by (rule well_namedD(1) [OF assms(2,3)])
  obtain w1 where g: "k_get_driver K n w = (w1, Inr d)" "ok w1" "view w1 = view w"
    using assms(1,3) by (cases rule: live_driver [of w n, case_names found missing]) auto
  have wn1: "well_named (view w1)" "claimable ns n (view w1)" using g(3) assms by simp_all
  obtain w2 where i: "isActiveCXIDriver K ns n w1 = (w2, Inr True)" "ok w2"
    using isActive_live [OF g(2) wn1] by blast
  note I = isActive [OF i(1) wn1(1)]
  have d2: "cl_drivers (view w2) (drv_name d) = Some d" using I(1) g(3) assms(3) n by (simp add: step_defs)
  show ?thesis
  proof (cases "cxiDriverFinalizer \<in> set (om_finalizers (drv_meta d))")
    case True
    obtain w3 where a: "reconcile_active K ns d w2 = (w3, Done)" "ok w3"
      using reconcile_active_live [OF i(2) I(2) assms(6)] d2 by auto
    note A = active_branch [OF i(1) wn1(1) a(1) n]
    have "driver_kept n (view w1) (view w3)" using A by blast
    then obtain d1 where "cl_drivers (view w3) n = Some d1" "same_object d d1"
      using assms(3) g(3) by (auto elim: driver_keptD)
    then show ?thesis
      using True g(1) i(1) a assms(4) A n by (auto simp: Reconcile_def contains_finalizer same_object_def)
  next
    case False
    let ?d = "d\<lparr>drv_meta := k_add_finalizer K (drv_meta d) cxiDriverFinalizer\<rparr>"
    obtain w3 where u: "k_update_driver K ?d w2 = (w3, None)" "ok w3"
      using live_update_driver [of w2 ?d] i(2) d2 by auto
    then have a: "reconcile_add_finalizer K d w2 = (w3, Requeue)"
      by (simp add: reconcile_add_finalizer_def)
    note F = reconcile_add_finalizer [OF a I(2)]
    have "active_of ns (view w3) = n" using active_of_frame(2) [OF F(1)] I(3) by simp
    then show ?thesis
      using False g(1) i(1) a u(2) assms(4) F(4) [OF refl d2] n
      by (auto simp: Reconcile_def contains_finalizer)
  qed
qed

lemma Reconcile_twice_live:
  assumes "ok w" and "well_named (view w)" and "cl_drivers (view w) n = Some d"
    and "\<not> om_deleting (drv_meta d)" and "claimable ns n (view w)" and "known_mode d"
    and w1: "w1 = fst (Reconcile K ns n w)" and w2: "w2 = fst (Reconcile K ns n w1)"
  shows "snd (Reconcile K ns n w1) = Done \<and> ok w2 \<and> active_of ns (view w2) = n \<and>
    deployed ns d (view w2)"
proof -
  from Reconcile_live [OF assms(1-6)] w1 obtain r d1 where
    1: "Reconcile K ns n w = (w1, r)" "ok w1" "active_of ns (view w1) = n"
      "cl_drivers (view w1) n = Some d1" "\<not> om_deleting (drv_meta d1)" "drv_spec d1 = drv_spec d"
      "cxiDriverFinalizer \<in> set (om_finalizers (drv_meta d1))"
    by auto
  have wn: "well_named (view w1)" using reconcile_safe [OF 1(1) assms(2)] by simp
  have n: "drv_name d1 = drv_name d"
    using well_namedD(1) [OF wn 1(4)] well_namedD(1) [OF assms(2,3)] by simp
  have "claimable ns n (view w1)" "known_mode d1"
    using 1 assms(6) by (simp_all add: claimable_def known_mode_def)
  from Reconcile_live [OF 1(2) wn 1(4,5) this] 1(7) w2
  have 2: "Reconcile K ns n w1 = (w2, Done)" "ok w2" "active_of ns (view w2) = n" by auto
  from reconcile_done [OF 2(1) wn 1(4,5) 2(3)] 2 deployed_cong_spec [OF n 1(6)]
  show ?thesis by simp
qed

section \<open>Deletion\<close>

lemma cleanupResources_live:
  assumes "ok w" and "well_named (view w)"
  shows "\<exists>w1. cleanupResources K d w = (w1, None) \<and> ok w1"
proof (cases "rh_mode (spec_retry_handler (drv_spec d)) = RetryHandlerModeSidecar")
  case True
  show ?thesis
    using assms(1)
  proof (cases rule: live_mwc [of w "sidecar_webhook_name d", case_names found missing])
    case (found x w1)
    have "om_name (mwc_meta x) = sidecar_webhook_name d" by (rule well_namedD(4) [OF assms(2) found(2)])
    then have "\<exists>w2. k_delete_mwc K x w1 = (w2, None) \<and> ok w2"
      using live_delete_mwc [of w1 x] found by auto
    then show ?thesis using found(1) True by (auto simp: cleanupResources_def Let_def)
  next
    case (missing e w1)
    then show ?thesis using True by (simp add: cleanupResources_def Let_def)
  qed
qed (use assms in \<open>simp add: cleanupResources_def\<close>)

lemma clear_if_active_live:
  assumes "ok w" and "well_named (view w)" and "n \<noteq> ''''"
  shows "ok (clear_if_active K ns n w)" and "active_of ns (view (clear_if_active K ns n w)) \<noteq> n"
proof -
  obtain w1 where g: "getActiveCXIDriver K ns w = (w1, Inr (active_of ns (view w)))" "ok w1"
    "view w1 = view w" using getActive_live [OF assms(1)] by blast
  obtain w2 where s: "setActiveCXIDriver K ns '''' w1 = (w2, None)" "ok w2"
    using setActive_live [OF g(2), of ns "''''"] g(3) assms(2) by auto
  have wn: "well_named (view w1)" using g(3) assms(2) by simp
  show "ok (clear_if_active K ns n w)"
    using g s by (simp add: clear_if_active_def active_or_empty_def)
  show "active_of ns (view (clear_if_active K ns n w)) \<noteq> n"
    using g s setActive [OF s(1) wn] assms(3) by (simp add: clear_if_active_def active_or_empty_def)
qed

text \<open>A deleted driver loses its finalizer in one request, and the driver is not active any more.\<close>

lemma deletion_run:
  assumes "ok w" and "well_named (view w)" and "cl_drivers (view w) n = Some d" and "n \<noteq> ''''"
    and "om_deleting (drv_meta d)" and "cxiDriverFinalizer \<in> set (om_finalizers (drv_meta d))"
  shows "\<exists>w1. Reconcile K ns n w = (w1, Done) \<and> ok w1 \<and> active_of ns (view w1) \<noteq> n \<and>
    cl_drivers (view w1) n =
      cl_drivers (eff_update_driver (d\<lparr>drv_meta := k_remove_finalizer K (drv_meta d) cxiDriverFinalizer\<rparr>) (view w)) n \<and>
    (rh_mode (spec_retry_handler (drv_spec d)) = RetryHandlerModeSidecar \<longrightarrow>
       cl_mwcs (view w1) (sidecar_webhook_name d) = None)"
proof -
  have n: "drv_name d = n" by (rule well_namedD(1) [OF assms(2,3)])
  obtain w1 where g: "k_get_driver K n w = (w1, Inr d)" "ok w1" "view w1 = view w"
    using assms(1,3) by (cases rule: live_driver [of w n, case_names found missing]) auto
  have wn1: "well_named (view w1)" using g(3) assms(2) by simp
  obtain w2 where c: "cleanupResources K d w1 = (w2, None)" "ok w2"
    using cleanupResources_live [OF g(2) wn1] by blast
  note C = cleanupResources [OF c(1) wn1]
  let ?d = "d\<lparr>drv_meta := k_remove_finalizer K (drv_meta d) cxiDriverFinalizer\<rparr>"
  have d2: "cl_drivers (view w2) = cl_drivers (view w)" using C g(3) by (simp add: managed_in_def)
  obtain w3 where u: "k_update_driver K ?d w2 = (w3, None)" "ok w3" "view w3 = eff_update_driver ?d (view w2)"
    using live_update_driver [of w2 ?d] c(2) d2 assms(3) n by auto
  let ?w4 = "clear_if_active K ns n w3"
  have wn3: "well_named (view w3)" using u(3) C well_named_eff(5) by simp
  note L = clear_if_active_live [OF u(2) wn3 assms(4), of ns] clear_if_active_frame [OF wn3, of ns n]
  have R: "reconcile_deletion K ns d w1 = (?w4, Done)"
    using c(1) u(1) assms(6) n by (simp add: reconcile_deletion_def contains_finalizer Let_def)
  then have "Reconcile K ns n w = (?w4, Done)" using g(1) assms(5) by (simp add: Reconcile_def)
  moreover have "cl_drivers (view ?w4) n = cl_drivers (eff_update_driver ?d (view w)) n"
    using L(3) u(3) d2 by (simp add: cm_step_def eff_update_driver_def split: option.split)
  moreover have "cl_mwcs (view ?w4) = cl_mwcs (view w2)"
    using L(3) update_driver_effect(1) [OF u(1)] C by (simp add: step_defs)
  ultimately show ?thesis using L(1,2) C by auto
qed

lemma Reconcile_deletes:
  assumes "ok w" and "well_named (view w)" and "cl_drivers (view w) n = Some d" and "n \<noteq> ''''"
    and "om_deleting (drv_meta d)" and "set (om_finalizers (drv_meta d)) = {cxiDriverFinalizer}"
  shows "\<exists>w1. Reconcile K ns n w = (w1, Done) \<and> ok w1 \<and> cl_drivers (view w1) n = None \<and>
    active_of ns (view w1) \<noteq> n \<and>
    (rh_mode (spec_retry_handler (drv_spec d)) = RetryHandlerModeSidecar \<longrightarrow>
       cl_mwcs (view w1) (sidecar_webhook_name d) = None)"
proof -
  let ?d = "d\<lparr>drv_meta := k_remove_finalizer K (drv_meta d) cxiDriverFinalizer\<rparr>"
  have "drv_name d = n" by (rule well_namedD(1) [OF assms(2,3)])
  moreover have "om_finalizers (k_remove_finalizer K (drv_meta d) cxiDriverFinalizer) = []"
    using remove_finalizer [of "drv_meta d" cxiDriverFinalizer] assms(6) by auto
  ultimately have "cl_drivers (eff_update_driver ?d (view w)) n = None"
    using assms(3,5) by (simp add: eff_update_driver_def)
  then show ?thesis using deletion_run [OF assms(1-5), of ns] assms(6) by auto
qed

end

end
