(* ===== verification/Samples.thy ===== *)
theory Samples
  imports Reconciler
begin

text \<open>
  Concrete drivers and clusters on which the properties are applied by their witnesses.
\<close>

definition sample_spec :: "RetryHandlerMode \<Rightarrow> CXIDriverSpec" where
  "sample_spec mode =
     \<lparr>spec_version = ''1.8.3'',
      spec_source = \<lparr>src_type = DriverSourcePreinstalled, src_repository = '''',
        src_prebuilt_cache = '''', src_dkms = None\<rparr>,
      spec_retry_handler = \<lparr>rh_enabled = True, rh_mode = mode, rh_image = '''',
        rh_daemonset = None, rh_sidecar = None\<rparr>,
      spec_device_plugin = \<lparr>dp_enabled = True, dp_resource_name = ''hpe.com/cxi'', dp_image = '''',
        dp_sharing_mode = DeviceSharingModeShared, dp_shared_capacity = 100\<rparr>,
      spec_metrics_exporter = \<lparr>me_enabled = True, me_image = '''', me_port = 9090,
        me_resources = no_resources\<rparr>,
      spec_node_selector = Map.empty,
      spec_update_strategy = \<lparr>us_type = ''RollingUpdate'', us_max_unavailable = ''1'',
        us_rollback_on_failure = False, us_health_check_timeout = ''''\<rparr>\<rparr>"

definition sample_status :: CXIDriverStatus where
  "sample_status =
     \<lparr>st_observed_generation = 0, st_ready = 0, st_updating = 0, st_failed = 0,
      st_driver_version = '''', st_retry_handler_mode = '''', st_webhook_ready = False,
      st_conditions = []\<rparr>"

definition sample_driver :: "string \<Rightarrow> bool \<Rightarrow> string list \<Rightarrow> RetryHandlerMode \<Rightarrow> CXIDriver" where
  "sample_driver n deleting fins mode =
     \<lparr>drv_meta = (new_meta n '''' Map.empty)\<lparr>om_generation := 1, om_deleting := deleting,
        om_finalizers := fins\<rparr>,
      drv_spec = sample_spec mode, drv_status = sample_status\<rparr>"

text \<open>A cluster with these drivers and this active driver (none for the empty string).\<close>

definition sample_cluster :: "CXIDriver list \<Rightarrow> string \<Rightarrow> cluster" where
  "sample_cluster ds active =
     \<lparr>cl_drivers = map_of (map (\<lambda>d. (drv_name d, d)) ds),
      cl_cms = (if active = '''' then Map.empty
                else [singleton_key ''ops'' \<mapsto> new_singleton ''ops'' active]),
      cl_dss = Map.empty, cl_mwcs = Map.empty\<rparr>"

text \<open>Two drivers with their finalizers; \<open>a\<close> is the active one.\<close>

definition two_drivers :: cluster where
  "two_drivers =
     sample_cluster [sample_driver ''a'' False [cxiDriverFinalizer] RetryHandlerModeDaemonSet,
                     sample_driver ''b'' False [cxiDriverFinalizer] RetryHandlerModeSidecar] ''a''"

text \<open>One driver on its own, in the given state.\<close>

definition one_driver :: "bool \<Rightarrow> string list \<Rightarrow> RetryHandlerMode \<Rightarrow> cluster" where
  "one_driver deleting fins mode = sample_cluster [sample_driver ''a'' deleting fins mode] ''a''"

end
