(* ===== verification/ReconcilerProps.thy ===== *)
theory ReconcilerProps
  imports ReconcilerLive Samples
begin

text \<open>
  The properties of the reconciler, stated for every client that satisfies the API laws and every
  cluster whose objects are stored under their names. The witnesses apply them to the reference
  server of \<open>KubeApi\<close> and the concrete clusters of \<open>Samples\<close>.
\<close>

section \<open>The concrete clusters\<close>

lemma sample_name [simp]: "drv_name (sample_driver n b fs m) = n"
  by (simp add: sample_driver_def)

lemma sample_meta [simp]:
  "om_deleting (drv_meta (sample_driver n b fs m)) = b"
  "om_finalizers (drv_meta (sample_driver n b fs m)) = fs"
  "drv_spec (sample_driver n b fs m) = sample_spec m"
  by (simp_all add: sample_driver_def)

lemma sample_spec_retry [simp]:
  "rh_mode (spec_retry_handler (sample_spec m)) = m" "rh_enabled (spec_retry_handler (sample_spec m))"
  by (simp_all add: sample_spec_def)

lemma sample_cluster_sel [simp]:
  "cl_drivers (sample_cluster ds a) = map_of (map (\<lambda>d. (drv_name d, d)) ds)"
  "cl_dss (sample_cluster ds a) = Map.empty" "cl_mwcs (sample_cluster ds a) = Map.empty"
  by (simp_all add: sample_cluster_def)

lemma sample_active [simp]: "active_of ''ops'' (sample_cluster ds a) = a"
  by (simp add: active_of_def sample_cluster_def new_singleton_def str_at_def)

lemma sample_well_named [simp]: "well_named (sample_cluster ds a)"
  unfolding well_named_def
proof (intro conjI allI impI)
  show "drv_name d = n" if "cl_drivers (sample_cluster ds a) n = Some d" for n d
    using map_of_SomeD [of "map (\<lambda>d. (drv_name d, d)) ds" n d] that by auto
  show "meta_key (cm_meta m) = k" if "cl_cms (sample_cluster ds a) k = Some m" for k m
    using that by (cases "a = ''''")
      (auto simp: sample_cluster_def new_singleton_def singleton_key_def meta_key_def
        split: if_splits)
qed simp_all

lemma two_drivers_simps [simp]:
  "cl_drivers two_drivers ''a'' =
     Some (sample_driver ''a'' False [cxiDriverFinalizer] RetryHandlerModeDaemonSet)"
  "cl_drivers two_drivers ''b'' =
     Some (sample_driver ''b'' False [cxiDriverFinalizer] RetryHandlerModeSidecar)"
  "active_of ''ops'' two_drivers = ''a''" "well_named two_drivers"
  by (simp_all add: two_drivers_def)

lemma one_driver_simps [simp]:
  "cl_drivers (one_driver b fs m) = [''a'' \<mapsto> sample_driver ''a'' b fs m]"
  "active_of ''ops'' (one_driver b fs m) = ''a''" "well_named (one_driver b fs m)"
  "cl_dss (one_driver b fs m) = Map.empty" "cl_mwcs (one_driver b fs m) = Map.empty"
  by (simp_all add: one_driver_def)

lemmas ref_api = ref.k8s_api_axioms
lemmas ref_reliable = ref_ok.k8s_reliable_axioms

text \<open>The active driver of \<open>two_drivers\<close> is deployed by one request.\<close>

lemma two_drivers_run:
  "\<exists>w1. Reconcile ref_k8s ''ops'' ''a'' (two_drivers, []) = (w1, Done) \<and>
     active_of ''ops'' (fst w1) = ''a'' \<and>
     deployed ''ops'' (sample_driver ''a'' False [cxiDriverFinalizer] RetryHandlerModeDaemonSet) (fst w1)"
proof -
  have "\<exists>w1. Reconcile ref_k8s ''ops'' ''a'' (two_drivers, []) = (w1, Done) \<and>
      active_of ''ops'' (fst w1) = ''a''"
    using ref_ok.Reconcile_live [of "(two_drivers, [])" "''a''" _ "''ops''"]
    by (auto simp: claimable_def known_mode_def)
  then show ?thesis
    using ref.reconcile_done [of "''ops''" "''a''" "(two_drivers, [])" _
        "sample_driver ''a'' False [cxiDriverFinalizer] RetryHandlerModeDaemonSet"]
    by auto
qed

section \<open>Deployment\<close>

text \<open>
  C1: When \<open>Reconcile\<close> of a live driver returns success and that driver is the active one, every
  component its specification enables is in place (the DaemonSets or the webhook with exactly the
  built specification), and the stored status is \<open>computeStatus\<close> of the driver with the counts of
  the driver agent's DaemonSet. This holds whatever calls failed on the way.
\<close>

theorem reconcile_success_deploys:
  assumes "k8s_api K view" and "well_named (view w)"
    and "cl_drivers (view w) n = Some d" and "\<not> om_deleting (drv_meta d)"
    and "snd (Reconcile K ns n w) = Done"
    and "active_of ns (view (fst (Reconcile K ns n w))) = n"
  shows "deployed ns d (view (fst (Reconcile K ns n w))) \<and>
    status_reported K ns d (view (fst (Reconcile K ns n w)))"
  using k8s_api.reconcile_done [OF assms(1), of ns n w "fst (Reconcile K ns n w)" d] assms
  by (metis prod.collapse)

theorem reconcile_success_deploys_witness:
  "deployed ''ops'' (sample_driver ''a'' False [cxiDriverFinalizer] RetryHandlerModeDaemonSet)
    (fst (fst (Reconcile ref_k8s ''ops'' ''a'' (two_drivers, []))))"
  using reconcile_success_deploys [OF ref_api, of "(two_drivers, [])" "''a''" _ "''ops''"]
    two_drivers_run by auto

text \<open>
  C2: The rollout keeps its order in every run, also one cut short by an error: if the device
  plugin's DaemonSet changed, the driver agent is in place; if the retry handler's changed, the
  agent and the plugin are; if the exporter's changed, all three are.
\<close>

theorem reconcile_rolls_out_in_order:
  assumes "k8s_api K view" and "well_named (view w)"
    and "cl_drivers (view w) n = Some d" and "\<not> om_deleting (drv_meta d)"
  shows "rollout_ordered ns d (view w) (view (fst (Reconcile K ns n w)))"
  using k8s_api.reconcile_rollout [OF assms(1) _ assms(2-4)] by (metis prod.collapse)

theorem reconcile_rolls_out_in_order_witness:
  "rollout_ordered ''ops'' (sample_driver ''a'' False [cxiDriverFinalizer] RetryHandlerModeDaemonSet)
    two_drivers
    (fst (fst (Reconcile ref_k8s ''ops'' ''a'' (two_drivers, [Accept, Accept, Accept, Accept, Refuse]))))"
  using reconcile_rolls_out_in_order [OF ref_api,
      of "(two_drivers, [Accept, Accept, Accept, Accept, Refuse])" "''a''" _ "''ops''"]
  by simp

section \<open>The singleton\<close>

text \<open>Requests served one after the other, as the controller's single worker does.\<close>

fun reconcile_all :: "'w k8s \<Rightarrow> string \<Rightarrow> string list \<Rightarrow> 'w \<Rightarrow> 'w" where
  "reconcile_all K ns [] w = w"
| "reconcile_all K ns (n # names) w = reconcile_all K ns names (fst (Reconcile K ns n w))"

context k8s_api begin

lemma reconcile_all_keeps:
  assumes "well_named (view w)" and "active_of ns (view w) = m" and "m \<noteq> ''''"
    and "cl_drivers (view w) m = Some d" and "\<not> om_deleting (drv_meta d)" and "'''' \<notin> set names"
  shows "active_of ns (view (reconcile_all K ns names w)) = m \<and>
    (\<forall>k. k \<notin> managed_keys ns m \<longrightarrow>
       cl_dss (view (reconcile_all K ns names w)) k = cl_dss (view w) k)"
  using assms
proof (induction names arbitrary: w d)
  case (Cons n names)
  let ?w1 = "fst (Reconcile K ns n w)"
  have r: "Reconcile K ns n w = (?w1, snd (Reconcile K ns n w))" by simp
  note S = reconcile_safe [OF r Cons.prems(1)]
  have n: "n \<noteq> ''''" using Cons.prems(6) by auto
  have a: "active_of ns (view ?w1) = m"
    by (rule reconcile_keeps_active [OF r Cons.prems(1) n Cons.prems(3,2,4,5)])
  obtain d1 where d1: "cl_drivers (view ?w1) m = Some d1" "\<not> om_deleting (drv_meta d1)"
  proof (cases "n = m")
    case True
    then show ?thesis using that reconcile_keeps_driver [OF r Cons.prems(1)] Cons.prems(4,5) by auto
  next
    case False
    then show ?thesis using that S Cons.prems(4,5) by (auto simp: footprint_def)
  qed
  have dss: "\<forall>k. k \<notin> managed_keys ns m \<longrightarrow> cl_dss (view ?w1) k = cl_dss (view w) k"
    using S reconcile_other_frozen [OF r Cons.prems(1) n Cons.prems(3,2,4,5)]
    by (cases "n = m") (auto simp: footprint_def)
  have "'''' \<notin> set names" using Cons.prems(6) by simp
  from Cons.IH [OF conjunct2 [OF S] a Cons.prems(3) d1 this] dss show ?case by simp
qed simp

end

text \<open>
  C3: While the active driver exists and is not being deleted, no sequence of requests, for any
  drivers and with any failures, makes another driver active or changes a DaemonSet that is not
  the active driver's: two drivers never fight over the nodes.
\<close>

theorem active_driver_is_exclusive:
  assumes "k8s_api K view" and "well_named (view w)" and "active_of ns (view w) = m" and "m \<noteq> ''''"
    and "cl_drivers (view w) m = Some d" and "\<not> om_deleting (drv_meta d)" and "'''' \<notin> set names"
  shows "active_of ns (view (reconcile_all K ns names w)) = m \<and>
    (\<forall>k. k \<notin> managed_keys ns m \<longrightarrow>
       cl_dss (view (reconcile_all K ns names w)) k = cl_dss (view w) k)"
  by (rule k8s_api.reconcile_all_keeps [OF assms])

theorem active_driver_is_exclusive_witness:
  "active_of ''ops'' (fst (reconcile_all ref_k8s ''ops'' [''b'', ''a'', ''c''] (two_drivers, [Accept, Refuse]))) = ''a''"
  using active_driver_is_exclusive [OF ref_api, of "(two_drivers, [Accept, Refuse])" "''ops''" "''a''"
      _ "[''b'', ''a'', ''c'']"]
  by simp

lemma managed_objects_change_only_for:
  assumes "k8s_api K view" and "well_named (view w)"
    and "\<not> same_managed (view w) (view (fst (Reconcile K ns n w)))"
  shows "\<exists>d. cl_drivers (view w) n = Some d \<and>
    cxiDriverFinalizer \<in> set (om_finalizers (drv_meta d)) \<and>
    (if om_deleting (drv_meta d)
     then rh_mode (spec_retry_handler (drv_spec d)) = RetryHandlerModeSidecar \<and>
       cl_dss (view (fst (Reconcile K ns n w))) = cl_dss (view w)
     else active_of ns (view (fst (Reconcile K ns n w))) = n)"
proof -
  have "Reconcile K ns n w = (fst (Reconcile K ns n w), snd (Reconcile K ns n w))" by simp
  from k8s_api.reconcile_managed [OF assms(1) this assms(2)] assms(3) show ?thesis by auto
qed

text \<open>
  C5: A request touches nothing but what belongs to its driver: the driver's own object, the
  singleton record, the driver's four DaemonSets and its webhook; and it never removes a DaemonSet,
  so a component that was enabled and is disabled later keeps running. DaemonSets and webhooks change
  only if the driver carries the finalizer, and then either it is the active driver and not being
  deleted, or it is being deleted in sidecar mode and the DaemonSets are untouched.
\<close>

theorem reconcile_footprint:
  assumes "k8s_api K view" and "well_named (view w)"
  shows "footprint ns n (view w) (view (fst (Reconcile K ns n w))) \<and>
    well_named (view (fst (Reconcile K ns n w))) \<and>
    (\<not> same_managed (view w) (view (fst (Reconcile K ns n w))) \<longrightarrow>
      (\<exists>d. cl_drivers (view w) n = Some d \<and>
        cxiDriverFinalizer \<in> set (om_finalizers (drv_meta d)) \<and>
        (if om_deleting (drv_meta d)
         then rh_mode (spec_retry_handler (drv_spec d)) = RetryHandlerModeSidecar \<and>
           cl_dss (view (fst (Reconcile K ns n w))) = cl_dss (view w)
         else active_of ns (view (fst (Reconcile K ns n w))) = n)))"
  (is "?A \<and> ?B \<and> (?C \<longrightarrow> ?D)")
proof (intro conjI impI)
  show ?A and ?B using k8s_api.reconcile_safe [OF assms(1) _ assms(2)] by (metis prod.collapse)+
qed (rule managed_objects_change_only_for [OF assms])

theorem reconcile_footprint_witness:
  "footprint ''ops'' ''a'' two_drivers (fst (fst (Reconcile ref_k8s ''ops'' ''a'' (two_drivers, [])))) \<and>
   \<not> same_managed two_drivers (fst (fst (Reconcile ref_k8s ''ops'' ''a'' (two_drivers, [])))) \<and>
   active_of ''ops'' (fst (fst (Reconcile ref_k8s ''ops'' ''a'' (two_drivers, [])))) = ''a''"
proof -
  have "\<not> same_managed two_drivers (fst (fst (Reconcile ref_k8s ''ops'' ''a'' (two_drivers, []))))"
    using two_drivers_run by (auto simp: same_managed_def deployed_def has_ds_def two_drivers_def)
  with reconcile_footprint [OF ref_api, of "(two_drivers, [])" "''ops''" "''a''"]
  show ?thesis by simp
qed



section \<open>Liveness\<close>

text \<open>
  C7: With an API server that answers, two requests deploy a live driver that has or can take the
  singleton and whose retry handler mode is known: the first adds the finalizer if it is missing,
  the second ends successfully with every enabled component in place.
\<close>

theorem two_requests_deploy:
  assumes "k8s_reliable K view ok" and "ok w" and "well_named (view w)"
    and "cl_drivers (view w) n = Some d" and "\<not> om_deleting (drv_meta d)"
    and "claimable ns n (view w)" and "known_mode d"
  shows "snd (Reconcile K ns n (fst (Reconcile K ns n w))) = Done \<and>
    active_of ns (view (fst (Reconcile K ns n (fst (Reconcile K ns n w))))) = n \<and>
    deployed ns d (view (fst (Reconcile K ns n (fst (Reconcile K ns n w)))))"
  using k8s_reliable.Reconcile_twice_live [OF assms refl refl] by simp

theorem two_requests_deploy_witness:
  "snd (Reconcile ref_k8s ''ops'' ''a''
     (fst (Reconcile ref_k8s ''ops'' ''a'' (one_driver False [] RetryHandlerModeSidecar, [])))) = Done"
  using two_requests_deploy [OF ref_reliable,
      of "(one_driver False [] RetryHandlerModeSidecar, [])" "''a''" _ "''ops''"]
  by (simp add: claimable_def known_mode_def)

section \<open>Deletion\<close>

text \<open>
  C8: With an API server that answers, one request finishes the deletion of a driver only this
  operator holds: the object is gone, the driver is not the active one any more, and in sidecar
  mode its webhook is gone too.
\<close>

theorem deletion_completes:
  assumes "k8s_reliable K view ok" and "ok w" and "well_named (view w)"
    and "cl_drivers (view w) n = Some d" and "n \<noteq> ''''" and "om_deleting (drv_meta d)"
    and "set (om_finalizers (drv_meta d)) = {cxiDriverFinalizer}"
  shows "snd (Reconcile K ns n w) = Done \<and>
    cl_drivers (view (fst (Reconcile K ns n w))) n = None \<and>
    active_of ns (view (fst (Reconcile K ns n w))) \<noteq> n \<and>
    (rh_mode (spec_retry_handler (drv_spec d)) = RetryHandlerModeSidecar \<longrightarrow>
       cl_mwcs (view (fst (Reconcile K ns n w))) (sidecar_webhook_name d) = None)"
  using k8s_reliable.Reconcile_deletes [OF assms, of ns] by auto

theorem deletion_completes_witness:
  "cl_drivers (fst (fst (Reconcile ref_k8s ''ops'' ''a''
     (one_driver True [cxiDriverFinalizer] RetryHandlerModeSidecar, [])))) ''a'' = None"
  using deletion_completes [OF ref_reliable,
      of "(one_driver True [cxiDriverFinalizer] RetryHandlerModeSidecar, [])" "''a''"
        "sample_driver ''a'' True [cxiDriverFinalizer] RetryHandlerModeSidecar" "''ops''"]
  by simp

text \<open>
  C9: Cleanup comes before the finalizer is given up. Whatever fails, a request for a driver
  being deleted that changed the driver's object has removed the sidecar webhook first when the
  mode is sidecar. But the mode decides alone: with any other mode, no webhook is touched, so a
  webhook left from an earlier sidecar mode survives the driver.
\<close>

theorem cleanup_precedes_finalizer_removal:
  assumes "k8s_api K view" and "well_named (view w)"
    and "cl_drivers (view w) n = Some d" and "om_deleting (drv_meta d)"
  shows "cl_dss (view (fst (Reconcile K ns n w))) = cl_dss (view w) \<and>
    (rh_mode (spec_retry_handler (drv_spec d)) = RetryHandlerModeSidecar \<and>
       cl_drivers (view (fst (Reconcile K ns n w))) \<noteq> cl_drivers (view w) \<longrightarrow>
       cl_mwcs (view (fst (Reconcile K ns n w))) (sidecar_webhook_name d) = None) \<and>
    (rh_mode (spec_retry_handler (drv_spec d)) \<noteq> RetryHandlerModeSidecar \<longrightarrow>
       cl_mwcs (view (fst (Reconcile K ns n w))) = cl_mwcs (view w))"
  using k8s_api.reconcile_deleting [OF assms(1) _ assms(2-4)] by (metis prod.collapse)

theorem cleanup_precedes_finalizer_removal_witness:
  "cl_mwcs (fst (fst (Reconcile ref_k8s ''ops'' ''a''
     (one_driver True [cxiDriverFinalizer] RetryHandlerModeKernel, [Accept, LoseReply])))) = Map.empty"
  using cleanup_precedes_finalizer_removal [OF ref_api,
      of "(one_driver True [cxiDriverFinalizer] RetryHandlerModeKernel, [Accept, LoseReply])" "''a''"
        _ "''ops''"]
  by simp

section \<open>Status\<close>

text \<open>
  The conditions \<open>computeStatus\<close> reports. With ready nodes and none failed the driver is
  available, no longer progressing and not degraded; with failed nodes it is degraded and not
  available; otherwise it waits, and what was known of degradation and progress stays.
\<close>

lemma computeStatus_conditions:
  assumes "k8s_lib_laws L"
  shows "find_condition (drv_conditions (computeStatus L d ready updating failed)) t =
    (if 0 < sint ready \<and> failed = 0 then
       (if t = conditionTypeDegraded then None
        else if t = conditionTypeProgressing then
          Some (mk_condition t ConditionFalse ''Deployed'' ''All components deployed'')
        else if t = conditionTypeAvailable then
          Some (mk_condition t ConditionTrue ''Ready'' (sprint_i32 ready @ '' nodes ready''))
        else find_condition (drv_conditions d) t)
     else if 0 < sint failed then
       (if t = conditionTypeDegraded then
          Some (mk_condition t ConditionTrue ''NodesFailed'' (sprint_i32 failed @ '' nodes failed''))
        else if t = conditionTypeAvailable then
          Some (mk_condition t ConditionFalse ''NodesFailed'' (sprint_i32 failed @ '' nodes failed''))
        else find_condition (drv_conditions d) t)
     else if t = conditionTypeAvailable then
       Some (mk_condition t ConditionFalse ''WaitingForPods'' ''Waiting for pods to become ready'')
     else find_condition (drv_conditions d) t)"
  using k8s_lib_laws.find_set_condition [OF assms] k8s_lib_laws.find_remove_condition [OF assms]
  by (simp add: computeStatus_def Let_def setDegradedCondition_def)


section \<open>Manifests\<close>

text \<open>
  C11: The operator's DaemonSets never pick up each other's pods. The selectors of two different
  components, or of the same component of two drivers, have no pod in common; and each DaemonSet
  selects the pods it makes and is one the API server accepts.
\<close>

theorem daemonsets_do_not_overlap:
  assumes "i < 4" and "j < 4" and "i \<noteq> j \<or> drv_name d \<noteq> drv_name e"
    and "selects (dss_selector (ds_spec (operator_daemonsets ns d ! i))) l"
  shows "wf_daemonset (operator_daemonsets ns d ! i) \<and>
    selects (dss_selector (ds_spec (operator_daemonsets ns d ! i)))
      (dss_template_labels (ds_spec (operator_daemonsets ns d ! i))) \<and>
    \<not> selects (dss_selector (ds_spec (operator_daemonsets ns e ! j))) l"
proof -
  let ?c = "[componentDriverAgent, componentDevicePlugin, componentRetryHandler, componentMetricsExporter]"
  have four: "k = 0 \<or> k = 1 \<or> k = 2 \<or> k = 3" if "k < 4" for k :: nat using that by auto
  have sel: "dss_selector (ds_spec (operator_daemonsets ns x ! k)) = component_labels (?c ! k) (drv_name x)"
    if "k < 4" for k x using four [OF that] by (auto simp: operator_daemonsets_def)
  have wf: "wf_daemonset (operator_daemonsets ns d ! i)"
    using four [OF assms(1)] wf_driver_agent wf_device_plugin wf_retry_handler wf_metrics_exporter
    by (auto simp: operator_daemonsets_def)
  have "?c ! i \<noteq> ?c ! j" if "i \<noteq> j" using that four [OF assms(1)] four [OF assms(2)] by auto
  then have "?c ! i \<noteq> ?c ! j \<or> drv_name d \<noteq> drv_name e" using assms(3) by auto
  from component_selectors_disjoint [OF this] assms(4) wf show ?thesis
    by (simp add: sel assms(1,2) wf_daemonset_def, simp add: selects_def)
qed

theorem daemonsets_do_not_overlap_witness:
  "\<not> selects (dss_selector (ds_spec (operator_daemonsets ''ops''
        (sample_driver ''b'' False [] RetryHandlerModeNone) ! 1)))
     (component_labels componentDevicePlugin ''a'')"
  using daemonsets_do_not_overlap [of 1 1 "sample_driver ''a'' False [] RetryHandlerModeNone"
      "sample_driver ''b'' False [] RetryHandlerModeNone" "''ops''"
      "component_labels componentDevicePlugin ''a''"]
  by (simp add: operator_daemonsets_def selects_def)

end
