(* ===== verification/ControllerQueue.thy ===== *)
theory ControllerQueue
  imports ReconcilerProps
begin

text \<open>
  The controller around \<open>Reconcile\<close>: \<open>SetupWithManager\<close> says which objects it watches, and the
  work queue serves one request after the other. A request stays pending until it ended with an
  empty result, and every change of a watched object makes the request of the object, or of its
  controlling owner, pending. The system is a step relation whose steps are a served request, or a
  change by somebody else (users, the DaemonSet controller, the garbage collector); a pending
  request stands for one that is queued, delayed or whose event has not arrived. The properties:
  a driver that nothing is pending for is deployed, and no request wakes another driver.
\<close>

section \<open>What the controller watches\<close>

text \<open>The options given to the builder; delays in milliseconds.\<close>

record controller_setup =
  cs_name :: string
  cs_for :: string
  cs_owns :: "string list"
  cs_min_delay :: int
  cs_max_delay :: int

definition SetupWithManager_controller :: controller_setup where
  "SetupWithManager_controller =
     \<lparr>cs_name = ''cxidriver'', cs_for = ''CXIDriver'', cs_owns = [''DaemonSet''],
      cs_min_delay = 100, cs_max_delay = 5 * 60 * 1000\<rparr>"

datatype watched = DriverObject CXIDriver | ConfigMapObject ConfigMap | DaemonSetObject DaemonSet
  | WebhookObject MutatingWebhookConfiguration

fun object_kind :: "watched \<Rightarrow> string" where
  "object_kind (DriverObject d) = ''CXIDriver''"
| "object_kind (ConfigMapObject m) = ''ConfigMap''"
| "object_kind (DaemonSetObject s) = ''DaemonSet''"
| "object_kind (WebhookObject h) = ''MutatingWebhookConfiguration''"

fun object_meta :: "watched \<Rightarrow> ObjectMeta" where
  "object_meta (DriverObject d) = drv_meta d"
| "object_meta (ConfigMapObject m) = cm_meta m"
| "object_meta (DaemonSetObject s) = ds_meta s"
| "object_meta (WebhookObject h) = mwc_meta h"

text \<open>An event of an object requests the object itself, or the \<open>CXIDriver\<close> that controls it.\<close>

definition requests_for :: "controller_setup \<Rightarrow> watched \<Rightarrow> string set" where
  "requests_for cs x =
     (if object_kind x = cs_for cs then {om_name (object_meta x)} else {}) \<union>
     (if object_kind x \<in> set (cs_owns cs) then set_option (om_controller (object_meta x)) else {})"

text \<open>The old and the new versions of the objects in which two clusters differ.\<close>

definition versions :: "('k \<Rightarrow> 'v option) \<Rightarrow> ('k \<Rightarrow> 'v option) \<Rightarrow> 'v set" where
  "versions f g = {v. \<exists>k. f k \<noteq> g k \<and> (f k = Some v \<or> g k = Some v)}"

definition touched :: "cluster \<Rightarrow> cluster \<Rightarrow> watched set" where
  "touched c c' =
     DriverObject ` versions (cl_drivers c) (cl_drivers c') \<union>
     ConfigMapObject ` versions (cl_cms c) (cl_cms c') \<union>
     DaemonSetObject ` versions (cl_dss c) (cl_dss c') \<union>
     WebhookObject ` versions (cl_mwcs c) (cl_mwcs c')"

definition woken :: "cluster \<Rightarrow> cluster \<Rightarrow> string set" where
  "woken c c' = (\<Union>x \<in> touched c c'. requests_for SetupWithManager_controller x)"

lemma versionsI: "f k \<noteq> g k \<Longrightarrow> f k = Some v \<or> g k = Some v \<Longrightarrow> v \<in> versions f g"
  unfolding versions_def by blast

lemma versionsE:
  assumes "v \<in> versions f g" obtains k where "f k \<noteq> g k" and "f k = Some v \<or> g k = Some v"
  using assms unfolding versions_def by blast

lemma versions_same [simp]: "versions f f = {}"
  by (simp add: versions_def)

text \<open>Only drivers and DaemonSets wake anybody.\<close>

lemma requests_simps [simp]:
  "requests_for SetupWithManager_controller (DriverObject d) = {drv_name d}"
  "requests_for SetupWithManager_controller (ConfigMapObject m) = {}"
  "requests_for SetupWithManager_controller (DaemonSetObject s) = set_option (om_controller (ds_meta s))"
  "requests_for SetupWithManager_controller (WebhookObject h) = {}"
  by (simp_all add: requests_for_def SetupWithManager_controller_def)

lemma woken_iff:
  "n \<in> woken c c' \<longleftrightarrow>
     (\<exists>d \<in> versions (cl_drivers c) (cl_drivers c'). drv_name d = n) \<or>
     (\<exists>s \<in> versions (cl_dss c) (cl_dss c'). om_controller (ds_meta s) = Some n)"
  by (auto simp: woken_def touched_def)

lemma driver_wakes:
  assumes "well_named c" and "well_named c'" and "cl_drivers c' n \<noteq> cl_drivers c n"
  shows "n \<in> woken c c'"
proof -
  obtain d where d: "cl_drivers c n = Some d \<or> cl_drivers c' n = Some d"
    using assms(3) by (cases "cl_drivers c n"; cases "cl_drivers c' n") auto
  then have "drv_name d = n" using assms(1,2) by (auto dest: well_namedD(1))
  moreover have "d \<in> versions (cl_drivers c) (cl_drivers c')"
    using assms(3) d by (intro versionsI [of _ n]) auto
  ultimately show ?thesis unfolding woken_iff by blast
qed

section \<open>Ownership\<close>

text \<open>The DaemonSets named after a driver are controlled by it.\<close>

definition owned :: "string \<Rightarrow> cluster \<Rightarrow> bool" where
  "owned ns c \<longleftrightarrow>
     (\<forall>n k s. k \<in> managed_keys ns n \<longrightarrow> cl_dss c k = Some s \<longrightarrow> om_controller (ds_meta s) = Some n)"

lemma ownedD: "owned ns c \<Longrightarrow> k \<in> managed_keys ns n \<Longrightarrow> cl_dss c k = Some s \<Longrightarrow>
    om_controller (ds_meta s) = Some n"
  unfolding owned_def by blast

lemma daemonset_wakes:
  assumes "owned ns c" and "owned ns c'" and "k \<in> managed_keys ns n"
    and "cl_dss c' k \<noteq> cl_dss c k"
  shows "n \<in> woken c c'"
proof -
  obtain s where s: "cl_dss c k = Some s \<or> cl_dss c' k = Some s"
    using assms(4) by (cases "cl_dss c k"; cases "cl_dss c' k") auto
  then have "om_controller (ds_meta s) = Some n" using assms(1-3) by (auto dest: ownedD)
  moreover have "s \<in> versions (cl_dss c) (cl_dss c')"
    using assms(4) s by (intro versionsI [of _ k]) auto
  ultimately show ?thesis unfolding woken_iff by blast
qed

lemma managed_keys_disjoint: "k \<in> managed_keys ns n \<Longrightarrow> k \<in> managed_keys ns m \<Longrightarrow> m = n"
  by (auto simp: managed_keys_def)

text \<open>
  What a write of the reconciler does to DaemonSets: it creates them under the driver's control,
  and keeps the metadata of those that exist.
\<close>

fun ds_kept :: "string \<Rightarrow> DaemonSet option \<Rightarrow> DaemonSet option \<Rightarrow> bool" where
  "ds_kept n None None = True"
| "ds_kept n None (Some s) \<longleftrightarrow> om_controller (ds_meta s) = Some n"
| "ds_kept n (Some x) None = False"
| "ds_kept n (Some x) (Some s) \<longleftrightarrow> ds_meta s = ds_meta x"

definition owned_step :: "string \<Rightarrow> cluster \<Rightarrow> cluster \<Rightarrow> bool" where
  "owned_step n c c' \<longleftrightarrow> (\<forall>k. ds_kept n (cl_dss c k) (cl_dss c' k))"

lemma ds_kept_refl [simp]: "ds_kept n a a"
  by (cases a) simp_all

lemma ds_kept_trans: "ds_kept n a b \<Longrightarrow> ds_kept n b c \<Longrightarrow> ds_kept n a c"
  by (cases a; cases b; cases c) simp_all

lemma owned_stepI: "cl_dss c' = cl_dss c \<Longrightarrow> owned_step n c c'"
  by (simp add: owned_step_def)

lemma owned_step_trans: "owned_step n a b \<Longrightarrow> owned_step n b c \<Longrightarrow> owned_step n a c"
  unfolding owned_step_def by (blast intro: ds_kept_trans)

lemma owned_step_keeps:
  assumes "owned ns c" and "owned_step n c c'" and "footprint ns n c c'"
  shows "owned ns c'"
  unfolding owned_def
proof (intro allI impI)
  fix m k s
  assume k: "k \<in> managed_keys ns m" and s: "cl_dss c' k = Some s"
  have kept: "ds_kept n (cl_dss c k) (Some s)" using assms(2) s unfolding owned_step_def by metis
  show "om_controller (ds_meta s) = Some m"
  proof (cases "cl_dss c k")
    case None
    then have "cl_dss c' k \<noteq> cl_dss c k" using s by simp
    then have "k \<in> managed_keys ns n" using assms(3) unfolding footprint_def by blast
    with k have "m = n" by (metis managed_keys_disjoint)
    with None kept show ?thesis by simp
  next
    case (Some x)
    with kept ownedD [OF assms(1) k Some] show ?thesis by simp
  qed
qed

text \<open>The reconciler's writes of DaemonSets, from one synchronisation up to a request.\<close>

lemma put_ds_owned:
  "cl_dss c (meta_key (ds_meta s)) = None \<Longrightarrow> om_controller (ds_meta s) = Some n \<Longrightarrow>
     owned_step n c (eff_put_ds s c)"
  "cl_dss c (meta_key (ds_meta s)) = Some x \<Longrightarrow> ds_meta s = ds_meta x \<Longrightarrow>
     owned_step n c (eff_put_ds s c)"
  by (simp_all add: owned_step_def eff_put_ds_def)

definition stage_owned ::
  "('w \<Rightarrow> cluster) \<Rightarrow> string \<Rightarrow> (CXIDriver \<Rightarrow> 'w \<Rightarrow> 'w \<times> (CXIDriver + CXIDriver)) \<Rightarrow> bool" where
  "stage_owned view n s \<longleftrightarrow>
     (\<forall>d w w' r. s d w = (w', r) \<longrightarrow> well_named (view w) \<longrightarrow> drv_name d = n \<longrightarrow>
        owned_step n (view w) (view w') \<and> well_named (view w') \<and>
        (case r of Inl d' \<Rightarrow> drv_name d' = n | Inr d' \<Rightarrow> drv_name d' = n))"

context k8s_api begin

lemma sync_daemonset_owned:
  assumes "sync_daemonset K d s w = (w', r)" and wn: "well_named (view w)"
  shows "owned_step (drv_name d) (view w) (view w')"
proof (cases "k_set_controller_reference K d (ds_meta s)")
  case (Inl e)
  then show ?thesis using assms by (auto simp: sync_daemonset_def intro: owned_stepI)
next
  case ref: (Inr m)
  then have m: "om_controller m = Some (drv_name d)" using set_controller_reference by fastforce
  obtain w1 q where g: "k_get_ds K (meta_key m) w = (w1, q)" by (cases "k_get_ds K (meta_key m) w")
  note R = readsD [OF get_ds g]
  show ?thesis
  proof (cases q)
    case (Inl e)
    let ?s = "s\<lparr>ds_meta := m\<rparr>"
    obtain w2 q2 where c: "k_create_ds K ?s w1 = (w2, q2)" by (cases "k_create_ds K ?s w1")
    have "owned_step (drv_name d) (view w1) (view w2)"
      using writesD(1) [OF create_ds c] m put_ds_owned(1) [of "view w1" ?s "drv_name d"]
      by (auto intro: owned_stepI)
    then show ?thesis
      using assms ref g Inl R(1) c
      by (auto simp: sync_daemonset_def Let_def intro: owned_stepI split: if_splits option.splits)
  next
    case (Inr x)
    let ?x = "x\<lparr>ds_spec := ds_spec s\<rparr>"
    have "cl_dss (view w1) (meta_key (ds_meta ?x)) = Some x"
      using R(1) R(2) [OF Inr] wn by (auto dest: well_namedD(3))
    then have put: "owned_step (drv_name d) (view w1) (eff_put_ds ?x (view w1))"
      by (rule put_ds_owned(2)) simp
    obtain w2 q2 where c: "k_update_ds K ?x w1 = (w2, q2)" by (cases "k_update_ds K ?x w1")
    have "owned_step (drv_name d) (view w1) (view w2)"
      using writesD(1) [OF update_ds c] put by (auto intro: owned_stepI)
    then show ?thesis
      using assms ref g Inr R(1) c
      by (auto simp: sync_daemonset_def Let_def split: option.splits)
  qed
qed

text \<open>A stage keeps ownership when its synchronisation does, and so does any list of stages.\<close>

lemma run_stages_owned:
  assumes "\<And>s. s \<in> set ss \<Longrightarrow> stage_owned view n s"
    and "run_stages ss d w = (w', r)" and "well_named (view w)" and "drv_name d = n"
  shows "owned_step n (view w) (view w')"
  using assms
proof (induction ss arbitrary: d w)
  case (Cons s ss)
  obtain w1 r1 where s: "s d w = (w1, r1)" by (cases "s d w")
  have "stage_owned view n s" by (simp add: Cons.prems(1))
  then have 1: "owned_step n (view w) (view w1) \<and> well_named (view w1) \<and>
      (case r1 of Inl d' \<Rightarrow> drv_name d' = n | Inr d' \<Rightarrow> drv_name d' = n)"
    using s Cons.prems(3,4) unfolding stage_owned_def by blast
  show ?case
  proof (cases r1)
    case (Inl d1)
    with 1 s Cons.prems(2) show ?thesis by simp
  next
    case (Inr d1)
    then have "run_stages ss d1 w1 = (w', r)" using Cons.prems(2) s by simp
    from Cons.IH [OF _ this] Cons.prems(1) 1 Inr show ?thesis
      by (auto intro: owned_step_trans)
  qed
qed (simp add: owned_stepI)

lemma component_stage_owned:
  assumes "\<And>d w w' r. sync d w = (w', r) \<Longrightarrow> well_named (view w) \<Longrightarrow>
      owned_step (drv_name d) (view w) (view w') \<and> well_named (view w')"
    and "stage = (\<lambda>d. component_stage K ctype reason msg (enabled d) sync d)"
  shows "stage_owned view n stage"
  unfolding stage_owned_def assms(2)
proof (intro allI impI)
  fix d w w' r
  assume run: "component_stage K ctype reason msg (enabled d) sync d w = (w', r)"
    and wn: "well_named (view w)" and n: "drv_name d = n"
  obtain w1 q where s: "sync d w = (w1, q)" by (cases "sync d w")
  from assms(1) [OF s wn] run wn n s show "owned_step n (view w) (view w') \<and> well_named (view w') \<and>
      (case r of Inl d' \<Rightarrow> drv_name d' = n | Inr d' \<Rightarrow> drv_name d' = n)"
    by (auto simp: component_stage_def owned_stepI split: if_splits option.splits)
qed

lemma managed_in_no_keys: "managed_in {} Ms c c' \<Longrightarrow> cl_dss c' = cl_dss c"
  by (auto simp: managed_in_def fun_eq_iff)

lemma reconcileRetryHandler_owned:
  assumes "reconcileRetryHandler K ns d w = (w', r)" and wn: "well_named (view w)"
  shows "owned_step (drv_name d) (view w) (view w')"
proof -
  obtain w1 q where h: "reconcileSidecarWebhook K ns d w = (w1, q)"
    by (cases "reconcileSidecarWebhook K ns d w")
  have "owned_step (drv_name d) (view w) (view w1)"
    using reconcileSidecarWebhook [OF h wn] by (auto intro: owned_stepI managed_in_no_keys)
  with assms h sync_daemonset_owned [OF _ wn] show ?thesis
    by (auto simp: reconcileRetryHandler_def Let_def intro: owned_stepI
        split: if_splits option.splits)
qed

lemma stages_owned:
  "stage_owned view n (stage_driver_agent K ns)" "stage_owned view n (stage_device_plugin K ns)"
  "stage_owned view n (stage_retry_handler K ns)" "stage_owned view n (stage_metrics_exporter K ns)"
proof -
  have sync: "owned_step (drv_name d) (view w) (view w') \<and> well_named (view w')"
    if "sync_daemonset K d s w = (w', r)" "well_named (view w)" for d s w w' r
    using sync_daemonset [OF that] sync_daemonset_owned [OF that] by simp
  have retry: "owned_step (drv_name d) (view w) (view w') \<and> well_named (view w')"
    if "reconcileRetryHandler K ns d w = (w', r)" "well_named (view w)" for d w w' r
    using reconcileRetryHandler [OF that] reconcileRetryHandler_owned [OF that] by simp
  show "stage_owned view n (stage_driver_agent K ns)"
    by (rule component_stage_owned [OF _ ext [OF stage_driver_agent_def]])
      (simp add: reconcileDriverAgent_def sync)
  show "stage_owned view n (stage_device_plugin K ns)"
    by (rule component_stage_owned [OF _ ext [OF stage_device_plugin_def]])
      (simp add: reconcileDevicePlugin_def sync)
  show "stage_owned view n (stage_retry_handler K ns)"
    by (rule component_stage_owned [OF _ ext [OF stage_retry_handler_def]])
      (rule retry)
  show "stage_owned view n (stage_metrics_exporter K ns)"
    by (rule component_stage_owned [OF _ ext [OF stage_metrics_exporter_def]])
      (simp add: reconcileMetricsExporter_def sync)
qed

lemma reconcile_active_owned:
  assumes "reconcile_active K ns d w = (w', r)" and wn: "well_named (view w)"
  shows "owned_step (drv_name d) (view w) (view w')"
proof -
  let ?d0 = "set_condition K d (mk_condition conditionTypeProgressing ConditionTrue ''Reconciling''
    ''Reconciling CXIDriver resources'')"
  obtain w1 q where g: "reconcile_components K ns ?d0 w = (w1, q)"
    by (cases "reconcile_components K ns ?d0 w")
  have 1: "owned_step (drv_name d) (view w) (view w1)"
    by (rule run_stages_owned [OF _ g [unfolded reconcile_components_def] wn])
      (auto simp: stages_owned)
  have wn1: "well_named (view w1)" using active_components(4) [OF g wn] .
  have "cl_dss (view w') = cl_dss (view w1)"
  proof (cases q)
    case (Inl d1)
    obtain w2 r2 where u: "updateStatusWithRetry K d1 w1 = (w2, r2)"
      by (cases "updateStatusWithRetry K d1 w1")
    with updateStatusWithRetry [OF u wn1] assms(1) g Inl show ?thesis
      by (auto simp: reconcile_active_def Let_def status_written_def status_step_def)
  next
    case (Inr d1)
    obtain w2 r2 where u: "updateStatus K ns d1 w1 = (w2, r2)" by (cases "updateStatus K ns d1 w1")
    have "cl_dss (view w2) = cl_dss (view w1)"
      by (rule updateStatus [OF u wn1]) (simp add: status_written_def status_step_def)
    with u assms(1) g Inr show ?thesis
      by (auto simp: reconcile_active_def Let_def split: option.splits)
  qed
  with 1 show ?thesis by (simp add: owned_step_def)
qed

text \<open>A request that leaves the active branch writes no DaemonSet at all.\<close>

lemma reconcile_owned_step:
  assumes "Reconcile K ns n w = (w', r)" and wn: "well_named (view w)"
  shows "owned_step n (view w) (view w')"
  using assms
proof (cases rule: Reconcile_cases)
  case (gone w1)
  then show ?thesis
    using clear_if_active_frame [of w1 ns n] wn by (auto simp: cm_step_def intro: owned_stepI)
next
  case (deleting d w1)
  then show ?thesis using reconcile_deletion(3) [OF deleting(5)] wn by (simp add: owned_stepI)
next
  case (undecided d w1 e)
  then show ?thesis using isActive(1) [OF undecided(5)] wn by (simp add: cm_step_def owned_stepI)
next
  case (ignored d w1 w2)
  have v: "view w2 = view w" using isActive(4) [OF ignored(5)] ignored(4) wn by simp
  with reconcile_ignored(1) [OF ignored(6)] wn show ?thesis
    by (auto simp: status_written_def status_step_def intro: owned_stepI)
next
  case (finalizer d w1 w2)
  note I = isActive(1,2) [OF finalizer(5)]
  with reconcile_add_finalizer(1) [OF finalizer(7)] finalizer(4) wn show ?thesis
    by (simp add: cm_step_def driver_step_def owned_stepI)
next
  case (active d w1 w2)
  note I = isActive(1,2) [OF active(5)]
  with reconcile_active_owned [OF active(7)] active(2,4) wn show ?thesis
    by (simp add: cm_step_def owned_step_def)
qed (simp add: owned_stepI)

lemma reconcile_owned:
  assumes "Reconcile K ns n w = (w', r)" and "well_named (view w)" and "owned ns (view w)"
  shows "owned ns (view w')"
  using owned_step_keeps [OF assms(3) reconcile_owned_step [OF assms(1,2)]]
    reconcile_safe [OF assms(1,2)] by simp

text \<open>Asking whether a driver is the active one makes that driver active, or nobody.\<close>

lemma isActive_after:
  assumes "isActiveCXIDriver K ns n w = (w', r)" and wn: "well_named (view w)"
  shows "active_of ns (view w') \<in> {active_of ns (view w), n}"
proof -
  obtain w1 q where g: "getActiveCXIDriver K ns w = (w1, q)" by (cases "getActiveCXIDriver K ns w")
  note G = getActive [OF g]
  show ?thesis
  proof (cases q)
    case (Inl e)
    then show ?thesis using assms g G(1) by (auto simp: isActiveCXIDriver_def)
  next
    case (Inr a)
    obtain w2 q2 where s: "setActiveCXIDriver K ns n w1 = (w2, q2)"
      by (cases "setActiveCXIDriver K ns n w1")
    obtain w3 q3 where d: "k_get_driver K a w1 = (w3, q3)" by (cases "k_get_driver K a w1")
    obtain w4 q4 where s2: "setActiveCXIDriver K ns n w3 = (w4, q4)"
      by (cases "setActiveCXIDriver K ns n w3")
    have v: "view w1 = view w" "view w3 = view w" using G(1) readsD(1) [OF get_driver d] by simp_all
    then have S: "active_of ns (view w2) \<in> {active_of ns (view w), n}"
      "active_of ns (view w4) \<in> {active_of ns (view w), n}"
      using setActive [OF s] setActive [OF s2] wn by simp_all
    have "w' \<in> {w1, w2, w3, w4}"
      using assms(1) g Inr s d s2
      by (auto simp: isActiveCXIDriver_def split: if_splits option.splits sum.splits)
    then show ?thesis using v S by auto
  qed
qed

text \<open>A request makes its own driver the active one, or nobody.\<close>

lemma reconcile_active_after:
  assumes "Reconcile K ns n w = (w', r)" and wn: "well_named (view w)"
  shows "active_of ns (view w') \<in> {active_of ns (view w), n, ''''}"
  using assms
proof (cases rule: Reconcile_cases)
  case (gone w1)
  then show ?thesis using clear_if_active_frame [of w1 ns n] wn by auto
next
  case (deleting d w1)
  then show ?thesis using reconcile_deletion(4) [OF deleting(5)] wn by auto
next
  case (undecided d w1 e)
  then show ?thesis using isActive_after [OF undecided(5)] wn by auto
next
  case (ignored d w1 w2)
  have v: "view w2 = view w" using isActive(4) [OF ignored(5)] ignored(4) wn by simp
  with reconcile_ignored(1) [OF ignored(6)] wn show ?thesis
    by (auto dest: status_written_keeps_active [where ns = ns])
next
  case (finalizer d w1 w2)
  note I = isActive(2,3) [OF finalizer(5)]
  then have "active_of ns (view w2) = n" using finalizer(4) wn by simp
  with reconcile_add_finalizer(1) [OF finalizer(7)] I finalizer(4) wn show ?thesis
    by (auto dest: active_of_frame(2) [where ns = ns])
next
  case (active d w1 w2)
  then show ?thesis using active_branch [OF active(5) _ active(7) active(2)] wn by simp
qed simp

end

section \<open>The queue\<close>

text \<open>A request that was served stays pending unless it ended with an empty result.\<close>

definition after_request :: "reconcile_result \<Rightarrow> string \<Rightarrow> string set \<Rightarrow> string set" where
  "after_request r n q = (if r = Done then q - {n} else q)"

text \<open>
  What others may do between requests: anything to drivers and DaemonSets, as long as objects
  stay under their names and no DaemonSet takes the name of a driver's without being controlled
  by it. They leave alone the singleton record and the webhooks, which the controller does not
  watch.
\<close>

definition others_step :: "string \<Rightarrow> cluster \<Rightarrow> cluster \<Rightarrow> bool" where
  "others_step ns c c' \<longleftrightarrow>
     well_named c' \<and> owned ns c' \<and> cl_cms c' (singleton_key ns) = cl_cms c (singleton_key ns) \<and>
     cl_mwcs c' = cl_mwcs c"

type_synonym 'w queue_state = "'w \<times> string set"

text \<open>One request, served with nothing happening beside it.\<close>

definition serve :: "'w k8s \<Rightarrow> ('w \<Rightarrow> cluster) \<Rightarrow> string \<Rightarrow> string \<Rightarrow> 'w queue_state \<Rightarrow> 'w queue_state" where
  "serve K view ns n s =
     (case Reconcile K ns n (fst s) of
        (w, r) \<Rightarrow> (w, after_request r n (snd s) \<union> woken (view (fst s)) (view w)))"

text \<open>Further names may become pending in a step: events of the past that arrive only now.\<close>

inductive queue_step :: "'w k8s \<Rightarrow> ('w \<Rightarrow> cluster) \<Rightarrow> string \<Rightarrow> 'w queue_state \<Rightarrow> 'w queue_state \<Rightarrow> bool"
  for K :: "'w k8s" and view :: "'w \<Rightarrow> cluster" and ns :: string where
  others: "others_step ns (view w) (view w') \<Longrightarrow> woken (view w) (view w') \<subseteq> E \<Longrightarrow>
     queue_step K view ns (w, q) (w', q \<union> E)"
| request: "n \<in> snd s \<Longrightarrow> serve K view ns n s = (w', q') \<Longrightarrow> queue_step K view ns s (w', q' \<union> E)"

text \<open>When the controller starts, every driver is pending.\<close>

inductive queue_reaches :: "'w k8s \<Rightarrow> ('w \<Rightarrow> cluster) \<Rightarrow> string \<Rightarrow> 'w queue_state \<Rightarrow> bool"
  for K :: "'w k8s" and view :: "'w \<Rightarrow> cluster" and ns :: string where
  start: "well_named (view w) \<Longrightarrow> owned ns (view w) \<Longrightarrow> dom (cl_drivers (view w)) \<subseteq> q \<Longrightarrow>
     queue_reaches K view ns (w, q)"
| step: "queue_reaches K view ns s \<Longrightarrow> queue_step K view ns s s' \<Longrightarrow> queue_reaches K view ns s'"

text \<open>Runs of requests during which nobody else touches the cluster.\<close>

inductive serves :: "'w k8s \<Rightarrow> ('w \<Rightarrow> cluster) \<Rightarrow> string \<Rightarrow> 'w queue_state \<Rightarrow> 'w queue_state \<Rightarrow> bool"
  for K :: "'w k8s" and view :: "'w \<Rightarrow> cluster" and ns :: string where
  none: "serves K view ns s s"
| another: "serves K view ns s s' \<Longrightarrow> n \<in> snd s' \<Longrightarrow> serves K view ns s (serve K view ns n s')"

lemma serves_reaches:
  "serves K view ns s s' \<Longrightarrow> queue_reaches K view ns s \<Longrightarrow> queue_reaches K view ns s'"
proof (induction rule: serves.induct)
  case (another s s' n)
  obtain w' q' where s: "serve K view ns n s' = (w', q')" by (cases "serve K view ns n s'")
  from queue_step.request [OF another(2) s, of "{}"] have "queue_step K view ns s' (w', q')" by simp
  with another s show ?case by (metis queue_reaches.step)
qed

text \<open>The objects of one driver are as before.\<close>

definition objects_kept :: "string \<Rightarrow> string \<Rightarrow> cluster \<Rightarrow> cluster \<Rightarrow> bool" where
  "objects_kept ns n c c' \<longleftrightarrow>
     cl_drivers c' n = cl_drivers c n \<and> (\<forall>k \<in> managed_keys ns n. cl_dss c' k = cl_dss c k) \<and>
     cl_mwcs c' (n @ ''-sidecar-injector'') = cl_mwcs c (n @ ''-sidecar-injector'')"

lemma deployed_kept:
  assumes "objects_kept ns (drv_name d) c c'"
  shows "deployed ns d c' = deployed ns d c"
    and "status_reported K ns d c' = status_reported K ns d c"
proof -
  have ds: "has_ds c' s = has_ds c s" if "meta_key (ds_meta s) \<in> managed_keys ns (drv_name d)" for s
    using assms that by (simp add: objects_kept_def has_ds_def)
  have "has_mwc c' (build_sidecar_webhook ns d) = has_mwc c (build_sidecar_webhook ns d)"
    using assms
    by (simp add: objects_kept_def has_mwc_def build_sidecar_webhook_def sidecar_webhook_name_def)
  then show "deployed ns d c' = deployed ns d c"
    by (simp only: deployed_defs Let_def ds [OF key_in_managed(1)] ds [OF key_in_managed(2)]
        ds [OF key_in_managed(3)] ds [OF key_in_managed(4)])
  have "cl_dss c' (ns, drv_name d @ ''-driver-agent'') = cl_dss c (ns, drv_name d @ ''-driver-agent'')"
    using assms by (simp add: objects_kept_def managed_keys_def)
  then show "status_reported K ns d c' = status_reported K ns d c"
    using assms by (simp add: objects_kept_def status_reported_def)
qed

lemma others_keep:
  assumes "others_step ns c c'" and "well_named c" and "owned ns c" and "n \<notin> woken c c'"
  shows "objects_kept ns n c c'" and "active_of ns c' = active_of ns c"
proof -
  show "objects_kept ns n c c'"
    using assms driver_wakes [OF assms(2), of c' n] daemonset_wakes [OF assms(3), of c' _ n]
    unfolding objects_kept_def others_step_def by metis
  show "active_of ns c' = active_of ns c" using assms(1) by (simp add: others_step_def active_of_def)
qed

lemma footprint_keeps: "footprint ns m c c' \<Longrightarrow> m \<noteq> n \<Longrightarrow> objects_kept ns n c c'"
  unfolding footprint_def objects_kept_def by (metis append_same_eq managed_keys_disjoint)

lemma footprint_wakes:
  assumes "footprint ns n c c'" and "well_named c" and "well_named c'" and "owned ns c"
    and "owned ns c'"
  shows "woken c c' \<subseteq> {n}"
proof
  fix m
  assume "m \<in> woken c c'"
  then consider d where "d \<in> versions (cl_drivers c) (cl_drivers c')" "drv_name d = m"
    | s where "s \<in> versions (cl_dss c) (cl_dss c')" "om_controller (ds_meta s) = Some m"
    unfolding woken_iff by blast
  then show "m \<in> {n}"
  proof cases
    case 1
    then obtain k where k: "cl_drivers c k \<noteq> cl_drivers c' k"
      "cl_drivers c k = Some d \<or> cl_drivers c' k = Some d" by (elim versionsE)
    then have "k = n" using assms(1) unfolding footprint_def by metis
    then show ?thesis using k(2) 1(2) assms(2,3) by (auto dest: well_namedD(1))
  next
    case 2
    then obtain k where k: "cl_dss c k \<noteq> cl_dss c' k"
      "cl_dss c k = Some s \<or> cl_dss c' k = Some s" by (elim versionsE)
    then have "k \<in> managed_keys ns n" using assms(1) unfolding footprint_def by metis
    then show ?thesis using k(2) 2(2) assms(4,5) by (auto dest: ownedD)
  qed
qed

section \<open>The invariant of the queue\<close>

definition settled :: "'b k8s_lib_scheme \<Rightarrow> string \<Rightarrow> string set \<Rightarrow> cluster \<Rightarrow> bool" where
  "settled K ns q c \<longleftrightarrow>
     (\<forall>d. cl_drivers c (active_of ns c) = Some d \<longrightarrow> \<not> om_deleting (drv_meta d) \<longrightarrow>
        active_of ns c \<notin> insert '''' q \<longrightarrow> deployed ns d c \<and> status_reported K ns d c)"

lemma settled_kept:
  assumes "settled K ns q c" and "well_named c" and "active_of ns c' = active_of ns c"
    and "active_of ns c \<notin> q' \<Longrightarrow> active_of ns c \<notin> q \<and> objects_kept ns (active_of ns c) c c'"
  shows "settled K ns q' c'"
  unfolding settled_def
proof (intro allI impI, unfold assms(3))
  fix d
  assume d: "cl_drivers c' (active_of ns c) = Some d" "\<not> om_deleting (drv_meta d)"
    "active_of ns c \<notin> insert '''' q'"
  then have kept: "active_of ns c \<notin> q" "objects_kept ns (active_of ns c) c c'"
    using assms(4) by simp_all
  then have dc: "cl_drivers c (active_of ns c) = Some d" using d(1) by (simp add: objects_kept_def)
  then have "drv_name d = active_of ns c" using assms(2) by (auto dest: well_namedD(1))
  with deployed_kept(1) [of ns d c c'] deployed_kept(2) [where K = K and ns = ns and d = d] kept dc d
    assms(1) show "deployed ns d c' \<and> status_reported K ns d c'"
    by (simp add: settled_def)
qed

context k8s_api begin

lemma reconcile_wakes_itself:
  assumes "Reconcile K ns n w = (w', r)" and "well_named (view w)" and "owned ns (view w)"
  shows "woken (view w) (view w') \<subseteq> {n}"
  using footprint_wakes [of ns n "view w" "view w'"] reconcile_safe [OF assms(1,2)]
    reconcile_owned [OF assms] assms by simp

lemma serve_settles:
  assumes run: "Reconcile K ns n w = (w', r)" and wn: "well_named (view w)"
    and own: "owned ns (view w)"
    and "n \<in> q" and "settled K ns q (view w)"
  shows "settled K ns (after_request r n q \<union> woken (view w) (view w') \<union> E) (view w')"
proof (cases "active_of ns (view w') \<in> {n, ''''}")
  case False
  then have "active_of ns (view w') = active_of ns (view w)"
    using reconcile_active_after [OF run wn] by auto
  moreover have "objects_kept ns (active_of ns (view w)) (view w) (view w')"
    using reconcile_safe [OF run wn] False calculation by (auto intro: footprint_keeps)
  ultimately show ?thesis
    using False
    by (intro settled_kept [OF assms(5) wn]) (auto simp: after_request_def split: if_splits)
next
  case True
  show ?thesis
    unfolding settled_def
  proof (intro allI impI)
    fix d
    assume d: "cl_drivers (view w') (active_of ns (view w')) = Some d" "\<not> om_deleting (drv_meta d)"
      "active_of ns (view w') \<notin> insert '''' (after_request r n q \<union> woken (view w) (view w') \<union> E)"
    then have n: "active_of ns (view w') = n" and r: "r = Done" and "n \<notin> woken (view w) (view w')"
      using True \<open>n \<in> q\<close> by (auto simp: after_request_def split: if_splits)
    have "cl_drivers (view w') n = cl_drivers (view w) n"
      using driver_wakes [of "view w" "view w'" n] reconcile_safe [OF run wn] wn
        \<open>n \<notin> woken (view w) (view w')\<close> by blast
    then show "deployed ns d (view w') \<and> status_reported K ns d (view w')"
      using reconcile_done [of ns n w w' d] run wn d n r by simp
  qed
qed

lemma queue_invariant:
  assumes "queue_reaches K view ns s"
  shows "case s of (w, q) \<Rightarrow> well_named (view w) \<and> owned ns (view w) \<and> settled K ns q (view w)"
  using assms
proof induction
  case (start w q)
  then have "active_of ns (view w) \<in> q" if "cl_drivers (view w) (active_of ns (view w)) = Some d" for d
    using that by auto
  with start show ?case by (auto simp: settled_def)
next
  case (step s s')
  from step.hyps(2) step.IH show ?case
  proof cases
    case (others w w' E q)
    then have inv: "well_named (view w)" "owned ns (view w)" "settled K ns q (view w)"
      using step.IH by simp_all
    note F = others_keep [OF others(3) inv(1,2)]
    have "active_of ns (view w') = active_of ns (view w)"
      using others(3) by (simp add: others_step_def active_of_def)
    with F(1) others(4) have "settled K ns (q \<union> E) (view w')"
      by (intro settled_kept [OF inv(3,1)]) auto
    with others(2,3) show ?thesis by (simp add: others_step_def)
  next
    case (request n w' q' E)
    obtain w q where s: "s = (w, q)" by (cases s)
    then have inv: "well_named (view w)" "owned ns (view w)" "settled K ns q (view w)"
      using step.IH by simp_all
    obtain r where r: "Reconcile K ns n w = (w', r)"
      and q': "q' = after_request r n q \<union> woken (view w) (view w')"
      using request(3) s by (auto simp: serve_def split: prod.splits)
    from serve_settles [OF r inv(1,2) _ inv(3), of E] reconcile_safe [OF r inv(1)]
      reconcile_owned [OF r inv(1,2)] request(1,2) s q'
    show ?thesis by simp
  qed
qed

text \<open>A driver nothing is pending for stays as it is, whatever happens to the others.\<close>

lemma unserved_driver_kept:
  assumes "serves K view ns s s'" and "well_named (view (fst s))" and "owned ns (view (fst s))"
    and "m \<notin> snd s"
  shows "m \<notin> snd s' \<and> objects_kept ns m (view (fst s)) (view (fst s')) \<and>
    well_named (view (fst s')) \<and> owned ns (view (fst s'))"
  using assms
proof (induction rule: serves.induct)
  case (none s)
  then show ?case by (simp add: objects_kept_def)
next
  case (another s s' n)
  obtain w' r where r: "Reconcile K ns n (fst s') = (w', r)"
    by (cases "Reconcile K ns n (fst s')")
  have IH: "m \<notin> snd s'" "objects_kept ns m (view (fst s)) (view (fst s'))"
    "well_named (view (fst s'))" "owned ns (view (fst s'))" using another by simp_all
  then have "n \<noteq> m" using another.hyps by auto
  moreover have "objects_kept ns m (view (fst s')) (view w')"
    using reconcile_safe [OF r IH(3)] calculation by (auto intro: footprint_keeps)
  then have "objects_kept ns m (view (fst s)) (view w')" using IH(2) by (simp add: objects_kept_def)
  ultimately show ?case
    using r IH(1) reconcile_safe [OF r IH(3)] reconcile_owned [OF r IH(3,4)]
      reconcile_wakes_itself [OF r IH(3,4)]
    by (auto simp: serve_def after_request_def)
qed

end

section \<open>Concrete runs\<close>

text \<open>The reference server with an empty schedule, one equation for each call.\<close>

lemma ref_calls [simp]:
  "ref_read look (c, []) =
     ((c, []), case look c of None \<Rightarrow> Inl (server_error NotFound) | Some x \<Rightarrow> Inr x)"
  "ref_write missing pre eff (c, []) =
     (if pre c then ((eff c, []), None) else ((c, []), Some (server_error missing)))"
  by (simp_all add: ref_read_def ref_write_def next_fault_def)

lemma ref_ops [simp]:
  "k_get_driver ref_k8s n = ref_read (\<lambda>c. cl_drivers c n)"
  "k_get_cm ref_k8s k = ref_read (\<lambda>c. cl_cms c k)"
  "k_get_ds ref_k8s k = ref_read (\<lambda>c. cl_dss c k)"
  "k_update_driver ref_k8s d =
     ref_write NotFound (\<lambda>c. cl_drivers c (drv_name d) \<noteq> None) (eff_update_driver d)"
  "k_update_driver_status ref_k8s d =
     ref_write NotFound (\<lambda>c. cl_drivers c (drv_name d) \<noteq> None) (eff_update_status d)"
  "k_update_cm ref_k8s m =
     ref_write NotFound (\<lambda>c. cl_cms c (meta_key (cm_meta m)) \<noteq> None) (eff_put_cm m)"
  "k_update_ds ref_k8s s =
     ref_write NotFound (\<lambda>c. cl_dss c (meta_key (ds_meta s)) \<noteq> None) (eff_put_ds s)"
  "k_contains_finalizer ref_k8s om f \<longleftrightarrow> f \<in> set (om_finalizers om)"
  "k_retry_on_conflict ref_k8s = retry_steps 3"
  "k_set_status_condition ref_k8s = ref_set_condition"
  by (simp_all add: ref_k8s_def)

lemma owned_empty [simp]: "cl_dss c = Map.empty \<Longrightarrow> owned ns c"
  by (simp add: owned_def)

text \<open>Driver \<open>a\<close> is active and being deleted; \<open>b\<close> was told that it is ignored.\<close>

definition ignored_b :: CXIDriver where
  "ignored_b =
     (let d = ignored_status ref_k8s (sample_driver ''b'' False [] RetryHandlerModeNone) ''a''
      in d\<lparr>drv_status := (drv_status d)\<lparr>st_observed_generation := 1\<rparr>\<rparr>)"

definition handover :: cluster where
  "handover = sample_cluster
     [sample_driver ''a'' True [cxiDriverFinalizer] RetryHandlerModeNone, ignored_b] ''a''"

definition after_handover :: cluster where
  "after_handover = handover
     \<lparr>cl_drivers := [''b'' \<mapsto> ignored_b],
      cl_cms := [singleton_key ''ops'' \<mapsto> (new_singleton ''ops'' ''a'')\<lparr>cm_data := Map.empty\<rparr>]\<rparr>"

lemma singleton_sel [simp]:
  "meta_key (cm_meta (new_singleton ns n)) = singleton_key ns"
  "cm_data (new_singleton ns n) = [singletonActiveKey \<mapsto> n]"
  by (simp_all add: new_singleton_def meta_key_def singleton_key_def)

lemma ignored_b_simps [simp]:
  "drv_name ignored_b = ''b''" "\<not> om_deleting (drv_meta ignored_b)"
  by (simp_all add: ignored_b_def ignored_status_def Let_def)

lemma handover_simps [simp]:
  "cl_drivers handover =
     [''a'' \<mapsto> sample_driver ''a'' True [cxiDriverFinalizer] RetryHandlerModeNone, ''b'' \<mapsto> ignored_b]"
  "cl_cms handover = [singleton_key ''ops'' \<mapsto> new_singleton ''ops'' ''a'']"
  "cl_dss handover = Map.empty" "cl_mwcs handover = Map.empty" "active_of ''ops'' handover = ''a''" "well_named handover"
  "owned ''ops'' handover"
  unfolding handover_def by (simp_all add: fun_eq_iff) (simp add: sample_cluster_def)+

lemmas request_defs =
  Reconcile_def reconcile_deletion_def cleanupResources_def clear_if_active_def
  active_or_empty_def getActiveCXIDriver_def setActiveCXIDriver_def eff_update_driver_def
  eff_put_cm_def server_error_def IsNotFound_def

lemma serve_a_deletes:
  "Reconcile ref_k8s ''ops'' ''a'' (handover, []) = ((after_handover, []), Done)"
  by (simp add: request_defs sample_cluster_def ref_k8s_def handover_def after_handover_def str_at_def)

lemma serve_a_gone:
  "Reconcile ref_k8s ''ops'' ''a'' (after_handover, []) = ((after_handover, []), Done)"
  by (simp add: request_defs after_handover_def str_at_def)

lemma retry_steps_first: "f w = (w', None) \<Longrightarrow> retry_steps n f w = (w', None)"
  by (cases n) simp_all

text \<open>A status that is already stored: the write changes nothing.\<close>

lemma ref_status_unchanged:
  assumes "cl_drivers c (drv_name d) = Some x" and "drv_status x = drv_status d"
    and "drv_name x = drv_name d"
  shows "updateStatusRetryOnConflict ref_k8s d (c, []) = ((c, []), None)"
proof -
  have "x\<lparr>drv_status := drv_status d\<rparr> = x" unfolding assms(2) [symmetric] by simp
  moreover have "eff_update_status x c = c"
    using assms(1,3) by (simp add: eff_update_status_def fun_upd_idem)
  ultimately have "eff_update_status (x\<lparr>drv_status := drv_status d\<rparr>) c = c" by argo
  then show ?thesis
    using assms unfolding updateStatusRetryOnConflict_def ref_ops
    by (intro retry_steps_first) simp
qed

lemma serve_b_unchanged:
  "Reconcile ref_k8s ''ops'' ''b'' (handover, []) = ((handover, []), Done)"
proof -
  let ?d = "ignored_status ref_k8s ignored_b ''a''"
  have "updateStatusRetryOnConflict ref_k8s
      (?d\<lparr>drv_status := (drv_status ?d)\<lparr>st_observed_generation := om_generation (drv_meta ?d)\<rparr>\<rparr>)
      (handover, []) = ((handover, []), None)"
    by (rule ref_status_unchanged [of _ _ ignored_b])
      (simp_all add: ignored_b_def ignored_status_def set_condition_def with_conditions_def
        ref_set_condition_def mk_condition_def sample_driver_def sample_status_def Let_def)
  then show ?thesis
    by (simp add: request_defs isActiveCXIDriver_def reconcile_ignored_def str_at_def
        updateStatusWithRetry_def Let_def)
qed

text \<open>A cluster in which driver \<open>a\<close> is deployed and its status stored, when the operator starts again.\<close>

definition steady_status :: CXIDriverStatus where
  "steady_status =
     \<lparr>st_observed_generation = 1, st_ready = 0, st_updating = 0, st_failed = 0,
      st_driver_version = ''1.8.3'', st_retry_handler_mode = RetryHandlerModeNone,
      st_webhook_ready = False,
      st_conditions =
        [mk_condition conditionTypeProgressing ConditionTrue ''Reconciling''
           ''Reconciling CXIDriver resources'',
         mk_condition conditionTypeDriverAgentReady ConditionTrue ''Ready''
           ''Driver agent DaemonSet is ready'',
         mk_condition conditionTypeDevicePluginReady ConditionTrue ''Ready''
           ''Device plugin DaemonSet is ready'',
         mk_condition conditionTypeRetryHandlerReady ConditionTrue ''Ready''
           ''Retry handler is ready'',
         mk_condition conditionTypeMetricsExporterReady ConditionTrue ''Ready''
           ''Metrics exporter DaemonSet is ready'',
         mk_condition conditionTypeAvailable ConditionFalse ''WaitingForPods''
           ''Waiting for pods to become ready'']\<rparr>"

definition steady_driver :: CXIDriver where
  "steady_driver =
     (sample_driver ''a'' False [cxiDriverFinalizer] RetryHandlerModeNone)\<lparr>drv_status := steady_status\<rparr>"

definition steady_daemonset :: "DaemonSet \<Rightarrow> DaemonSet" where
  "steady_daemonset s = s\<lparr>ds_meta := (ds_meta s)\<lparr>om_controller := Some ''a''\<rparr>\<rparr>"

definition steady :: cluster where
  "steady = (sample_cluster [steady_driver] ''a'')
     \<lparr>cl_dss := map_of (map (\<lambda>s. (meta_key (ds_meta s), steady_daemonset s))
        [buildDriverAgentDaemonSet ''ops'' steady_driver,
         buildDevicePluginDaemonSet ''ops'' steady_driver,
         buildMetricsExporterDaemonSet ''ops'' steady_driver])\<rparr>"

lemma steady_driver_simps [simp]:
  "drv_name steady_driver = ''a''" "\<not> om_deleting (drv_meta steady_driver)"
  "drv_spec steady_driver = sample_spec RetryHandlerModeNone"
  "drv_status steady_driver = steady_status"
  "om_finalizers (drv_meta steady_driver) = [cxiDriverFinalizer]"
  "om_generation (drv_meta steady_driver) = 1"
  by (simp_all add: steady_driver_def sample_driver_def)

lemma steady_simps [simp]:
  "cl_drivers steady = [''a'' \<mapsto> steady_driver]"
  "cl_cms steady = [singleton_key ''ops'' \<mapsto> new_singleton ''ops'' ''a'']"
  "active_of ''ops'' steady = ''a''"
  by (simp_all add: steady_def active_of_def sample_cluster_def str_at_def)

lemma steady_daemonset_simps [simp]:
  "meta_key (ds_meta (steady_daemonset s)) = meta_key (ds_meta s)"
  "ds_spec (steady_daemonset s) = ds_spec s"
  "om_controller (ds_meta (steady_daemonset s)) = Some ''a''"
  by (simp_all add: steady_daemonset_def meta_key_def)

lemma steady_has:
  "cl_dss steady (meta_key (ds_meta (buildDriverAgentDaemonSet ''ops'' steady_driver))) =
     Some (steady_daemonset (buildDriverAgentDaemonSet ''ops'' steady_driver))"
  "cl_dss steady (meta_key (ds_meta (buildDevicePluginDaemonSet ''ops'' steady_driver))) =
     Some (steady_daemonset (buildDevicePluginDaemonSet ''ops'' steady_driver))"
  "cl_dss steady (meta_key (ds_meta (buildMetricsExporterDaemonSet ''ops'' steady_driver))) =
     Some (steady_daemonset (buildMetricsExporterDaemonSet ''ops'' steady_driver))"
  by (simp_all add: steady_def meta_key_def)

lemma steady_ok [simp]: "well_named steady" "owned ''ops'' steady"
proof -
  have ds: "\<exists>t. s = steady_daemonset t \<and> meta_key (ds_meta t) = k" if "cl_dss steady k = Some s" for k s
    using that by (auto simp: steady_def simp del: builder_meta split: if_splits)
  then show "owned ''ops'' steady"
    unfolding owned_def
    by (fastforce simp: steady_def managed_keys_def meta_key_def split: if_splits)
  show "well_named steady"
    using sample_well_named [of "[steady_driver]" "''a''"] ds
    unfolding well_named_def by (fastforce simp: steady_def)
qed

lemma ref_sync_unchanged:
  assumes "cl_dss c (meta_key (ds_meta s)) = Some x" and "ds_spec x = ds_spec s"
    and "meta_key (ds_meta x) = meta_key (ds_meta s)" and "om_controller (ds_meta s) = None"
  shows "sync_daemonset ref_k8s d s (c, []) = ((c, []), None)"
proof -
  have "x\<lparr>ds_spec := ds_spec s\<rparr> = x" unfolding assms(2) [symmetric] by simp
  moreover have "eff_put_ds x c = c" using assms(1,3) by (simp add: eff_put_ds_def fun_upd_idem)
  ultimately have 1: "eff_put_ds (x\<lparr>ds_spec := ds_spec s\<rparr>) c = c" by argo
  have 2: "k_set_controller_reference ref_k8s d (ds_meta s) =
      Inr ((ds_meta s)\<lparr>om_controller := Some (drv_name d)\<rparr>)"
    using assms(4) by (simp add: ref_k8s_def)
  have 3: "meta_key ((ds_meta s)\<lparr>om_controller := Some (drv_name d)\<rparr>) = meta_key (ds_meta s)"
    by (simp add: meta_key_def)
  show ?thesis
    unfolding sync_daemonset_def 2
    using assms(1,3) 1 by (simp add: 3 Let_def)
qed

lemma steady_agent:
  "\<exists>s. cl_dss steady (''ops'', ''a-driver-agent'') = Some s \<and> ds_status s = no_status"
  using steady_has(1)
  by (simp add: meta_key_def steady_daemonset_def buildDriverAgentDaemonSet_def Let_def)

lemma steady_run: "Reconcile ref_k8s ''ops'' ''a'' (steady, []) = ((steady, []), Done)"
proof -
  have sync: "sync_daemonset ref_k8s d (buildDriverAgentDaemonSet ''ops'' e) (steady, []) = ((steady, []), None)"
    "sync_daemonset ref_k8s d (buildDevicePluginDaemonSet ''ops'' e) (steady, []) = ((steady, []), None)"
    "sync_daemonset ref_k8s d (buildMetricsExporterDaemonSet ''ops'' e) (steady, []) = ((steady, []), None)"
    if "same_object steady_driver e" for d e
    using same_object_builders(1-4) [OF that, of "''ops''"] steady_has
    by (auto intro!: ref_sync_unchanged)
  obtain s where s: "cl_dss steady (''ops'', ''a-driver-agent'') = Some s" "ds_status s = no_status"
    using steady_agent by blast
  have status: "updateStatusRetryOnConflict ref_k8s (computeStatus ref_k8s
      (setComponentCondition ref_k8s (setComponentCondition ref_k8s (setComponentCondition ref_k8s
        (setComponentCondition ref_k8s (set_condition ref_k8s steady_driver
          (mk_condition conditionTypeProgressing ConditionTrue ''Reconciling''
             ''Reconciling CXIDriver resources''))
          conditionTypeDriverAgentReady True ''Ready'' ''Driver agent DaemonSet is ready'')
          conditionTypeDevicePluginReady True ''Ready'' ''Device plugin DaemonSet is ready'')
          conditionTypeRetryHandlerReady True ''Ready'' ''Retry handler is ready'')
          conditionTypeMetricsExporterReady True ''Ready'' ''Metrics exporter DaemonSet is ready'') 0 0 0)
      (steady, []) = ((steady, []), None)"
    by (rule ref_status_unchanged [of _ _ steady_driver])
      (simp_all add: computeStatus_def status_fields_def setComponentCondition_def set_condition_def
        with_conditions_def ref_set_condition_def mk_condition_def steady_status_def sample_spec_def)
  show ?thesis
    by (simp add: request_defs isActiveCXIDriver_def str_at_def reconcile_active_def
        reconcile_components_def component_stage_def stage_driver_agent_def stage_device_plugin_def
        stage_retry_handler_def stage_metrics_exporter_def reconcileDriverAgent_def
        reconcileDevicePlugin_def reconcileMetricsExporter_def reconcileRetryHandler_def sync
        same_object_def sample_spec_def Let_def updateStatus_def node_counts_def s no_status_def status)
qed

section \<open>Properties\<close>



text \<open>
  C16: A request wakes nobody else. While only requests are served, a driver without a pending
  request never gets one and none of its objects change. So a driver that was told it is ignored
  stays ignored when the active driver is deleted: the reachable state of the witness has no
  active driver, no pending request, and a live driver that is not deployed.
\<close>

theorem requests_wake_no_other_driver:
  assumes "k8s_api K view" and "serves K view ns s s'" and "well_named (view (fst s))"
    and "owned ns (view (fst s))" and "m \<notin> snd s"
  shows "m \<notin> snd s' \<and> objects_kept ns m (view (fst s)) (view (fst s'))"
  using k8s_api.unserved_driver_kept [OF assms] by simp

theorem requests_wake_no_other_driver_witness:
  "\<exists>s. queue_reaches ref_k8s fst ''ops'' s \<and> snd s = {} \<and> active_of ''ops'' (fst (fst s)) = '''' \<and>
     cl_drivers (fst (fst s)) ''b'' = Some ignored_b \<and> \<not> deployed ''ops'' ignored_b (fst (fst s))"
proof -
  let ?s0 = "((handover, []), {''a'', ''b''})" and ?s1 = "((handover, []), {''a''})"
  let ?s2 = "((after_handover, []), {''a''})" and ?s3 = "((after_handover, []), {})"
  have b: "serve ref_k8s fst ''ops'' ''b'' ?s0 = ?s1"
    by (auto simp: serve_def serve_b_unchanged after_request_def woken_iff)
  have "woken handover after_handover \<subseteq> {''a''}"
    using ref.reconcile_wakes_itself [OF serve_a_deletes] by simp
  moreover have "''a'' \<in> woken handover after_handover"
    using ref.reconcile_safe [OF serve_a_deletes]
    by (intro driver_wakes) (simp_all add: after_handover_def)
  ultimately have a1: "serve ref_k8s fst ''ops'' ''a'' ?s1 = ?s2"
    by (auto simp: serve_def serve_a_deletes after_request_def)
  have a2: "serve ref_k8s fst ''ops'' ''a'' ?s2 = ?s3"
    by (auto simp: serve_def serve_a_gone after_request_def woken_iff)
  have start: "queue_reaches ref_k8s fst ''ops'' ?s0"
    by (rule queue_reaches.start) auto
  note R = serves.another [where K = ref_k8s and view = fst and ns = "''ops''"]
  have 1: "serves ref_k8s fst ''ops'' ?s0 ?s1" using R [OF serves.none, of "''b''" ?s0] b by simp
  have 2: "serves ref_k8s fst ''ops'' ?s1 ?s3"
    using R [OF R [OF serves.none, of "''a''" ?s1], of "''a''"] a1 a2 by simp
  from requests_wake_no_other_driver [OF ref_api 2, of "''b''"]
  have "cl_drivers after_handover ''b'' = Some ignored_b" by (simp add: objects_kept_def)
  moreover have "queue_reaches ref_k8s fst ''ops'' ?s3"
    using serves_reaches [OF 2 serves_reaches [OF 1 start]] .
  ultimately show ?thesis
    by (intro exI [of _ ?s3]) (simp add: deployed_def has_ds_def after_handover_def active_of_def str_at_def)
qed

end
