(* ===== verification/Validator.thy ===== *)
theory Validator
  imports GoFlag Manifests
begin

text \<open>
  The validating webhook of \<open>CXIDriver\<close> (\<open>pkg/webhook/cxidriver_validator.go\<close>): the errors and
  warnings in the order the source appends them, and the answer. The decoder is a parameter of
  \<open>Handle\<close>. The text of a duration's parse error is a parameter, too.
\<close>

section \<open>The version pattern\<close>

text \<open>
  \<open>^v?(\d+)\.(\d+)\.(\d+)(-[a-zA-Z0-9.-]+)?(\+[a-zA-Z0-9.-]+)?$\<close>: each part takes as much as it can,
  which loses no match as no part can start with a character the one before may hold.
\<close>

definition is_tag_char :: "char \<Rightarrow> bool" where
  "is_tag_char c \<longleftrightarrow>
     (let n = of_char c :: int in
      (97 \<le> n \<and> n \<le> 122) \<or> (65 \<le> n \<and> n \<le> 90) \<or> (48 \<le> n \<and> n \<le> 57) \<or> c = CHR ''.'' \<or> c = CHR ''-'')"

definition eat_plus :: "(char \<Rightarrow> bool) \<Rightarrow> string \<Rightarrow> string option" where
  "eat_plus P s = (if s \<noteq> [] \<and> P (hd s) then Some (dropWhile P s) else None)"

definition eat_char :: "char \<Rightarrow> string \<Rightarrow> string option" where
  "eat_char c s = (if s \<noteq> [] \<and> hd s = c then Some (tl s) else None)"

definition eat_tag :: "char \<Rightarrow> string \<Rightarrow> string option" where
  "eat_tag c s =
     (case eat_char c s of None \<Rightarrow> Some s
      | Some r \<Rightarrow> eat_plus is_tag_char r)"

definition semver_match :: "string \<Rightarrow> bool" where
  "semver_match s =
     (let s0 = (case eat_char CHR ''v'' s of None \<Rightarrow> s | Some r \<Rightarrow> r) in
      case eat_plus is_digit s0 of None \<Rightarrow> False | Some s1 \<Rightarrow>
      case eat_char CHR ''.'' s1 of None \<Rightarrow> False | Some s2 \<Rightarrow>
      case eat_plus is_digit s2 of None \<Rightarrow> False | Some s3 \<Rightarrow>
      case eat_char CHR ''.'' s3 of None \<Rightarrow> False | Some s4 \<Rightarrow>
      case eat_plus is_digit s4 of None \<Rightarrow> False | Some s5 \<Rightarrow>
      case eat_tag CHR ''-'' s5 of None \<Rightarrow> False | Some s6 \<Rightarrow>
      case eat_tag CHR ''+'' s6 of None \<Rightarrow> False | Some s7 \<Rightarrow> s7 = [])"

section \<open>Errors and warnings\<close>

definition single_quoted :: "string \<Rightarrow> string" where
  "single_quoted s = [CHR 0x27] @ s @ [CHR 0x27]"

definition version_errors :: "CXIDriverSpec \<Rightarrow> string list" where
  "version_errors s = (if spec_version s = '''' then [''spec.version is required''] else [])"

definition version_warnings :: "CXIDriverSpec \<Rightarrow> string list" where
  "version_warnings s =
     (if spec_version s \<noteq> '''' \<and> \<not> semver_match (spec_version s)
      then [''spec.version '' @ quote (spec_version s) @ '' does not follow semver format (e.g., 1.8.3)'']
      else [])"

definition source_errors :: "DriverSourceSpec \<Rightarrow> string list" where
  "source_errors s =
     (if src_type s = DriverSourceDKMS then
        (if src_repository s = '''' then [''spec.source.repository is required when source.type is '' @ single_quoted ''dkms''] else [])
      else if src_type s = DriverSourcePrebuilt then
        (if src_prebuilt_cache s = ''''
         then [''spec.source.prebuiltCache is required when source.type is '' @ single_quoted ''prebuilt''] else [])
      else if src_type s = DriverSourcePreinstalled \<or> src_type s = '''' then []
      else [''spec.source.type must be one of: dkms, prebuilt, preinstalled (got '' @ quote (src_type s) @ '')''])"

definition retry_errors :: "RetryHandlerSpec \<Rightarrow> string list" where
  "retry_errors r =
     (if \<not> rh_enabled r then []
      else if rh_mode r \<in> {RetryHandlerModeDaemonSet, RetryHandlerModeSidecar, RetryHandlerModeKernel,
             RetryHandlerModeNone, ''''} then []
      else [''spec.retryHandler.mode must be one of: daemonset, sidecar, kernel, none (got '' @
            quote (rh_mode r) @ '')''])"

definition retry_warnings :: "RetryHandlerSpec \<Rightarrow> string list" where
  "retry_warnings r =
     (if rh_enabled r \<and> rh_mode r = RetryHandlerModeSidecar \<and> rh_sidecar r = None
      then [''spec.retryHandler.sidecar is not configured; using defaults''] else [])"

definition plugin_errors :: "DevicePluginSpec \<Rightarrow> string list" where
  "plugin_errors p =
     (if \<not> dp_enabled p then []
      else (if dp_sharing_mode p \<in> {DeviceSharingModeShared, DeviceSharingModeExclusive, ''''} then []
            else [''spec.devicePlugin.sharingMode must be one of: shared, exclusive (got '' @
                  quote (dp_sharing_mode p) @ '')'']) @
           (if sint (dp_shared_capacity p) < 1 \<and> dp_sharing_mode p = DeviceSharingModeShared
            then [''spec.devicePlugin.sharedCapacity must be at least 1 when sharingMode is '' @ single_quoted ''shared'']
            else []))"

definition plugin_warnings :: "DevicePluginSpec \<Rightarrow> string list" where
  "plugin_warnings p =
     (if dp_enabled p \<and> 1000 < sint (dp_shared_capacity p)
      then [''spec.devicePlugin.sharedCapacity='' @ sprint_i32 (dp_shared_capacity p) @
            '' is very high; consider if this is intentional''] else [])"

definition timeout_errors :: "(string \<Rightarrow> string) \<Rightarrow> UpdateStrategySpec \<Rightarrow> string list" where
  "timeout_errors err_text u =
     (if us_health_check_timeout u = '''' then []
      else (case ParseDuration (us_health_check_timeout u) of
              Some _ \<Rightarrow> []
            | None \<Rightarrow> [''spec.updateStrategy.healthCheckTimeout is not a valid duration: '' @
                       err_text (us_health_check_timeout u)]))"

definition conflict_warnings :: "CXIDriverSpec \<Rightarrow> string list" where
  "conflict_warnings s =
     (if rh_mode (spec_retry_handler s) = RetryHandlerModeKernel \<and>
         src_type (spec_source s) = DriverSourcePreinstalled
      then [''kernel retry handler mode requires driver to be built with CONFIG_CXI_RETRY_HANDLER=y'']
      else [])"

definition update_warnings :: "CXIDriverSpec \<Rightarrow> CXIDriverSpec \<Rightarrow> string list" where
  "update_warnings old new =
     (let o_name = dp_resource_name (spec_device_plugin old); n_name = dp_resource_name (spec_device_plugin new);
          o_mode = rh_mode (spec_retry_handler old); n_mode = rh_mode (spec_retry_handler new)
      in (if o_name \<noteq> '''' \<and> n_name \<noteq> o_name
          then [''changing devicePlugin.resourceName from '' @ quote o_name @ '' to '' @ quote n_name @
                '' will require workloads to be updated''] else []) @
         (if o_mode \<noteq> '''' \<and> n_mode \<noteq> o_mode
          then [''changing retryHandler.mode from '' @ quote o_mode @ '' to '' @ quote n_mode @
                '' may disrupt running workloads''] else []))"

section \<open>The answer\<close>

text \<open>A request carries the new object and, for an update, the old one.\<close>

record 'r AdmissionRequest =
  req_update :: bool
  req_object :: 'r
  req_old :: 'r

datatype validation_response = ValidationErrored int string | Denied string | Allowed "string list"

definition spec_errors :: "(string \<Rightarrow> string) \<Rightarrow> CXIDriverSpec \<Rightarrow> string list" where
  "spec_errors err_text s =
     version_errors s @ source_errors (spec_source s) @ retry_errors (spec_retry_handler s) @
     plugin_errors (spec_device_plugin s) @ timeout_errors err_text (spec_update_strategy s)"

definition spec_warnings :: "CXIDriverSpec \<Rightarrow> CXIDriverSpec option \<Rightarrow> string list" where
  "spec_warnings s old =
     version_warnings s @ retry_warnings (spec_retry_handler s) @ plugin_warnings (spec_device_plugin s) @
     conflict_warnings s @ (case old of None \<Rightarrow> [] | Some o_spec \<Rightarrow> update_warnings o_spec s)"

fun join_space :: "string list \<Rightarrow> string" where
  "join_space [] = ''''"
| "join_space [s] = s"
| "join_space (s # t # ss) = s @ '' '' @ join_space (t # ss)"

definition Handle_driver ::
  "('r \<Rightarrow> string + CXIDriver) \<Rightarrow> (string \<Rightarrow> string) \<Rightarrow> 'r AdmissionRequest \<Rightarrow> validation_response" where
  "Handle_driver decode err_text req =
     (case decode (req_object req) of
        Inl e \<Rightarrow> ValidationErrored 400 e
      | Inr d \<Rightarrow>
          let old = (if req_update req then (case decode (req_old req) of Inl _ \<Rightarrow> None | Inr o_drv \<Rightarrow> Some (drv_spec o_drv))
                     else None);
              errs = spec_errors err_text (drv_spec d);
              warnings = spec_warnings (drv_spec d) old
          in if errs \<noteq> [] then Denied (''validation failed: ['' @ join_space errs @ '']'')
             else Allowed warnings)"

section \<open>The version pattern, declaratively\<close>

definition digits :: "string \<Rightarrow> bool" where
  "digits x \<longleftrightarrow> x \<noteq> [] \<and> (\<forall>c\<in>set x. is_digit c)"

definition tag :: "char \<Rightarrow> string \<Rightarrow> bool" where
  "tag ch t \<longleftrightarrow> t = [] \<or> (\<exists>r. t = ch # r \<and> r \<noteq> [] \<and> (\<forall>c\<in>set r. is_tag_char c))"

lemma eat_plusI:
  assumes "x \<noteq> []" "\<forall>c\<in>set x. P c" "y = [] \<or> \<not> P (hd y)"
  shows "eat_plus P (x @ y) = Some y"
proof -
  have "dropWhile P (x @ y) = dropWhile P y" using assms(2) by (simp add: dropWhile_append2)
  also have "\<dots> = y" using assms(3) by (cases y) auto
  finally show ?thesis using assms(1,2) by (cases x) (simp_all add: eat_plus_def)
qed

lemma eat_plusD: "eat_plus P s = Some r \<Longrightarrow> \<exists>x. s = x @ r \<and> x \<noteq> [] \<and> (\<forall>c\<in>set x. P c)"
  by (intro exI [of _ "takeWhile P s"])
    (cases s; auto simp: eat_plus_def dest: set_takeWhileD split: if_splits)

lemma eat_char_Some: "eat_char c s = Some r \<longleftrightarrow> s = c # r"
  by (cases s) (auto simp: eat_char_def)

lemma eat_char_None: "eat_char c s = None \<longleftrightarrow> s = [] \<or> hd s \<noteq> c"
  by (cases s) (auto simp: eat_char_def)

lemma eat_tagI:
  assumes "tag ch t" and "y = [] \<or> (\<not> is_tag_char (hd y) \<and> hd y \<noteq> ch)"
  shows "eat_tag ch (t @ y) = Some y"
proof (cases t)
  case Nil
  then have "eat_char ch (t @ y) = None" using assms(2) by (auto simp: eat_char_None)
  then show ?thesis using Nil by (simp add: eat_tag_def)
next
  case (Cons c r)
  then have r: "c = ch" "r \<noteq> []" "\<forall>c\<in>set r. is_tag_char c" using assms(1) by (auto simp: tag_def)
  then have "eat_char ch (t @ y) = Some (r @ y)" using Cons by (simp add: eat_char_Some)
  then show ?thesis using eat_plusI [OF r(2,3)] assms(2) by (auto simp: eat_tag_def)
qed

lemma eat_tagD: "eat_tag ch s = Some r \<Longrightarrow> \<exists>t. s = t @ r \<and> tag ch t"
  by (auto simp: eat_tag_def eat_char_Some tag_def split: option.splits dest!: eat_plusD)

lemma char_classes [simp]:
  "\<not> is_digit CHR ''.''" "\<not> is_digit CHR ''-''" "\<not> is_digit CHR ''+''" "\<not> is_digit CHR ''v''"
  "\<not> is_tag_char CHR ''+''"
  by (simp_all add: is_digit_def is_tag_char_def)

lemma tag_head: "tag ch t \<Longrightarrow> t = [] \<or> hd t = ch"
  by (auto simp: tag_def)

text \<open>
  The matcher accepts exactly the strings the regular expression describes.
\<close>

lemma semver_match_iff:
  "semver_match s \<longleftrightarrow>
     (\<exists>v a b c t u. v \<in> {'''', ''v''} \<and> digits a \<and> digits b \<and> digits c \<and> tag CHR ''-'' t \<and>
        tag CHR ''+'' u \<and> s = v @ a @ ''.'' @ b @ ''.'' @ c @ t @ u)"
  (is "?l \<longleftrightarrow> ?r")
proof
  assume ?l
  define s0 where "s0 = (case eat_char CHR ''v'' s of None \<Rightarrow> s | Some r \<Rightarrow> r)"
  obtain v where v: "s = v @ s0" "v \<in> {'''', ''v''}"
  proof (cases "eat_char CHR ''v'' s")
    case (Some r)
    then have "s0 = r" "s = CHR ''v'' # r" by (simp_all add: s0_def flip: eat_char_Some)
    then show ?thesis using that [of "''v''"] by simp
  qed (use that [of "[]"] in \<open>simp add: s0_def\<close>)
  from \<open>?l\<close> obtain s1 s2 s3 s4 s5 s6 where e:
    "eat_plus is_digit s0 = Some s1" "eat_char CHR ''.'' s1 = Some s2" "eat_plus is_digit s2 = Some s3"
    "eat_char CHR ''.'' s3 = Some s4" "eat_plus is_digit s4 = Some s5"
    "eat_tag CHR ''-'' s5 = Some s6" "eat_tag CHR ''+'' s6 = Some []"
    by (auto simp: semver_match_def s0_def Let_def split: option.splits)
  obtain a b c where d: "s0 = a @ s1" "digits a" "s2 = b @ s3" "digits b" "s4 = c @ s5" "digits c"
    using eat_plusD [OF e(1)] eat_plusD [OF e(3)] eat_plusD [OF e(5)] unfolding digits_def by blast
  obtain t u where t: "s5 = t @ s6" "tag CHR ''-'' t" "s6 = u" "tag CHR ''+'' u"
    using eat_tagD [OF e(6)] eat_tagD [OF e(7)] by auto
  have "s = v @ a @ ''.'' @ b @ ''.'' @ c @ t @ u"
    using v(1) d(1,3,5) t(1,3) e(2,4) by (simp add: eat_char_Some)
  with v(2) d(2,4,6) t(2,4) show ?r by blast
next
  assume ?r
  then obtain v a b c t u where p: "v \<in> {'''', ''v''}" "digits a" "digits b" "digits c"
    "tag CHR ''-'' t" "tag CHR ''+'' u" "s = v @ a @ ''.'' @ b @ ''.'' @ c @ t @ u" by blast
  have "hd a \<noteq> CHR ''v''" using p(2) char_classes(4) unfolding digits_def by (metis hd_in_set)
  then have s0: "(case eat_char CHR ''v'' s of None \<Rightarrow> s | Some r \<Rightarrow> r) = a @ ''.'' @ b @ ''.'' @ c @ t @ u"
    using p(1,2,7) by (auto simp: eat_char_def digits_def)
  have tail: "t @ u = [] \<or> \<not> is_digit (hd (t @ u))"
    using tag_head [OF p(5)] tag_head [OF p(6)] by (cases t; cases u) auto
  have u: "u = [] \<or> (\<not> is_tag_char (hd u) \<and> hd u \<noteq> CHR ''-'')" using tag_head [OF p(6)] by auto
  have "eat_plus is_digit (a @ ''.'' @ b @ ''.'' @ c @ t @ u) = Some (''.'' @ b @ ''.'' @ c @ t @ u)"
    "eat_plus is_digit (b @ ''.'' @ c @ t @ u) = Some (''.'' @ c @ t @ u)"
    "eat_plus is_digit (c @ t @ u) = Some (t @ u)"
    using p(2-4) tail unfolding digits_def by (auto intro!: eat_plusI)
  moreover have "eat_tag CHR ''-'' (t @ u) = Some u" by (rule eat_tagI [OF p(5) u])
  moreover have "eat_tag CHR ''+'' u = Some []" using eat_tagI [OF p(6), of "[]"] by simp
  ultimately show ?l unfolding semver_match_def s0 Let_def by (simp add: eat_char_def)
qed

section \<open>Which drivers are admitted\<close>

text \<open>What the errors amount to, as one condition on the specification.\<close>

definition valid_spec :: "CXIDriverSpec \<Rightarrow> bool" where
  "valid_spec s \<longleftrightarrow>
     spec_version s \<noteq> '''' \<and>
     src_type (spec_source s) \<in> {'''', DriverSourceDKMS, DriverSourcePrebuilt, DriverSourcePreinstalled} \<and>
     (src_type (spec_source s) = DriverSourceDKMS \<longrightarrow> src_repository (spec_source s) \<noteq> '''') \<and>
     (src_type (spec_source s) = DriverSourcePrebuilt \<longrightarrow> src_prebuilt_cache (spec_source s) \<noteq> '''') \<and>
     (rh_enabled (spec_retry_handler s) \<longrightarrow>
        rh_mode (spec_retry_handler s) \<in> {'''', RetryHandlerModeDaemonSet, RetryHandlerModeSidecar,
          RetryHandlerModeKernel, RetryHandlerModeNone}) \<and>
     (dp_enabled (spec_device_plugin s) \<longrightarrow>
        dp_sharing_mode (spec_device_plugin s) \<in> {'''', DeviceSharingModeShared, DeviceSharingModeExclusive} \<and>
        (dp_sharing_mode (spec_device_plugin s) = DeviceSharingModeShared \<longrightarrow>
           1 \<le> sint (dp_shared_capacity (spec_device_plugin s)))) \<and>
     (us_health_check_timeout (spec_update_strategy s) = '''' \<or>
      ParseDuration (us_health_check_timeout (spec_update_strategy s)) \<noteq> None)"

lemma part_errors:
  "version_errors s = [] \<longleftrightarrow> spec_version s \<noteq> ''''"
  "source_errors src = [] \<longleftrightarrow>
     src_type src \<in> {'''', DriverSourceDKMS, DriverSourcePrebuilt, DriverSourcePreinstalled} \<and>
     (src_type src = DriverSourceDKMS \<longrightarrow> src_repository src \<noteq> '''') \<and>
     (src_type src = DriverSourcePrebuilt \<longrightarrow> src_prebuilt_cache src \<noteq> '''')"
  "retry_errors r = [] \<longleftrightarrow> (rh_enabled r \<longrightarrow>
     rh_mode r \<in> {'''', RetryHandlerModeDaemonSet, RetryHandlerModeSidecar, RetryHandlerModeKernel,
       RetryHandlerModeNone})"
  "plugin_errors p = [] \<longleftrightarrow> (dp_enabled p \<longrightarrow>
     dp_sharing_mode p \<in> {'''', DeviceSharingModeShared, DeviceSharingModeExclusive} \<and>
     (dp_sharing_mode p = DeviceSharingModeShared \<longrightarrow> 1 \<le> sint (dp_shared_capacity p)))"
  "timeout_errors t u = [] \<longleftrightarrow>
     us_health_check_timeout u = '''' \<or> ParseDuration (us_health_check_timeout u) \<noteq> None"
  by (auto simp: version_errors_def source_errors_def retry_errors_def plugin_errors_def
      timeout_errors_def split: option.splits)

lemma spec_errors_iff: "spec_errors t s = [] \<longleftrightarrow> valid_spec s"
  by (simp add: spec_errors_def valid_spec_def part_errors)


definition sample_driver_spec :: "DriverSourceSpec \<Rightarrow> CXIDriverSpec" where
  "sample_driver_spec src =
     \<lparr>spec_version = ''1.8.3'', spec_source = src,
      spec_retry_handler = \<lparr>rh_enabled = True, rh_mode = RetryHandlerModeDaemonSet, rh_image = '''',
        rh_daemonset = None, rh_sidecar = None\<rparr>,
      spec_device_plugin = \<lparr>dp_enabled = True, dp_resource_name = ''hpe.com/cxi'', dp_image = '''',
        dp_sharing_mode = DeviceSharingModeShared, dp_shared_capacity = 100\<rparr>,
      spec_metrics_exporter = \<lparr>me_enabled = False, me_image = '''', me_port = 0,
        me_resources = no_resources\<rparr>,
      spec_node_selector = Map.empty,
      spec_update_strategy = \<lparr>us_type = '''', us_max_unavailable = '''', us_rollback_on_failure = False,
        us_health_check_timeout = ''''\<rparr>\<rparr>"

definition driver_of :: "CXIDriverSpec \<Rightarrow> CXIDriver" where
  "driver_of s =
     \<lparr>drv_meta = new_meta ''cxi'' '''' Map.empty, drv_spec = s,
      drv_status = \<lparr>st_observed_generation = 0, st_ready = 0, st_updating = 0, st_failed = 0,
        st_driver_version = '''', st_retry_handler_mode = '''', st_webhook_ready = False,
        st_conditions = []\<rparr>\<rparr>"


text \<open>
  A DKMS source named by its tag alone is refused. The API's \<open>dkms\<close> block (tag, platform,
  repositories) plays no part in the decision: without the old \<open>repository\<close> field the driver is
  denied, although the README recommends exactly that configuration.
\<close>

lemma dkms_tag_alone_is_denied:
  assumes "decode (req_object req) = Inr d"
    and "src_type (spec_source (drv_spec d)) = DriverSourceDKMS"
    and "src_repository (spec_source (drv_spec d)) = ''''"
  shows "\<exists>msg. Handle_driver decode err_text req = Denied msg"
proof -
  have "spec_errors err_text (drv_spec d) \<noteq> []"
    using assms(2,3) by (simp add: spec_errors_def source_errors_def)
  then show ?thesis using assms(1) by (simp add: Handle_driver_def Let_def)
qed

end
