(* ===== verification/Settling.thy ===== *)
theory Settling
  imports ReconcilerProps Validator
begin

text \<open>
  Reconciliation is level-triggered: with an API server that answers, repeating a request ends in a
  state that further repetitions leave alone. The conditions of the status are set through library
  functions of which only the lookups are known, so statuses are compared by what can be read.
\<close>

section \<open>States that cannot be told apart\<close>

definition same_status :: "CXIDriverStatus \<Rightarrow> CXIDriverStatus \<Rightarrow> bool" where
  "same_status s s' \<longleftrightarrow>
     s'\<lparr>st_conditions := []\<rparr> = s\<lparr>st_conditions := []\<rparr> \<and>
     (\<forall>t. find_condition (st_conditions s') t = find_condition (st_conditions s) t)"

definition same_driver :: "CXIDriver \<Rightarrow> CXIDriver \<Rightarrow> bool" where
  "same_driver d d' \<longleftrightarrow> same_object d d' \<and> same_status (drv_status d) (drv_status d')"

definition same_state :: "cluster \<Rightarrow> cluster \<Rightarrow> bool" where
  "same_state c c' \<longleftrightarrow>
     cl_cms c' = cl_cms c \<and> cl_dss c' = cl_dss c \<and> cl_mwcs c' = cl_mwcs c \<and>
     (\<forall>m. rel_option same_driver (cl_drivers c m) (cl_drivers c' m))"

lemma same_driver_refl [simp]: "same_driver d d"
  by (simp add: same_driver_def same_status_def)

lemma same_state_refl [simp]: "same_state c c"
  by (simp add: same_state_def option.rel_refl)

lemma same_driver_trans: "same_driver a b \<Longrightarrow> same_driver b c \<Longrightarrow> same_driver a c"
  by (auto simp: same_driver_def same_status_def intro: same_object_trans)

lemma same_state_trans:
  assumes "same_state a b" and "same_state b c"
  shows "same_state a c"
proof -
  have "rel_option same_driver (cl_drivers a m) (cl_drivers c m)" for m
  proof -
    have "rel_option same_driver (cl_drivers a m) (cl_drivers b m)"
      "rel_option same_driver (cl_drivers b m) (cl_drivers c m)"
      using assms by (simp_all add: same_state_def)
    then show ?thesis by (auto elim!: option.rel_cases intro: same_driver_trans)
  qed
  then show ?thesis using assms by (simp add: same_state_def)
qed

text \<open>A write of a status that reads like the stored one.\<close>

lemma same_state_status:
  assumes "status_step n c c'" and "cl_drivers c n = Some d" and "cl_drivers c' n = Some d'"
    and "same_status (drv_status d) (drv_status d')"
  shows "same_state c c'"
proof -
  have "same_driver d d'" using assms by (simp add: same_driver_def same_object_def status_step_def)
  then show ?thesis
    using assms(1-3) unfolding same_state_def status_step_def
    by (metis option.rel_inject(2) option.rel_refl same_driver_refl)
qed

section \<open>Two runs of the same operations\<close>

text \<open>
  The drivers \<open>x\<close> and \<open>x'\<close> come from \<open>d\<close> and \<open>d'\<close> by the same changes of conditions: a condition
  was set or removed in both, or is still the old one in both.
\<close>

definition tracks :: "CXIDriver \<Rightarrow> CXIDriver \<Rightarrow> CXIDriver \<Rightarrow> CXIDriver \<Rightarrow> bool" where
  "tracks d d' x x' \<longleftrightarrow>
     x = with_conditions d (drv_conditions x) \<and> x' = with_conditions d' (drv_conditions x') \<and>
     (\<forall>t. find_condition (drv_conditions x') t = find_condition (drv_conditions x) t \<or>
        find_condition (drv_conditions x) t = find_condition (drv_conditions d) t \<and>
        find_condition (drv_conditions x') t = find_condition (drv_conditions d') t)"

lemma with_conditions_twice [simp]:
  "with_conditions (with_conditions d cs) cs' = with_conditions d cs'"
  "with_conditions d (drv_conditions d) = d"
  by (simp_all add: with_conditions_def)

lemma status_fields_with:
  "status_fields (with_conditions d cs) a b e = with_conditions (status_fields d a b e) cs"
  by (simp add: status_fields_def with_conditions_def)

lemma with_conditions_fields:
  "(drv_status (with_conditions d cs))\<lparr>st_conditions := []\<rparr> = (drv_status d)\<lparr>st_conditions := []\<rparr>"
  by (simp add: with_conditions_def)

lemma tracks_refl: "tracks d d' d d'"
  by (simp add: tracks_def)

context k8s_lib_laws begin

lemma tracks_condition:
  assumes "tracks d d' x x'"
  shows "tracks d d' (set_condition L x c) (set_condition L x' c)"
    and "tracks d d' (remove_condition L x t) (remove_condition L x' t)"
proof -
  have "x = with_conditions d (drv_conditions x)" "x' = with_conditions d' (drv_conditions x')"
    using assms by (simp_all add: tracks_def)
  then have "set_condition L x c = with_conditions d (drv_conditions (set_condition L x c))"
    "set_condition L x' c = with_conditions d' (drv_conditions (set_condition L x' c))"
    "remove_condition L x t = with_conditions d (drv_conditions (remove_condition L x t))"
    "remove_condition L x' t = with_conditions d' (drv_conditions (remove_condition L x' t))"
    by (metis set_condition_def remove_condition_def with_conditions_simps(3) with_conditions_twice(1))+
  then show "tracks d d' (set_condition L x c) (set_condition L x' c)"
    and "tracks d d' (remove_condition L x t) (remove_condition L x' t)"
    using assms unfolding tracks_def by simp_all
qed

lemma tracks_component:
  assumes "tracks d d' x x'"
  shows "tracks d d' (setComponentCondition L x t b r m) (setComponentCondition L x' t b r m)"
    and "tracks d d' (setDegradedCondition L x r m) (setDegradedCondition L x' r m)"
  unfolding setComponentCondition_def setDegradedCondition_def
  by (auto intro: tracks_condition assms)

end

context k8s_api begin

lemma tracks_stage:
  assumes "tracks d d' x x'" and "e' = e"
    and "component_stage K t r m e sync x w = (v, Inr y)"
    and "component_stage K t r m e' sync' x' w' = (v', Inr y')"
  shows "tracks d d' y y'"
  using assms
  by (auto simp: component_stage_def split: if_splits prod.splits option.splits
      intro: tracks_condition tracks_component)

lemma tracks_run_stages:
  assumes "\<And>s u u' v v' y y' z z'. s \<in> set ss \<Longrightarrow> tracks d d' y y' \<Longrightarrow> s y u = (v, Inr z) \<Longrightarrow>
      s y' u' = (v', Inr z') \<Longrightarrow> tracks d d' z z'"
    and "tracks d d' x x'" and "run_stages ss x w = (w1, Inr y)" and "run_stages ss x' w' = (w1', Inr y')"
  shows "tracks d d' y y'"
  using assms
proof (induction ss arbitrary: x x' w w')
  case (Cons s ss)
  obtain v z v' z' where s: "s x w = (v, Inr z)" "s x' w' = (v', Inr z')"
    "run_stages ss z v = (w1, Inr y)" "run_stages ss z' v' = (w1', Inr y')"
    using Cons.prems(3,4) by (auto split: prod.splits sum.splits)
  have "tracks d d' z z'" using Cons.prems(1,2) s(1,2) by (metis list.set_intros(1))
  then show ?case using Cons.IH [OF _ _ s(3,4)] Cons.prems(1) by (metis list.set_intros(2))
qed simp

lemma tracks_components:
  assumes "tracks d d' x x'" and "drv_spec d' = drv_spec d"
    and "reconcile_components K ns x w = (w1, Inr y)" and "reconcile_components K ns x' w' = (w1', Inr y')"
  shows "tracks d d' y y'"
proof (rule tracks_run_stages [OF _ assms(1) assms(3,4) [unfolded reconcile_components_def]])
  fix s u u' v v' y y' z z'
  assume s: "s \<in> set [stage_driver_agent K ns, stage_device_plugin K ns, stage_retry_handler K ns,
      stage_metrics_exporter K ns]" and t: "tracks d d' y y'"
    and runs: "s y u = (v, Inr z)" "s y' u' = (v', Inr z')"
  have "drv_spec y' = drv_spec y"
    using t assms(2) unfolding tracks_def by (metis with_conditions_simps(2))
  with s runs show "tracks d d' z z'"
    by (auto simp: stage_driver_agent_def stage_device_plugin_def stage_retry_handler_def
        stage_metrics_exporter_def elim: tracks_stage [OF t, rotated])
qed

section \<open>What is in place is left alone\<close>

lemma sync_daemonset_again:
  assumes "sync_daemonset K d s w = (w', r)" and "well_named (view w)" and "has_ds (view w) s"
  shows "view w' = view w"
proof (cases "k_set_controller_reference K d (ds_meta s)")
  case (Inl e)
  then show ?thesis using assms(1) by (auto simp: sync_daemonset_def)
next
  case (Inr m)
  then have key: "meta_key m = meta_key (ds_meta s)"
    by (auto dest: set_controller_reference simp: meta_key_def)
  obtain w1 q where g: "k_get_ds K (meta_key m) w = (w1, q)" by (cases "k_get_ds K (meta_key m) w")
  note R = readsD [OF get_ds g]
  show ?thesis
  proof (cases q)
    case (Inl e)
    then show ?thesis
      using assms(1,3) g Inr R key
      by (auto simp: sync_daemonset_def has_ds_def Let_def split: if_splits option.splits)
  next
    case x: (Inr x)
    have st: "cl_dss (view w) (meta_key m) = Some x" using R(2) [OF x] by simp
    then have "ds_spec x = ds_spec s" using assms(3) key by (simp add: has_ds_def)
    then have same: "x\<lparr>ds_spec := ds_spec s\<rparr> = x" by (metis DaemonSet.surjective DaemonSet.update_convs(2))
    have "meta_key (ds_meta x) = meta_key m" by (rule well_namedD(3) [OF assms(2) st])
    then have "eff_put_ds x (view w) = view w" using st by (simp add: eff_put_ds_def fun_upd_idem)
    moreover obtain w2 q2 where u: "k_update_ds K x w1 = (w2, q2)" by (cases "k_update_ds K x w1")
    ultimately have "view w2 = view w" using writesD [OF update_ds u] R(1) by auto
    then show ?thesis
      using assms(1) g Inr x u same by (auto simp: sync_daemonset_def Let_def split: option.splits)
  qed
qed

lemma reconcileSidecarWebhook_again:
  assumes "reconcileSidecarWebhook K ns d w = (w', r)" and "well_named (view w)"
    and "has_mwc (view w) (build_sidecar_webhook ns d)"
  shows "view w' = view w"
proof -
  let ?n = "sidecar_webhook_name d" and ?h = "build_sidecar_webhook ns d"
  have hn: "om_name (mwc_meta ?h) = ?n" by (simp add: build_sidecar_webhook_def)
  obtain w1 q where g: "k_get_mwc K ?n w = (w1, q)" by (cases "k_get_mwc K ?n w")
  note R = readsD [OF get_mwc g]
  show ?thesis
  proof (cases q)
    case (Inl e)
    then show ?thesis
      using assms(1,3) g R hn
      by (auto simp: reconcileSidecarWebhook_def has_mwc_def Let_def split: if_splits option.splits)
  next
    case x: (Inr x)
    have st: "cl_mwcs (view w) ?n = Some x" using R(2) [OF x] by simp
    then have "mwc_webhooks x = mwc_webhooks ?h" using assms(3) hn by (simp add: has_mwc_def)
    then have same: "x\<lparr>mwc_webhooks := mwc_webhooks ?h\<rparr> = x"
      by (metis MutatingWebhookConfiguration.surjective MutatingWebhookConfiguration.update_convs(2))
    have "om_name (mwc_meta x) = ?n" by (rule well_namedD(4) [OF assms(2) st])
    then have "eff_put_mwc x (view w) = view w" using st by (simp add: eff_put_mwc_def fun_upd_idem)
    moreover obtain w2 q2 where u: "k_update_mwc K x w1 = (w2, q2)" by (cases "k_update_mwc K x w1")
    ultimately have "view w2 = view w" using writesD [OF update_mwc u] R(1) by auto
    then show ?thesis
      using assms(1) g x u same by (auto simp: reconcileSidecarWebhook_def Let_def split: option.splits)
  qed
qed

lemma reconcileRetryHandler_again:
  assumes "reconcileRetryHandler K ns d w = (w', r)" and "well_named (view w)"
    and "handler_deployed ns d (view w)"
  shows "view w' = view w"
  using assms sync_daemonset_again [of d "buildRetryHandlerDaemonSet ns d" w w' r]
    reconcileSidecarWebhook_again [of ns d w w']
  by (auto simp: reconcileRetryHandler_def handler_deployed_def Let_def split: if_splits prod.splits option.splits)

lemma component_stage_again:
  assumes "component_stage K t r m e sync d w = (w', q)"
    and "\<And>w1 q1. e \<Longrightarrow> sync d w = (w1, q1) \<Longrightarrow> view w1 = view w"
  shows "view w' = view w" and "case q of Inl _ \<Rightarrow> True | Inr d' \<Rightarrow> same_object d d'"
  using assms
  by (auto simp: component_stage_def same_object_def split: if_splits prod.splits option.splits sum.splits)

text \<open>Every stage leaves a deployed driver's objects as they are, whatever fails.\<close>

lemma stage_again:
  assumes "s \<in> set [stage_driver_agent K ns, stage_device_plugin K ns, stage_retry_handler K ns,
      stage_metrics_exporter K ns]"
    and "s d w = (w', q)" and "well_named (view w)" and "deployed ns d (view w)"
  shows "view w' = view w \<and> (case q of Inl _ \<Rightarrow> True | Inr d' \<Rightarrow> same_object d d')"
proof -
  have ds: "view w1 = view w" if "sync_daemonset K d t w = (w1, r)" "has_ds (view w) t" for t w1 r
    using that assms(3) by (blast intro: sync_daemonset_again)
  have rh: "view w1 = view w" if "reconcileRetryHandler K ns d w = (w1, r)" "handler_deployed ns d (view w)"
    for w1 r
    using that assms(3) by (blast intro: reconcileRetryHandler_again)
  note D = assms(4) [unfolded deployed_def plugin_deployed_def retry_deployed_def exporter_deployed_def]
  from assms(1) consider "s = stage_driver_agent K ns" | "s = stage_device_plugin K ns"
    | "s = stage_retry_handler K ns" | "s = stage_metrics_exporter K ns" by auto
  then show ?thesis
  proof cases
    case 1
    note c = assms(2) [unfolded 1 stage_driver_agent_def reconcileDriverAgent_def]
    show ?thesis using component_stage_again [OF c] ds D by blast
  next
    case 2
    note c = assms(2) [unfolded 2 stage_device_plugin_def reconcileDevicePlugin_def]
    show ?thesis using component_stage_again [OF c] ds D by blast
  next
    case 3
    note c = assms(2) [unfolded 3 stage_retry_handler_def]
    show ?thesis using component_stage_again [OF c] rh D by blast
  next
    case 4
    note c = assms(2) [unfolded 4 stage_metrics_exporter_def reconcileMetricsExporter_def]
    show ?thesis using component_stage_again [OF c] ds D by blast
  qed
qed

lemma run_stages_again:
  assumes "\<And>s d w w' q. s \<in> set ss \<Longrightarrow> s d w = (w', q) \<Longrightarrow> P d w \<Longrightarrow>
      view w' = view w \<and> (case q of Inl _ \<Rightarrow> True | Inr d' \<Rightarrow> P d' w')"
    and "run_stages ss d w = (w', q)" and "P d w"
  shows "view w' = view w"
  using assms
proof (induction ss arbitrary: d w)
  case (Cons s ss)
  obtain w1 q1 where s: "s d w = (w1, q1)" by (cases "s d w")
  with Cons.prems(1) [of s d w w1 q1] Cons.prems(3) have 1: "view w1 = view w"
    "case q1 of Inl _ \<Rightarrow> True | Inr d' \<Rightarrow> P d' w1" by auto
  show ?case
  proof (cases q1)
    case (Inr d1)
    then have "run_stages ss d1 w1 = (w', q)" "P d1 w1" using Cons.prems(2) s 1(2) by simp_all
    from Cons.IH [OF _ this] Cons.prems(1) 1(1) show ?thesis by (metis list.set_intros(2))
  qed (use Cons.prems(2) s 1 in simp)
qed simp

lemma components_again:
  assumes "reconcile_components K ns d w = (w', q)" and "well_named (view w)" and "deployed ns d (view w)"
  shows "view w' = view w"
proof -
  let ?P = "\<lambda>d w. well_named (view w) \<and> deployed ns d (view w)"
  let ?ss = "[stage_driver_agent K ns, stage_device_plugin K ns, stage_retry_handler K ns,
    stage_metrics_exporter K ns]"
  have step: "view w1 = view w \<and> (case q of Inl _ \<Rightarrow> True | Inr d' \<Rightarrow> ?P d' w1)"
    if "s \<in> set ?ss" "s d w = (w1, q)" "?P d w" for s d w w1 q
  proof (cases q)
    case (Inr d')
    with stage_again [OF that(1,2)] that(3) have "view w1 = view w" "same_object d d'" by simp_all
    then show ?thesis using Inr that(3) deployed_cong(5) [of d d' ns] by simp
  qed (use stage_again [OF that(1,2)] that(3) in simp)
  have run: "run_stages ?ss d w = (w', q)" using assms(1) by (simp only: reconcile_components_def)
  show ?thesis
    by (rule run_stages_again [where P = ?P, OF _ run], erule (2) step) (use assms(2,3) in simp)
qed

end

section \<open>A status written twice\<close>

context k8s_lib_laws begin

lemma computeStatus_tracks:
  assumes "tracks d d' y y'"
  shows "tracks (status_fields d a b e) (status_fields d' a b e) (computeStatus L y a b e) (computeStatus L y' a b e)"
proof -
  have y: "status_fields y a b e = with_conditions (status_fields d a b e) (drv_conditions y)"
    "status_fields y' a b e = with_conditions (status_fields d' a b e) (drv_conditions y')"
    using assms unfolding tracks_def by (metis status_fields_with)+
  then have "tracks (status_fields d a b e) (status_fields d' a b e) (status_fields y a b e) (status_fields y' a b e)"
    using assms unfolding tracks_def by simp
  then show ?thesis
    unfolding computeStatus_def Let_def by (auto intro: tracks_condition tracks_component)
qed

lemma computeStatus_again:
  assumes "tracks d d' y y'" and "same_object d d'"
    and "drv_status d' = drv_status (computeStatus L y a b e)"
  shows "same_status (drv_status (computeStatus L y a b e)) (drv_status (computeStatus L y' a b e))"
proof -
  note T = computeStatus_tracks [OF assms(1), of a b e, unfolded tracks_def]
  have f: "(drv_status (computeStatus L y a b e))\<lparr>st_conditions := []\<rparr> =
      (drv_status (status_fields d a b e))\<lparr>st_conditions := []\<rparr>"
    "(drv_status (computeStatus L y' a b e))\<lparr>st_conditions := []\<rparr> =
      (drv_status (status_fields d' a b e))\<lparr>st_conditions := []\<rparr>"
    using T by (metis with_conditions_fields)+
  have "(drv_status d')\<lparr>st_conditions := []\<rparr> = (drv_status (status_fields d a b e))\<lparr>st_conditions := []\<rparr>"
    using assms(3) f(1) by simp
  then have "(drv_status (status_fields d' a b e))\<lparr>st_conditions := []\<rparr> =
      (drv_status (status_fields d a b e))\<lparr>st_conditions := []\<rparr>"
    using assms(2) by (cases "drv_status d"; cases "drv_status d'") (simp add: status_fields_def same_object_def)
  moreover have "find_condition (drv_conditions (computeStatus L y' a b e)) t =
      find_condition (drv_conditions (computeStatus L y a b e)) t" for t
    using T assms(3) by auto
  ultimately show ?thesis using f by (simp add: same_status_def)
qed

end

lemma written_again:
  assumes "tracks d d' y y'" and "drv_status d' = (drv_status y)\<lparr>st_observed_generation := g\<rparr>"
  shows "same_status ((drv_status y)\<lparr>st_observed_generation := g\<rparr>) ((drv_status y')\<lparr>st_observed_generation := g\<rparr>)"
proof -
  note T = assms(1) [unfolded tracks_def]
  have "(drv_status y')\<lparr>st_conditions := []\<rparr> = (drv_status d')\<lparr>st_conditions := []\<rparr>"
    using T by (metis with_conditions_fields)
  then have "(drv_status y')\<lparr>st_observed_generation := g, st_conditions := []\<rparr> =
      (drv_status y)\<lparr>st_observed_generation := g, st_conditions := []\<rparr>"
    using assms(2) by (cases "drv_status y"; cases "drv_status y'") simp
  then show ?thesis using T assms(2) by (auto simp: same_status_def)
qed

section \<open>One request of the active driver\<close>

abbreviation reconciling :: Condition where
  "reconciling \<equiv> mk_condition conditionTypeProgressing ConditionTrue ''Reconciling''
     ''Reconciling CXIDriver resources''"

context k8s_reliable begin

lemma updateStatus_runs:
  assumes "ok w" and "well_named (view w)" and "cl_drivers (view w) (drv_name d) \<noteq> None"
  obtains w' x a b e where "updateStatus K ns d w = (w', None)" "ok w'"
    "(a, b, e) = agent_counts (cl_dss (view w) (ns, drv_name d @ ''-driver-agent''))"
    "status_step (drv_name d) (view w) (view w')" "cl_drivers (view w') (drv_name d) = Some x"
    "drv_status x = drv_status (computeStatus K d a b e)"
proof -
  obtain w2 a b e where n: "node_counts K ns d w = (w2, a, b, e)" "ok w2" "view w2 = view w"
    "(a, b, e) = agent_counts (cl_dss (view w) (ns, drv_name d @ ''-driver-agent''))"
    using assms(1)
    by (cases rule: live_ds [of w "(ns, drv_name d @ ''-driver-agent'')", case_names found missing])
      (auto simp: node_counts_def agent_counts_def)
  let ?z = "computeStatus K d a b e"
  obtain w3 where u: "updateStatusRetryOnConflict K ?z w2 = (w3, None)" "ok w3"
    using updateStatus_live [of w2 ?z] n assms(2,3) by auto
  have wn: "well_named (view w2)" using n(3) assms(2) by simp
  note U = updateStatusRetryOnConflict [OF u(1) wn]
  have "updateStatus K ns d w = (w3, None)" using n(1) u(1) by (simp add: updateStatus_def)
  moreover have "status_step (drv_name d) (view w) (view w3)"
    using U n(3) by (auto dest: status_writtenD)
  ultimately show thesis using that u(2) n(4) U by auto
qed

lemma active_run:
  assumes "ok w" and "well_named (view w)" and "cl_drivers (view w) n = Some d"
    and "\<not> om_deleting (drv_meta d)" and "claimable ns n (view w)" and "known_mode d"
    and "cxiDriverFinalizer \<in> set (om_finalizers (drv_meta d))"
  obtains u u1 y w' d1 a b e where "well_named (view u)"
    "active_of ns (view w) = n \<Longrightarrow> n \<noteq> '''' \<Longrightarrow> view u = view w"
    "reconcile_components K ns (set_condition K d reconciling) u = (u1, Inr y)"
    "Reconcile K ns n w = (w', Done)" "ok w'" "status_step n (view u1) (view w')"
    "(a, b, e) = agent_counts (cl_dss (view u1) (ns, n @ ''-driver-agent''))"
    "cl_drivers (view w') n = Some d1" "same_object d d1"
    "drv_status d1 = drv_status (computeStatus K y a b e)"
proof -
  have n: "drv_name d = n" by (rule well_namedD(1) [OF assms(2,3)])
  obtain w1 where g: "k_get_driver K n w = (w1, Inr d)" "ok w1" "view w1 = view w"
    using assms(1,3) by (cases rule: live_driver [of w n, case_names found missing]) auto
  have wn1: "well_named (view w1)" "claimable ns n (view w1)" using g(3) assms by simp_all
  obtain u where i: "isActiveCXIDriver K ns n w1 = (u, Inr True)" "ok u"
    using isActive_live [OF g(2) wn1] by blast
  note I = isActive [OF i(1) wn1(1)]
  have "known_mode (set_condition K d reconciling)" using assms(6) by (simp add: known_mode_def)
  from reconcile_components_live [OF i(2) I(2) this] obtain u1 y where
    c: "reconcile_components K ns (set_condition K d reconciling) u = (u1, Inr y)" "ok u1" by blast
  note C = active_components [OF c(1) I(2)]
  have y: "same_object d y" "drv_name y = n" using C(6) n by (simp_all add: same_object_def)
  have d: "cl_drivers (view u1) n = Some d" using C(2) I(1) g(3) assms(3) by (simp add: step_defs)
  then have "cl_drivers (view u1) (drv_name y) \<noteq> None" using y(2) by simp
  then obtain w' x a b e where s: "updateStatus K ns y u1 = (w', None)" "ok w'"
    "(a, b, e) = agent_counts (cl_dss (view u1) (ns, drv_name y @ ''-driver-agent''))"
    "status_step (drv_name y) (view u1) (view w')" "cl_drivers (view w') (drv_name y) = Some x"
    "drv_status x = drv_status (computeStatus K y a b e)"
    by (rule updateStatus_runs [OF c(2) C(4), of y ns])
  note s = s [unfolded y(2)]
  have x: "same_object d x" using s(4,5) d by (simp add: status_step_def same_object_def)
  have "Reconcile K ns n w = (w', Done)"
    using g(1) assms(4,7) i(1) c(1) s(1) n
    by (simp add: Reconcile_def contains_finalizer reconcile_active_def Let_def)
  then show thesis
    using that [of u u1 y w' a b e x] I(2,6) g(3) c(1) s x by simp
qed

lemma active_settles:
  assumes "ok w" and "well_named (view w)" and "cl_drivers (view w) n = Some d"
    and "\<not> om_deleting (drv_meta d)" and "claimable ns n (view w)" and "known_mode d"
    and "cxiDriverFinalizer \<in> set (om_finalizers (drv_meta d))" and "n \<noteq> ''''"
    and w1: "w1 = fst (Reconcile K ns n w)" and w2: "w2 = fst (Reconcile K ns n w1)"
  shows "same_state (view w1) (view w2)"
proof -
  from active_run [OF assms(1-7)] obtain u u1 y d1 a b e where
    1: "reconcile_components K ns (set_condition K d reconciling) u = (u1, Inr y)"
      "Reconcile K ns n w = (w1, Done)" "ok w1" "status_step n (view u1) (view w1)"
      "(a, b, e) = agent_counts (cl_dss (view u1) (ns, n @ ''-driver-agent''))"
      "cl_drivers (view w1) n = Some d1" "same_object d d1"
      "drv_status d1 = drv_status (computeStatus K y a b e)"
    unfolding w1 by (metis fst_conv)
  have act: "active_of ns (view w1) = n" using Reconcile_live [OF assms(1-6)] 1(2) by auto
  have wn: "well_named (view w1)" using reconcile_safe [OF 1(2) assms(2)] by simp
  have "deployed ns d (view w1)" using reconcile_done [OF 1(2) assms(2-4) act] by simp
  then have dep: "deployed ns (set_condition K d1 reconciling) (view w1)"
    using deployed_cong(5) [of d "set_condition K d1 reconciling" ns] 1(7) by (simp add: same_object_def)
  have d1: "\<not> om_deleting (drv_meta d1)" "claimable ns n (view w1)" "known_mode d1"
    "cxiDriverFinalizer \<in> set (om_finalizers (drv_meta d1))"
    using assms(4,6,7) 1(7) act by (simp_all add: same_object_def claimable_def known_mode_def)
  from active_run [OF 1(3) wn 1(6) d1] act assms(8) obtain v v1 y' d2 a' b' e' where
    2: "view v = view w1" "reconcile_components K ns (set_condition K d1 reconciling) v = (v1, Inr y')"
      "status_step n (view v1) (view w2)"
      "(a', b', e') = agent_counts (cl_dss (view v1) (ns, n @ ''-driver-agent''))"
      "cl_drivers (view w2) n = Some d2" "drv_status d2 = drv_status (computeStatus K y' a' b' e')"
    unfolding w2 by (metis fst_conv)
  have v1: "view v1 = view w1" using components_again [OF 2(2)] 2(1) wn dep by simp
  then have "(a', b', e') = (a, b, e)" using 1(4,5) 2(4) by (simp add: status_step_def)
  moreover have "tracks d d1 y y'"
    using tracks_components [OF tracks_condition(1) [OF tracks_refl] _ 1(1) 2(2)] 1(7)
    by (simp add: same_object_def)
  ultimately have "same_status (drv_status d1) (drv_status d2)"
    using computeStatus_again [OF _ 1(7,8)] 1(8) 2(6) by simp
  then show ?thesis using same_state_status [OF _ 1(6) 2(5)] 2(3) v1 by simp
qed

section \<open>One request of an ignored driver\<close>

lemma isActive_live_other:
  assumes "ok w" and "\<not> claimable ns n (view w)"
  obtains w1 where "isActiveCXIDriver K ns n w = (w1, Inr False)" "ok w1" "view w1 = view w"
proof -
  let ?a = "active_of ns (view w)"
  obtain w1 where g: "getActiveCXIDriver K ns w = (w1, Inr ?a)" "ok w1" "view w1 = view w"
    using getActive_live [OF assms(1)] by blast
  have a: "?a \<notin> {'''', n}" "cl_drivers (view w) ?a \<noteq> None" using assms(2) by (auto simp: claimable_def)
  show thesis
    using g(2)
  proof (cases rule: live_driver [of w1 ?a, case_names found missing])
    case (found x w2)
    then show ?thesis using that [of w2] a g by (simp add: isActiveCXIDriver_def)
  qed (use a g(3) in simp)
qed

lemma ignored_run:
  assumes "ok w" and "well_named (view w)" and "cl_drivers (view w) n = Some d"
    and "\<not> om_deleting (drv_meta d)" and "\<not> claimable ns n (view w)"
  obtains w' x where "Reconcile K ns n w = (w', Done)" "ok w'" "status_step n (view w) (view w')"
    "cl_drivers (view w') n = Some x" "same_object d x"
    "drv_status x = (drv_status (ignored_status K d (active_of ns (view w))))
       \<lparr>st_observed_generation := om_generation (drv_meta d)\<rparr>"
proof -
  let ?a = "active_of ns (view w)" and ?g = "om_generation (drv_meta d)"
  let ?x = "ignored_status K d ?a"
  let ?z = "?x\<lparr>drv_status := (drv_status ?x)\<lparr>st_observed_generation := ?g\<rparr>\<rparr>"
  have n: "drv_name d = n" by (rule well_namedD(1) [OF assms(2,3)])
  obtain w1 where g: "k_get_driver K n w = (w1, Inr d)" "ok w1" "view w1 = view w"
    using assms(1,3) by (cases rule: live_driver [of w n, case_names found missing]) auto
  obtain w2 where i: "isActiveCXIDriver K ns n w1 = (w2, Inr False)" "ok w2" "view w2 = view w"
    using isActive_live_other [OF g(2), of ns n] assms(5) g(3) by auto
  obtain w3 where r: "getActiveCXIDriver K ns w2 = (w3, Inr ?a)" "ok w3" "view w3 = view w"
    using getActive_live [OF i(2), of ns] i(3) by auto
  have meta: "drv_meta ?x = drv_meta d" by (simp add: ignored_status_def)
  obtain w' where u: "updateStatusRetryOnConflict K ?z w3 = (w', None)" "ok w'"
    using updateStatus_live [OF r(2), of ?z] r(3) assms(2,3) n meta by auto
  have wn: "well_named (view w3)" using r(3) assms(2) by simp
  note U = updateStatusRetryOnConflict [OF u(1) wn]
  have "Reconcile K ns n w = (w', Done)"
    using g(1) assms(4) i(1) r(1) u(1) n meta
    by (simp add: Reconcile_def reconcile_ignored_def active_or_empty_def updateStatusWithRetry_def Let_def)
  moreover have step: "status_step n (view w) (view w')" using U n meta r(3) by (auto dest: status_writtenD)
  moreover obtain x where "cl_drivers (view w') n = Some x"
    "drv_status x = (drv_status ?x)\<lparr>st_observed_generation := ?g\<rparr>"
    using U n meta by auto
  moreover from this have "same_object d x" using step assms(3) by (simp add: status_step_def same_object_def)
  ultimately show thesis using that u(2) by blast
qed

lemma ignored_settles:
  assumes "ok w" and "well_named (view w)" and "cl_drivers (view w) n = Some d"
    and "\<not> om_deleting (drv_meta d)" and "\<not> claimable ns n (view w)"
    and w1: "w1 = fst (Reconcile K ns n w)" and w2: "w2 = fst (Reconcile K ns n w1)"
  shows "same_state (view w1) (view w2)"
proof -
  let ?a = "active_of ns (view w)" and ?g = "om_generation (drv_meta d)"
  from ignored_run [OF assms(1-5)] obtain d1 where
    1: "Reconcile K ns n w = (w1, Done)" "ok w1" "status_step n (view w) (view w1)"
      "cl_drivers (view w1) n = Some d1" "same_object d d1"
      "drv_status d1 = (drv_status (ignored_status K d ?a))\<lparr>st_observed_generation := ?g\<rparr>"
    unfolding w1 by (metis fst_conv)
  have wn: "well_named (view w1)" using reconcile_safe [OF 1(1) assms(2)] by simp
  have act: "active_of ns (view w1) = ?a" using 1(3) by (simp add: status_step_def active_of_def)
  have "?a \<noteq> n" using assms(5) by (auto simp: claimable_def)
  then have nc: "\<not> claimable ns n (view w1)"
    using assms(5) act 1(3) by (auto simp: claimable_def status_step_def)
  have d1: "\<not> om_deleting (drv_meta d1)" using assms(4) 1(5) by (simp add: same_object_def)
  obtain v d2 where v: "Reconcile K ns n w1 = (v, Done)" "status_step n (view w1) (view v)"
    "cl_drivers (view v) n = Some d2"
    "drv_status d2 = (drv_status (ignored_status K d1 (active_of ns (view w1))))
       \<lparr>st_observed_generation := om_generation (drv_meta d1)\<rparr>"
    by (rule ignored_run [OF 1(2) wn 1(4) d1 nc])
  then have 2: "status_step n (view w1) (view w2)" "cl_drivers (view w2) n = Some d2"
      "drv_status d2 = (drv_status (ignored_status K d1 ?a))\<lparr>st_observed_generation := ?g\<rparr>"
    using 1(5) act w2 by (simp_all add: same_object_def)
  have "tracks d d1 (ignored_status K d ?a) (ignored_status K d1 ?a)"
    unfolding ignored_status_def by (intro tracks_condition tracks_refl)
  from written_again [OF this 1(6)] have "same_status (drv_status d1) (drv_status d2)"
    using 1(6) 2(3) by simp
  then show ?thesis by (rule same_state_status [OF 2(1) 1(4) 2(2)])
qed

end

section \<open>After the first request\<close>

text \<open>What one request leaves of a driver: it is gone, released, ignored, or has its finalizer.\<close>

definition prepared :: "string \<Rightarrow> string \<Rightarrow> cluster \<Rightarrow> bool" where
  "prepared ns n c \<longleftrightarrow>
     (case cl_drivers c n of
        None \<Rightarrow> active_of ns c \<noteq> n
      | Some d \<Rightarrow>
          if om_deleting (drv_meta d) then cxiDriverFinalizer \<notin> set (om_finalizers (drv_meta d))
          else known_mode d \<and>
            (claimable ns n c \<longrightarrow> cxiDriverFinalizer \<in> set (om_finalizers (drv_meta d))))"

context k8s_api begin

lemma released_unchanged:
  assumes "well_named (view w)" and "n \<noteq> ''''" and "prepared ns n (view w)"
    and "case cl_drivers (view w) n of None \<Rightarrow> True | Some d \<Rightarrow> om_deleting (drv_meta d)"
  shows "view (fst (Reconcile K ns n w)) = view w"
proof -
  obtain w' r where r: "Reconcile K ns n w = (w', r)" by (cases "Reconcile K ns n w")
  from r assms(1) have "view w' = view w"
  proof (cases rule: Reconcile_cases)
    case (gone w1)
    then show ?thesis using clear_if_active_frame [of w1 ns n] assms by (simp add: prepared_def)
  next
    case (deleting d w1)
    then show ?thesis using reconcile_deletion(7) [OF deleting(5)] assms(1,3) by (simp add: prepared_def)
  qed (use assms(4) in simp_all)
  then show ?thesis by (simp add: r)
qed

end

context k8s_reliable begin

lemma gone_prepared:
  assumes "ok w" and "well_named (view w)" and "n \<noteq> ''''" and "Reconcile K ns n w = (w1, r)"
    and gone: "cl_drivers (view w) n = None"
  shows "ok w1 \<and> prepared ns n (view w1)"
proof -
  obtain v e where v: "k_get_driver K n w = (v, Inl e)" "IsNotFound e" "ok v" "view v = view w"
    using assms(1) gone by (cases rule: live_driver [of w n, case_names found missing]) auto
  have wv: "well_named (view v)" using v(4) assms(2) by simp
  have w1: "w1 = clear_if_active K ns n v" using assms(4) v(1,2) by (simp add: Reconcile_def)
  have "cl_drivers (view w1) n = None"
    using clear_if_active_frame [OF wv, of ns n] gone v(4) unfolding w1 by (simp add: cm_step_def)
  moreover note clear_if_active_live [OF v(3) wv assms(3), of ns, folded w1]
  ultimately show ?thesis by (simp add: prepared_def)
qed

lemma held_prepared:
  assumes "ok w" and "well_named (view w)" and "n \<noteq> ''''" and r: "Reconcile K ns n w = (w1, r)"
    and held: "cl_drivers (view w) n = Some d" "om_deleting (drv_meta d)"
      "cxiDriverFinalizer \<in> set (om_finalizers (drv_meta d))"
  shows "ok w1 \<and> prepared ns n (view w1)"
proof -
  let ?d = "d\<lparr>drv_meta := k_remove_finalizer K (drv_meta d) cxiDriverFinalizer\<rparr>"
  have n: "drv_name d = n" by (rule well_namedD(1) [OF assms(2) held(1)])
  have D: "ok w1" "active_of ns (view w1) \<noteq> n"
    "cl_drivers (view w1) n = cl_drivers (eff_update_driver ?d (view w)) n"
    using deletion_run [OF assms(1,2) held(1) assms(3) held(2,3), of ns] unfolding r
    by (elim exE conjE, simp)+
  obtain fs where fs: "k_remove_finalizer K (drv_meta d) cxiDriverFinalizer = (drv_meta d)\<lparr>om_finalizers := fs\<rparr>"
    "set fs = set (om_finalizers (drv_meta d)) - {cxiDriverFinalizer}"
    using remove_finalizer [of "drv_meta d" cxiDriverFinalizer] by blast
  have "cxiDriverFinalizer \<notin> set fs" using fs(2) by simp
  moreover have "cl_drivers (view w1) n = (if fs = [] then None
      else Some (d\<lparr>drv_meta := (drv_meta d)\<lparr>om_finalizers := fs\<rparr>\<rparr>))"
    using D(3) held(1,2) n fs(1) by (simp add: eff_update_driver_def)
  ultimately show ?thesis using D(1,2) held(2) by (simp add: prepared_def)
qed

lemma released_prepared:
  assumes "ok w" and "well_named (view w)" and "n \<noteq> ''''" and r: "Reconcile K ns n w = (w1, r)"
    and released: "cl_drivers (view w) n = Some d" "om_deleting (drv_meta d)"
      "cxiDriverFinalizer \<notin> set (om_finalizers (drv_meta d))"
  shows "ok w1 \<and> prepared ns n (view w1)"
proof -
  have p: "prepared ns n (view w)" using released by (simp add: prepared_def)
  obtain v where v: "k_get_driver K n w = (v, Inr d)" "ok v"
    using assms(1) released by (cases rule: live_driver [of w n, case_names found missing]) auto
  then have "ok w1"
    using r released by (simp add: Reconcile_def reconcile_deletion_def contains_finalizer)
  then show ?thesis using released_unchanged [OF assms(2,3) p] released r p by simp
qed

lemma ignored_prepared:
  assumes "ok w" and "well_named (view w)" and r: "Reconcile K ns n w = (w1, r)" and km: "known_mode d"
    and ignored: "cl_drivers (view w) n = Some d" "\<not> om_deleting (drv_meta d)"
      "\<not> claimable ns n (view w)"
  shows "ok w1 \<and> prepared ns n (view w1)"
proof -
  obtain v x where v: "Reconcile K ns n w = (v, Done)" "ok v" "status_step n (view w) (view v)"
    "cl_drivers (view v) n = Some x" "same_object d x"
    by (rule ignored_run [OF assms(1,2) ignored])
  have "active_of ns (view w) \<noteq> n" using ignored(3) by (auto simp: claimable_def)
  then have "\<not> claimable ns n (view v)"
    using ignored(3) v(3) by (auto simp: claimable_def status_step_def active_of_def)
  then show ?thesis
    using r v km ignored(2) by (simp add: prepared_def same_object_def known_mode_def)
qed

lemma becomes_prepared:
  assumes "ok w" and "well_named (view w)" and "n \<noteq> ''''"
    and km: "\<And>d. cl_drivers (view w) n = Some d \<Longrightarrow> \<not> om_deleting (drv_meta d) \<Longrightarrow> known_mode d"
  shows "ok (fst (Reconcile K ns n w)) \<and> well_named (view (fst (Reconcile K ns n w))) \<and>
    prepared ns n (view (fst (Reconcile K ns n w)))"
proof -
  obtain w1 r where r: "Reconcile K ns n w = (w1, r)" by (cases "Reconcile K ns n w")
  have "ok w1 \<and> prepared ns n (view w1)"
  proof (cases "cl_drivers (view w) n")
    case None
    then show ?thesis by (rule gone_prepared [OF assms(1-3) r])
  next
    case (Some d)
    consider (held) "om_deleting (drv_meta d)" "cxiDriverFinalizer \<in> set (om_finalizers (drv_meta d))"
      | (released) "om_deleting (drv_meta d)" "cxiDriverFinalizer \<notin> set (om_finalizers (drv_meta d))"
      | (live) "\<not> om_deleting (drv_meta d)" "claimable ns n (view w)"
      | (ignored) "\<not> om_deleting (drv_meta d)" "\<not> claimable ns n (view w)" by blast
    then show ?thesis
    proof cases
      case live
      note km = km [OF Some live(1)]
      from Reconcile_live [OF assms(1,2) Some live km] r km show ?thesis
        by (auto simp: prepared_def known_mode_def)
    next
      case ignored
      show ?thesis by (rule ignored_prepared [OF assms(1,2) r km [OF Some ignored(1)] Some ignored])
    qed (fact held_prepared [OF assms(1-3) r Some] released_prepared [OF assms(1-3) r Some])+
  qed
  then show ?thesis using r reconcile_safe [OF r assms(2)] by simp
qed

lemma prepared_settles:
  assumes "ok w" and "well_named (view w)" and "n \<noteq> ''''" and "prepared ns n (view w)"
    and w1: "w1 = fst (Reconcile K ns n w)" and w2: "w2 = fst (Reconcile K ns n w1)"
  shows "same_state (view w1) (view w2)"
proof (cases "case cl_drivers (view w) n of None \<Rightarrow> True | Some d \<Rightarrow> om_deleting (drv_meta d)")
  case True
  have 1: "view w1 = view w" unfolding w1 by (rule released_unchanged [OF assms(2-4) True])
  then have "view w2 = view w1"
    unfolding w2 using released_unchanged [of w1 n ns] assms(2-4) True by simp
  then show ?thesis by simp
next
  case False
  then obtain d where d: "cl_drivers (view w) n = Some d" "\<not> om_deleting (drv_meta d)"
    by (auto split: option.splits)
  show ?thesis
  proof (cases "claimable ns n (view w)")
    case True
    with d assms(4) have "known_mode d" "cxiDriverFinalizer \<in> set (om_finalizers (drv_meta d))"
      by (simp_all add: prepared_def)
    from active_settles [OF assms(1,2) d True this assms(3) w1 w2] show ?thesis .
  qed (rule ignored_settles [OF assms(1,2) d _ w1 w2])
qed

lemma prepared_keeps_settled:
  assumes "ok w" and "well_named (view w)" and "n \<noteq> ''''" and "prepared ns n (view w)"
  shows "same_state (view (fst (Reconcile K ns n w)))
    (view (((\<lambda>w. fst (Reconcile K ns n w)) ^^ k) (fst (Reconcile K ns n w))))"
  using assms
proof (induction k arbitrary: w)
  case (Suc k)
  let ?w1 = "fst (Reconcile K ns n w)"
  have "\<not> om_deleting (drv_meta d) \<Longrightarrow> known_mode d" if "cl_drivers (view w) n = Some d" for d
    using that Suc.prems(4) by (simp add: prepared_def)
  from becomes_prepared [OF Suc.prems(1-3) this] have
    1: "ok ?w1" "well_named (view ?w1)" "prepared ns n (view ?w1)" by blast+
  show ?case
    using same_state_trans [OF prepared_settles [OF Suc.prems refl refl] Suc.IH [OF 1(1,2) Suc.prems(3) 1(3)]]
    by (simp add: funpow_Suc_right del: funpow.simps(2))
qed simp

end

section \<open>From admission to deployment\<close>

text \<open>What the validator admits is what the reconciler can deploy: the two lists of modes agree.\<close>

lemma valid_spec_known_mode: "valid_spec (drv_spec d) \<Longrightarrow> known_mode d"
  by (simp add: valid_spec_def known_mode_def)

lemma admitted_driver_deploys:
  assumes "k8s_reliable K view ok" and "ok w" and "well_named (view w)"
    and "decode (req_object req) = Inr d" and "Handle_driver decode err_text req = Allowed ws"
    and "cl_drivers (view w) n = Some d" and "\<not> om_deleting (drv_meta d)" and "claimable ns n (view w)"
  shows "snd (Reconcile K ns n (fst (Reconcile K ns n w))) = Done \<and>
    deployed ns d (view (fst (Reconcile K ns n (fst (Reconcile K ns n w)))))"
proof -
  have "spec_errors err_text (drv_spec d) = []"
    using assms(4,5) by (simp add: Handle_driver_def Let_def split: if_splits)
  then have "known_mode d" using spec_errors_iff valid_spec_known_mode by blast
  from k8s_reliable.Reconcile_twice_live [OF assms(1-3,6-8) this refl refl] show ?thesis by simp
qed

section \<open>The property\<close>



end
