(* ===== verification/CachedReads.thy ===== *)
theory CachedReads
  imports ReconcilerProps
begin

text \<open>
  The singleton check when reads lag. The client of the manager answers reads from a cache that is
  filled by watches, while writes go to the API server, which accepts an update only of the version
  it has stored. The laws of \<open>k8s_api\<close> leave this out, so here the code of the singleton runs on a
  server of its own: what is stored and what is cached, both with the version of every object, the
  versions of the copies the code holds, and a schedule that says at which reads the cache has
  caught up. It is a litmus test: one controller serves two drivers, one after the other.
\<close>

section \<open>A client with a cache\<close>

datatype object_id = DriverId string | ConfigMapId key | DaemonSetId key | WebhookId string

record cached =
  ca_store :: cluster
  ca_versions :: "object_id \<Rightarrow> nat"
  ca_cache :: cluster
  ca_cached_versions :: "object_id \<Rightarrow> nat"
  ca_held :: "object_id \<Rightarrow> nat"
  ca_lag :: "bool list"

definition up_to_date :: "cached \<Rightarrow> bool" where
  "up_to_date w \<longleftrightarrow> ca_cache w = ca_store w \<and> ca_cached_versions w = ca_versions w"

definition catch_up :: "cached \<Rightarrow> cached" where
  "catch_up w = w\<lparr>ca_cache := ca_store w, ca_cached_versions := ca_versions w\<rparr>"

text \<open>Before a read the cache may catch up; an exhausted schedule means that it always does.\<close>

definition before_read :: "cached \<Rightarrow> cached" where
  "before_read w =
     (case ca_lag w of
        [] \<Rightarrow> catch_up w
      | caught_up # lag \<Rightarrow> (if caught_up then catch_up w else w)\<lparr>ca_lag := lag\<rparr>)"

definition cached_read :: "object_id \<Rightarrow> (cluster \<Rightarrow> 'a option) \<Rightarrow> (cached, 'a) reader" where
  "cached_read x look w =
     (let w1 = before_read w
      in case look (ca_cache w1) of
           None \<Rightarrow> (w1, Inl (server_error NotFound))
         | Some v \<Rightarrow> (w1\<lparr>ca_held := (ca_held w1)(x := ca_cached_versions w1 x)\<rparr>, Inr v))"

text \<open>A write gives the object a new version, which the caller holds from then on.\<close>

definition stored :: "object_id \<Rightarrow> (cluster \<Rightarrow> cluster) \<Rightarrow> cached \<Rightarrow> cached" where
  "stored x eff w =
     w\<lparr>ca_store := eff (ca_store w), ca_versions := (ca_versions w)(x := Suc (ca_versions w x)),
       ca_held := (ca_held w)(x := Suc (ca_versions w x))\<rparr>"

definition cached_create :: "object_id \<Rightarrow> (cluster \<Rightarrow> 'a option) \<Rightarrow> (cluster \<Rightarrow> cluster) \<Rightarrow> cached writer"
  where
  "cached_create x look eff w =
     (if look (ca_store w) \<noteq> None then (w, Some (server_error AlreadyExists))
      else (stored x eff w, None))"

definition cached_update :: "object_id \<Rightarrow> (cluster \<Rightarrow> 'a option) \<Rightarrow> (cluster \<Rightarrow> cluster) \<Rightarrow> cached writer"
  where
  "cached_update x look eff w =
     (if look (ca_store w) = None then (w, Some (server_error NotFound))
      else if ca_held w x \<noteq> ca_versions w x then (w, Some (server_error Conflict))
      else (stored x eff w, None))"

text \<open>The code deletes without a precondition on the version.\<close>

definition cached_delete :: "object_id \<Rightarrow> (cluster \<Rightarrow> 'a option) \<Rightarrow> (cluster \<Rightarrow> cluster) \<Rightarrow> cached writer"
  where
  "cached_delete x look eff w =
     (if look (ca_store w) = None then (w, Some (server_error NotFound)) else (stored x eff w, None))"

definition cached_k8s :: "cached k8s" where
  "cached_k8s =
     \<lparr>k_set_controller_reference = k_set_controller_reference ref_k8s,
      k_contains_finalizer = k_contains_finalizer ref_k8s,
      k_add_finalizer = k_add_finalizer ref_k8s,
      k_remove_finalizer = k_remove_finalizer ref_k8s,
      k_set_status_condition = k_set_status_condition ref_k8s,
      k_remove_status_condition = k_remove_status_condition ref_k8s,
      k_get_driver = (\<lambda>n. cached_read (DriverId n) (\<lambda>c. cl_drivers c n)),
      k_update_driver = (\<lambda>d.
        cached_update (DriverId (drv_name d)) (\<lambda>c. cl_drivers c (drv_name d)) (eff_update_driver d)),
      k_update_driver_status = (\<lambda>d.
        cached_update (DriverId (drv_name d)) (\<lambda>c. cl_drivers c (drv_name d)) (eff_update_status d)),
      k_get_cm = (\<lambda>k. cached_read (ConfigMapId k) (\<lambda>c. cl_cms c k)),
      k_create_cm = (\<lambda>m. let k = meta_key (cm_meta m)
        in cached_create (ConfigMapId k) (\<lambda>c. cl_cms c k) (eff_put_cm m)),
      k_update_cm = (\<lambda>m. let k = meta_key (cm_meta m)
        in cached_update (ConfigMapId k) (\<lambda>c. cl_cms c k) (eff_put_cm m)),
      k_get_ds = (\<lambda>k. cached_read (DaemonSetId k) (\<lambda>c. cl_dss c k)),
      k_create_ds = (\<lambda>s. let k = meta_key (ds_meta s)
        in cached_create (DaemonSetId k) (\<lambda>c. cl_dss c k) (eff_put_ds s)),
      k_update_ds = (\<lambda>s. let k = meta_key (ds_meta s)
        in cached_update (DaemonSetId k) (\<lambda>c. cl_dss c k) (eff_put_ds s)),
      k_get_mwc = (\<lambda>n. cached_read (WebhookId n) (\<lambda>c. cl_mwcs c n)),
      k_create_mwc = (\<lambda>m. let n = om_name (mwc_meta m)
        in cached_create (WebhookId n) (\<lambda>c. cl_mwcs c n) (eff_put_mwc m)),
      k_update_mwc = (\<lambda>m. let n = om_name (mwc_meta m)
        in cached_update (WebhookId n) (\<lambda>c. cl_mwcs c n) (eff_put_mwc m)),
      k_delete_mwc = (\<lambda>m. let n = om_name (mwc_meta m)
        in cached_delete (WebhookId n) (\<lambda>c. cl_mwcs c n) (eff_delete_mwc m)),
      k_retry_on_conflict = retry_steps 3\<rparr>"

lemma cached_cm_simps:
  "k_get_cm cached_k8s k = cached_read (ConfigMapId k) (\<lambda>c. cl_cms c k)"
  "k_create_cm cached_k8s m =
     cached_create (ConfigMapId (meta_key (cm_meta m))) (\<lambda>c. cl_cms c (meta_key (cm_meta m))) (eff_put_cm m)"
  "k_update_cm cached_k8s m =
     cached_update (ConfigMapId (meta_key (cm_meta m))) (\<lambda>c. cl_cms c (meta_key (cm_meta m))) (eff_put_cm m)"
  "k_get_driver cached_k8s n = cached_read (DriverId n) (\<lambda>c. cl_drivers c n)"
  by (simp_all add: cached_k8s_def Let_def)

section \<open>The singleton under lag\<close>

text \<open>The record of the cluster, and the record that a claim writes over it.\<close>

definition claimed :: "string \<Rightarrow> string \<Rightarrow> cluster \<Rightarrow> ConfigMap" where
  "claimed ns n c =
     (case cl_cms c (singleton_key ns) of
        None \<Rightarrow> new_singleton ns n
      | Some m \<Rightarrow> m\<lparr>cm_data := (cm_data m)(singletonActiveKey \<mapsto> n)\<rparr>)"

lemma claimed_key:
  "well_named c \<Longrightarrow> meta_key (cm_meta (claimed ns n c)) = singleton_key ns"
  by (auto simp: claimed_def new_singleton_def singleton_key_def meta_key_def
      dest: well_namedD(2) split: option.split)

lemma well_named_claimed:
  "well_named c \<Longrightarrow> well_named (eff_put_cm (claimed ns n c) c)"
  by (simp add: well_named_eff)

lemma active_claimed:
  "well_named c \<Longrightarrow> active_of ns (eff_put_cm (claimed ns n c) c) = n"
  by (simp add: active_of_def eff_put_cm_def claimed_key)
     (simp add: claimed_def new_singleton_def str_at_def split: option.split)

lemma before_read_simps [simp]:
  "ca_store (before_read w) = ca_store w" "ca_versions (before_read w) = ca_versions w"
  "ca_lag (before_read w) = tl (ca_lag w)"
  by (auto simp: before_read_def catch_up_def split: list.splits)

lemma before_read_cache:
  "up_to_date w \<or> ca_lag w = [] \<or> hd (ca_lag w) \<Longrightarrow> up_to_date (before_read w)"
  "ca_lag w \<noteq> [] \<Longrightarrow> \<not> hd (ca_lag w) \<Longrightarrow> ca_cache (before_read w) = ca_cache w"
  "ca_lag w \<noteq> [] \<Longrightarrow> \<not> hd (ca_lag w) \<Longrightarrow> ca_cached_versions (before_read w) = ca_cached_versions w"
  by (auto simp: up_to_date_def before_read_def catch_up_def split: list.splits)

text \<open>The state after a read, but for the versions of the copies that are held.\<close>

definition has_read :: "cached \<Rightarrow> cached \<Rightarrow> bool" where
  "has_read w v \<longleftrightarrow> ca_store v = ca_store w \<and> ca_versions v = ca_versions w \<and>
     ca_cache v = ca_cache (before_read w) \<and>
     ca_cached_versions v = ca_cached_versions (before_read w) \<and> ca_lag v = tl (ca_lag w)"

lemma has_read_up_to_date:
  assumes "has_read w v" and "up_to_date (before_read w)"
  shows "up_to_date v" and "up_to_date (before_read v)"
proof -
  show "up_to_date v" using assms by (simp add: has_read_def up_to_date_def)
  then show "up_to_date (before_read v)" by (simp add: before_read_cache)
qed

lemma getActive_cached:
  "\<exists>v. getActiveCXIDriver cached_k8s ns w = (v, Inr (active_of ns (ca_cache (before_read w)))) \<and>
     has_read w v"
  by (cases "cl_cms (ca_cache (before_read w)) (singleton_key ns)")
    (simp_all add: getActiveCXIDriver_def cached_cm_simps cached_read_def active_of_def Let_def
      server_error_def IsNotFound_def has_read_def)

text \<open>A claim that reads the current record takes effect; one that reads an older record fails.\<close>

lemma setActive_current:
  assumes "n \<noteq> ''''" and "well_named (ca_store w)" and "up_to_date (before_read w)"
  obtains w1 where "setActiveCXIDriver cached_k8s ns n w = (w1, None)"
    "ca_store w1 = eff_put_cm (claimed ns n (ca_store w)) (ca_store w)"
    "ca_versions w1 (ConfigMapId (singleton_key ns)) \<noteq>
       ca_cached_versions w1 (ConfigMapId (singleton_key ns))"
    "ca_cache w1 = ca_store w" "ca_lag w1 = tl (ca_lag w)"
  using assms claimed_key [OF assms(2), of ns n]
  by (auto simp: setActiveCXIDriver_def cached_cm_simps cached_read_def cached_create_def
      cached_update_def stored_def claimed_def up_to_date_def Let_def server_error_def IsNotFound_def
      split: option.splits)

lemma setActive_stale:
  assumes "n \<noteq> ''''" and "well_named (ca_cache (before_read w))"
    and "cl_cms (ca_store w) (singleton_key ns) \<noteq> None"
    and "ca_cached_versions (before_read w) (ConfigMapId (singleton_key ns)) \<noteq>
      ca_versions w (ConfigMapId (singleton_key ns))"
  obtains w1 e where "setActiveCXIDriver cached_k8s ns n w = (w1, Some e)" "ca_store w1 = ca_store w"
  using assms claimed_key [OF assms(2), of ns n]
  by (auto simp: setActiveCXIDriver_def cached_cm_simps cached_read_def cached_create_def
      cached_update_def claimed_def Let_def server_error_def IsNotFound_def
      split: option.splits)

text \<open>The check of a driver, by what its first read shows.\<close>

lemma isActive_sees_nobody:
  assumes "active_of ns (ca_cache (before_read w)) = ''''"
  obtains v where "has_read w v" "isActiveCXIDriver cached_k8s ns n w =
    (case setActiveCXIDriver cached_k8s ns n v of
       (w2, Some e) \<Rightarrow> (w2, Inl e) | (w2, None) \<Rightarrow> (w2, Inr True))"
  using getActive_cached [of ns w] assms that by (auto simp: isActiveCXIDriver_def)

lemma isActive_sees_other:
  assumes "active_of ns (ca_store w) \<notin> {'''', n}" and "up_to_date (before_read w)"
    and "cl_drivers (ca_store w) (active_of ns (ca_store w)) \<noteq> None"
  shows "\<exists>w1. isActiveCXIDriver cached_k8s ns n w = (w1, Inr False) \<and> ca_store w1 = ca_store w"
proof -
  obtain v where v: "getActiveCXIDriver cached_k8s ns w = (v, Inr (active_of ns (ca_store w)))"
    "has_read w v" using getActive_cached [of ns w] assms(2) by (auto simp: up_to_date_def)
  have "ca_cache (before_read v) = ca_store w" "ca_store v = ca_store w"
    using has_read_up_to_date [OF v(2) assms(2)] v(2) by (simp_all add: up_to_date_def has_read_def)
  then show ?thesis
    using v(1) assms(1,3) by (auto simp: isActiveCXIDriver_def cached_cm_simps cached_read_def Let_def)
qed

text \<open>The first claim: whatever the schedule, the cache is as good as the store.\<close>

lemma isActive_up_to_date:
  assumes "up_to_date w" and "well_named (ca_store w)" and "active_of ns (ca_store w) = ''''"
    and "n \<noteq> ''''"
  obtains w1 where "isActiveCXIDriver cached_k8s ns n w = (w1, Inr True)"
    "ca_store w1 = eff_put_cm (claimed ns n (ca_store w)) (ca_store w)"
    "ca_versions w1 (ConfigMapId (singleton_key ns)) \<noteq>
       ca_cached_versions w1 (ConfigMapId (singleton_key ns))"
    "ca_cache w1 = ca_store w" "ca_lag w1 = tl (tl (ca_lag w))"
proof -
  have b: "up_to_date (before_read w)" using assms(1) by (simp add: before_read_cache)
  then have "active_of ns (ca_cache (before_read w)) = ''''"
    using assms(3) by (simp add: up_to_date_def)
  then obtain v where v: "has_read w v" "isActiveCXIDriver cached_k8s ns n w =
      (case setActiveCXIDriver cached_k8s ns n v of
         (w2, Some e) \<Rightarrow> (w2, Inl e) | (w2, None) \<Rightarrow> (w2, Inr True))"
    by (rule isActive_sees_nobody)
  have s: "ca_store v = ca_store w" "ca_lag v = tl (ca_lag w)" using v(1) by (simp_all add: has_read_def)
  show ?thesis
    by (rule setActive_current [OF assms(4) _ has_read_up_to_date(2) [OF v(1) b], of ns])
      (use assms(2) s v(2) that in auto)
qed

text \<open>The second claim, when the store has moved on since the cache was filled.\<close>

lemma isActive_behind:
  assumes "ca_lag w = False # y # lag" and "active_of ns (ca_cache w) = ''''" and "n \<noteq> ''''"
    and "well_named (ca_store w)" and "well_named (ca_cache w)"
    and "cl_cms (ca_store w) (singleton_key ns) \<noteq> None"
    and "ca_versions w (ConfigMapId (singleton_key ns)) \<noteq>
       ca_cached_versions w (ConfigMapId (singleton_key ns))"
  shows "\<exists>w1 r. isActiveCXIDriver cached_k8s ns n w = (w1, r) \<and>
    (if y then r = Inr True \<and> ca_store w1 = eff_put_cm (claimed ns n (ca_store w)) (ca_store w)
     else (\<exists>e. r = Inl e) \<and> ca_store w1 = ca_store w)"
proof -
  have c: "ca_cache (before_read w) = ca_cache w"
    "ca_cached_versions (before_read w) = ca_cached_versions w"
    using assms(1) by (simp_all add: before_read_cache)
  then have "active_of ns (ca_cache (before_read w)) = ''''" using assms(2) by simp
  then obtain v where v: "has_read w v" "isActiveCXIDriver cached_k8s ns n w =
      (case setActiveCXIDriver cached_k8s ns n v of
         (w2, Some e) \<Rightarrow> (w2, Inl e) | (w2, None) \<Rightarrow> (w2, Inr True))"
    by (rule isActive_sees_nobody)
  have s: "ca_store v = ca_store w" "ca_versions v = ca_versions w" "ca_cache v = ca_cache w"
    "ca_cached_versions v = ca_cached_versions w" "ca_lag v = y # lag"
    using v(1) c assms(1) by (simp_all add: has_read_def)
  show ?thesis
  proof (cases y)
    case True
    then have u: "up_to_date (before_read v)" using s(5) by (simp add: before_read_cache)
    show ?thesis
      by (rule setActive_current [OF assms(3) _ u, of ns]) (use assms(4) s v(2) True in auto)
  next
    case False
    then have "ca_cache (before_read v) = ca_cache w"
      "ca_cached_versions (before_read v) = ca_cached_versions w"
      using s by (simp_all add: before_read_cache)
    note c2 = this
    show ?thesis
      by (rule setActive_stale [OF assms(3), of v ns]) (use c2 assms(5-7) s v(2) False in auto)
  qed
qed

text \<open>
  C18: The singleton check is only as good as its reads. One controller serves two drivers one
  after the other, and the first becomes the active one. The second is then told that it is not
  active if its first read is up to date; if both its reads lag, the server refuses the write, and
  the request is tried again. But if the record arrives between its two reads, it takes the
  singleton from the first, which was told that it has it: the check and the claim read the record
  separately, so the version that protects the write is not the one that was checked.
\<close>

theorem singleton_check_under_lag:
  assumes "up_to_date w" and "well_named (ca_store w)" and "active_of ns (ca_store w) = ''''"
    and "cl_drivers (ca_store w) a \<noteq> None" and "a \<notin> {'''', n}" and "n \<noteq> ''''"
    and "ca_lag w = p # q # x # y # lag"
  shows "\<exists>w1 w2 r. isActiveCXIDriver cached_k8s ns a w = (w1, Inr True) \<and>
    active_of ns (ca_store w1) = a \<and> isActiveCXIDriver cached_k8s ns n w1 = (w2, r) \<and>
    (if x then r = Inr False \<and> active_of ns (ca_store w2) = a
     else if y then r = Inr True \<and> active_of ns (ca_store w2) = n
     else (\<exists>e. r = Inl e) \<and> active_of ns (ca_store w2) = a)"
proof -
  let ?k = "singleton_key ns" and ?c1 = "eff_put_cm (claimed ns a (ca_store w)) (ca_store w)"
  have "a \<noteq> ''''" using assms(5) by simp
  from isActive_up_to_date [OF assms(1-3) this] obtain w1 where
    1: "isActiveCXIDriver cached_k8s ns a w = (w1, Inr True)" "ca_store w1 = ?c1"
      "ca_versions w1 (ConfigMapId ?k) \<noteq> ca_cached_versions w1 (ConfigMapId ?k)"
      "ca_cache w1 = ca_store w" "ca_lag w1 = x # y # lag"
    using assms(7) by auto
  have act: "active_of ns ?c1 = a" by (rule active_claimed [OF assms(2)])
  have wn: "well_named ?c1" by (rule well_named_claimed [OF assms(2)])
  show ?thesis
  proof (cases x)
    case True
    then have "up_to_date (before_read w1)" using 1(5) by (simp add: before_read_cache)
    then have "\<exists>w2. isActiveCXIDriver cached_k8s ns n w1 = (w2, Inr False) \<and> ca_store w2 = ca_store w1"
      by (intro isActive_sees_other) (use 1(2) act assms(4,5) in \<open>simp_all add: eff_put_cm_def\<close>)
    then show ?thesis using 1 act True by auto
  next
    case False
    have "cl_cms ?c1 ?k \<noteq> None" using claimed_key [OF assms(2), of ns a] by (simp add: eff_put_cm_def)
    with isActive_behind [of w1 y lag ns n] 1 False assms(2,3,6) wn obtain w2 r where
      2: "isActiveCXIDriver cached_k8s ns n w1 = (w2, r)"
        "if y then r = Inr True \<and> ca_store w2 = eff_put_cm (claimed ns n ?c1) ?c1
         else (\<exists>e. r = Inl e) \<and> ca_store w2 = ?c1"
      by auto
    then show ?thesis using 1 act active_claimed [OF wn, of ns n] False by (cases y) auto
  qed
qed

text \<open>Two live drivers and no active one; only the fourth read finds the cache filled again.\<close>

definition two_claims :: cached where
  "two_claims =
     \<lparr>ca_store = two_drivers\<lparr>cl_cms := Map.empty\<rparr>, ca_versions = (\<lambda>x. 0),
      ca_cache = two_drivers\<lparr>cl_cms := Map.empty\<rparr>, ca_cached_versions = (\<lambda>x. 0),
      ca_held = (\<lambda>x. 0), ca_lag = [False, False, False, True]\<rparr>"

lemma two_claims_simps:
  "up_to_date two_claims" "well_named (ca_store two_claims)"
  "active_of ''ops'' (ca_store two_claims) = ''''" "cl_drivers (ca_store two_claims) = cl_drivers two_drivers"
  "ca_lag two_claims = [False, False, False, True]"
  using two_drivers_simps(4)
  by (simp_all add: two_claims_def up_to_date_def active_of_def well_named_def)

theorem singleton_check_under_lag_witness:
  "\<exists>w1 w2. isActiveCXIDriver cached_k8s ''ops'' ''a'' two_claims = (w1, Inr True) \<and>
     isActiveCXIDriver cached_k8s ''ops'' ''b'' w1 = (w2, Inr True) \<and>
     active_of ''ops'' (ca_store w2) = ''b''"
  using singleton_check_under_lag [of two_claims "''ops''" "''a''" "''b''" False False False True "[]"]
  by (auto simp: two_claims_simps)

end
