(* ===== verification/SidecarInjector.thy ===== *)
theory SidecarInjector
  imports KubeTypes
begin

text \<open>
  The mutating webhook (\<open>pkg/webhook/sidecar_injector.go\<close> and \<open>setup.go\<close>): which pods get the retry
  handler as a sidecar, and how it is added. The decoder of admission requests comes from outside
  and is a parameter; it is a field of the injector that may be unset. The patch of the response
  is the difference between the request's pod and the new pod, so the new pod stands for it.
\<close>

abbreviation annotationInjectSidecar :: string where
  "annotationInjectSidecar \<equiv> ''slingshot.hpe.com/inject-retry-handler''"
abbreviation annotationSidecarInjected :: string where
  "annotationSidecarInjected \<equiv> ''slingshot.hpe.com/retry-handler-injected''"
abbreviation labelPodManagedBy :: string where
  "labelPodManagedBy \<equiv> ''slingshot.hpe.com/managed-by''"
abbreviation sidecarContainerName :: string where "sidecarContainerName \<equiv> ''cxi-retry-handler''"
abbreviation defaultCXIRHPath :: string where "defaultCXIRHPath \<equiv> ''/usr/bin/cxi_rh''"
abbreviation defaultRetryHandlerImage :: string where
  "defaultRetryHandlerImage \<equiv> ''ghcr.io/sielicki/slingshot-operator/retry-handler:latest''"

record SidecarInjectorConfig =
  sic_image :: string
  sic_cxi_rh_path :: string
  sic_resource_name :: string
  sic_native :: bool

text \<open>A decoder turns a raw request into a pod or an error; the raw type is abstract.\<close>

record 'r SidecarInjector =
  si_decoder :: "('r \<Rightarrow> string + Pod) option"
  si_config :: SidecarInjectorConfig

definition NewSidecarInjector :: "SidecarInjectorConfig \<Rightarrow> 'r SidecarInjector" where
  "NewSidecarInjector c =
     (let c1 = (if sic_image c = '''' then c\<lparr>sic_image := defaultRetryHandlerImage\<rparr> else c);
          c2 = (if sic_cxi_rh_path c1 = '''' then c1\<lparr>sic_cxi_rh_path := defaultCXIRHPath\<rparr> else c1);
          c3 = (if sic_resource_name c2 = '''' then c2\<lparr>sic_resource_name := ''hpe.com/cxi''\<rparr> else c2)
      in \<lparr>si_decoder = None, si_config = c3\<rparr>)"

definition InjectDecoder :: "'r SidecarInjector \<Rightarrow> ('r \<Rightarrow> string + Pod) \<Rightarrow> 'r SidecarInjector" where
  "InjectDecoder s d = s\<lparr>si_decoder := Some d\<rparr>"

section \<open>The decision\<close>

definition containerRequestsCXI :: "Container \<Rightarrow> bool" where
  "containerRequestsCXI c \<longleftrightarrow>
     list_ex (\<lambda>(r, _). HasPrefix r ''hpe.com/cxi'') (rr_limits (c_resources c)) \<or>
     list_ex (\<lambda>(r, _). HasPrefix r ''hpe.com/cxi'') (rr_requests (c_resources c))"

definition requestsCXIDevice :: "Pod \<Rightarrow> bool" where
  "requestsCXIDevice p \<longleftrightarrow>
     list_ex containerRequestsCXI (ps_containers (pod_spec p)) \<or>
     list_ex containerRequestsCXI (ps_init_containers (pod_spec p))"

definition shouldInject :: "Pod \<Rightarrow> bool" where
  "shouldInject p =
     (case om_annotations (pod_meta p) annotationInjectSidecar of
        Some v \<Rightarrow> v = ''true'' \<or> v = ''enabled''
      | None \<Rightarrow> requestsCXIDevice p)"

definition alreadyInjected :: "Pod \<Rightarrow> bool" where
  "alreadyInjected p \<longleftrightarrow>
     om_annotations (pod_meta p) annotationSidecarInjected = Some ''true'' \<or>
     list_ex (\<lambda>c. c_name c = sidecarContainerName) (ps_containers (pod_spec p)) \<or>
     list_ex (\<lambda>c. c_name c = sidecarContainerName) (ps_init_containers (pod_spec p))"

section \<open>The injection\<close>

text \<open>The source ranges over a map, so the order of the result is not determined there.\<close>

definition findCXIDevices :: "Pod \<Rightarrow> string list" where
  "findCXIDevices p =
     remdups (filter (\<lambda>r. HasPrefix r ''hpe.com/cxi'')
       (concat (map (\<lambda>c. map fst (rr_limits (c_resources c))) (ps_containers (pod_spec p)))))"

definition hasDevVolume :: "Pod \<Rightarrow> bool" where
  "hasDevVolume p \<longleftrightarrow> list_ex (\<lambda>v. v_name v = ''dev'') (ps_volumes (pod_spec p))"

definition buildSidecarContainer :: "SidecarInjectorConfig \<Rightarrow> string list \<Rightarrow> Container" where
  "buildSidecarContainer cfg devices =
     \<lparr>c_name = sidecarContainerName,
      c_image = sic_image cfg,
      c_args = [''--mode=single'', ''--cxi-rh-path='' @ sic_cxi_rh_path cfg] @
        (if devices = [] then [] else [''--device=cxi0'']),
      c_env = [], c_ports = [],
      c_security = Some \<lparr>sc_privileged = Some True, sc_run_as_user = Some 0,
        sc_capabilities = [''SYS_ADMIN'', ''IPC_LOCK'']\<rparr>,
      c_liveness = None, c_readiness = None,
      c_resources = \<lparr>rr_requests = [(''cpu'', ''10m''), (''memory'', ''32Mi'')],
        rr_limits = [(''cpu'', ''100m''), (''memory'', ''64Mi'')]\<rparr>,
      c_mounts = [mount ''dev'' ''/dev'' False],
      c_restart_policy = None\<rparr>"

definition injectSidecar :: "SidecarInjectorConfig \<Rightarrow> Pod \<Rightarrow> Pod" where
  "injectSidecar cfg p =
     (let meta = (pod_meta p)
            \<lparr>om_annotations := (om_annotations (pod_meta p))(annotationSidecarInjected \<mapsto> ''true''),
             om_labels := (om_labels (pod_meta p))(labelPodManagedBy \<mapsto> ''slingshot-operator'')\<rparr>;
          sidecar = buildSidecarContainer cfg (findCXIDevices p);
          spec = pod_spec p;
          vols = (if hasDevVolume p then ps_volumes spec
                  else ps_volumes spec @ [host_volume ''dev'' ''/dev'']);
          spec' = (if sic_native cfg
                   then spec\<lparr>ps_volumes := vols, ps_init_containers := ps_init_containers spec @
                          [sidecar\<lparr>c_restart_policy := Some ''Always''\<rparr>]\<rparr>
                   else spec\<lparr>ps_volumes := vols, ps_containers := ps_containers spec @ [sidecar]\<rparr>)
      in \<lparr>pod_meta = meta, pod_spec = spec'\<rparr>)"

datatype pod_response = PodErrored int string | PodAllowed string | PodPatched Pod

text \<open>
  \<open>Handle\<close>; \<open>None\<close> is the panic of a call through the unset decoder. Encoding a pod as JSON does not
  fail.
\<close>

definition Handle_pod :: "'r SidecarInjector \<Rightarrow> 'r \<Rightarrow> pod_response option" where
  "Handle_pod s req =
     (case si_decoder s of
        None \<Rightarrow> None
      | Some decode \<Rightarrow>
          Some (case decode req of
                  Inl e \<Rightarrow> PodErrored 400 e
                | Inr pod \<Rightarrow>
                    if \<not> shouldInject pod then PodAllowed ''no injection needed''
                    else if alreadyInjected pod then PodAllowed ''already injected''
                    else PodPatched (injectSidecar (si_config s) pod)))"

text \<open>What \<open>SetupWithManager\<close> registers with the webhook server, by path.\<close>

record WebhookConfig =
  wc_injector :: SidecarInjectorConfig
  wc_enable_injector :: bool
  wc_enable_validator :: bool

datatype 'r webhook_handler = PodInjector "'r SidecarInjector" | DriverValidator

definition SetupWithManager :: "WebhookConfig \<Rightarrow> (string \<times> 'r webhook_handler) list" where
  "SetupWithManager c =
     (if wc_enable_injector c
      then [(''/mutate-v1-pod'', PodInjector (NewSidecarInjector (wc_injector c)))] else []) @
     (if wc_enable_validator c then [(''/validate-cxi-hpe-com-v1-cxidriver'', DriverValidator)] else [])"

definition SetupSidecarInjector :: "SidecarInjectorConfig \<Rightarrow> (string \<times> 'r webhook_handler) list" where
  "SetupSidecarInjector c =
     SetupWithManager \<lparr>wc_injector = c, wc_enable_injector = True, wc_enable_validator = False\<rparr>"

section \<open>Properties\<close>

lemma list_ex_sidecar: "list_ex (\<lambda>c. c_name c = n) cs \<longleftrightarrow> n \<in> set (map c_name cs)"
  by (auto simp: list_ex_iff)

lemma sidecar_sel [simp]:
  "c_name (buildSidecarContainer cfg ds) = sidecarContainerName"
  "c_mounts (buildSidecarContainer cfg ds) = [mount ''dev'' ''/dev'' False]"
  "c_ports (buildSidecarContainer cfg ds) = []" "c_env (buildSidecarContainer cfg ds) = []"
  "c_liveness (buildSidecarContainer cfg ds) = None" "c_readiness (buildSidecarContainer cfg ds) = None"
  by (simp_all add: buildSidecarContainer_def)

lemma sidecar_requests_nothing: "\<not> containerRequestsCXI (buildSidecarContainer cfg ds)"
    "\<not> containerRequestsCXI ((buildSidecarContainer cfg ds)\<lparr>c_restart_policy := r\<rparr>)"
  by (simp_all add: containerRequestsCXI_def buildSidecarContainer_def)

lemma inject_decision:
  "shouldInject (injectSidecar cfg p) = shouldInject p" "alreadyInjected (injectSidecar cfg p)"
  by (simp_all add: shouldInject_def requestsCXIDevice_def alreadyInjected_def injectSidecar_def
      sidecar_requests_nothing Let_def split: option.split)

text \<open>
  C26: Injection happens once. If the webhook patches a pod, then, called again on the patched pod
  (the API server may do so), it answers that the sidecar is there already.
\<close>

theorem injection_is_idempotent:
  assumes "Handle_pod s req = Some (PodPatched p')" and "si_decoder s = Some decode"
    and "decode req' = Inr p'"
  shows "Handle_pod s req' = Some (PodAllowed ''already injected'')"
  using assms inject_decision
  by (auto simp: Handle_pod_def split: sum.splits if_splits)

definition sample_pod :: "(string \<times> string) list \<Rightarrow> (string \<times> string) list \<Rightarrow> Pod" where
  "sample_pod reqs lims =
     \<lparr>pod_meta = new_meta ''job'' ''default'' Map.empty,
      pod_spec = \<lparr>ps_host_pid = False, ps_node_selector = Map.empty, ps_init_containers = [],
        ps_containers = [\<lparr>c_name = ''main'', c_image = ''app'', c_args = [], c_env = [], c_ports = [],
          c_security = None, c_liveness = None, c_readiness = None,
          c_resources = \<lparr>rr_requests = reqs, rr_limits = lims\<rparr>, c_mounts = [],
          c_restart_policy = None\<rparr>],
        ps_volumes = []\<rparr>\<rparr>"

definition sample_injector :: "bool \<Rightarrow> Pod SidecarInjector" where
  "sample_injector native =
     InjectDecoder (NewSidecarInjector
       \<lparr>sic_image = '''', sic_cxi_rh_path = '''', sic_resource_name = '''', sic_native = native\<rparr>) Inr"

lemma sample_injector_sel [simp]: "si_decoder (sample_injector b) = Some Inr"
  by (simp add: sample_injector_def InjectDecoder_def)

lemma sample_pod_injected:
  "Handle_pod (sample_injector b) (sample_pod [] [(''hpe.com/cxi'', ''1'')]) =
     Some (PodPatched (injectSidecar (si_config (sample_injector b)) (sample_pod [] [(''hpe.com/cxi'', ''1'')])))"
  by (simp add: Handle_pod_def shouldInject_def alreadyInjected_def sample_pod_def
      requestsCXIDevice_def containerRequestsCXI_def)

theorem injection_is_idempotent_witness:
  "Handle_pod (sample_injector True)
     (injectSidecar (si_config (sample_injector True)) (sample_pod [] [(''hpe.com/cxi'', ''1'')])) =
   Some (PodAllowed ''already injected'')"
  by (rule injection_is_idempotent [OF sample_pod_injected]) simp_all



text \<open>
  As the program sets it up, the injector never answers: nothing sets its decoder, so every request
  ends in a panic.
\<close>

lemma registered_injector_panics:
  "(path, PodInjector s) \<in> set (SetupWithManager c) \<Longrightarrow> Handle_pod s req = None"
  by (auto simp: SetupWithManager_def NewSidecarInjector_def Handle_pod_def Let_def split: if_splits)

end
