(* ===== verification/Admission.thy ===== *)
theory Admission
  imports ReconcilerProps SidecarInjector
begin

text \<open>
  Where the reconciler and the injector meet: the webhook configuration that the operator creates
  in sidecar mode, the handlers its programs register, and what the API server makes of both when a
  pod is created. The API server calls the webhooks of a configuration in order, those whose rules
  and namespace selector match; a call that fails (no handler, a panic) counts by the failure policy.
\<close>

section \<open>The API server's side\<close>

definition rules_match :: "MutatingWebhook \<Rightarrow> bool" where
  "rules_match h \<longleftrightarrow>
     ''CREATE'' \<in> set (mw_operations h) \<and> '''' \<in> set (mw_api_groups h) \<and>
     ''v1'' \<in> set (mw_api_versions h) \<and> ''pods'' \<in> set (mw_resources h)"

definition namespace_selected :: "MutatingWebhook \<Rightarrow> (string \<rightharpoonup> string) \<Rightarrow> bool" where
  "namespace_selected h labels \<longleftrightarrow>
     (case labels (mw_selector_key h) of None \<Rightarrow> False | Some v \<Rightarrow> v \<in> set (mw_selector_values h))"

text \<open>
  The answer of the operator's webhook server to a pod sent to a path; \<open>None\<close> is a failed call. A
  pod is its own encoding here.
\<close>

definition webhook_call :: "(string \<times> Pod webhook_handler) list \<Rightarrow> string \<Rightarrow> Pod \<Rightarrow> pod_response option" where
  "webhook_call handlers path p =
     (case map_of handlers path of Some (PodInjector s) \<Rightarrow> Handle_pod s p | _ \<Rightarrow> None)"

fun admit_pod ::
  "(string \<times> Pod webhook_handler) list \<Rightarrow> (string \<rightharpoonup> string) \<Rightarrow> MutatingWebhook list \<Rightarrow> Pod \<Rightarrow> string + Pod"
  where
  "admit_pod handlers labels [] p = Inr p"
| "admit_pod handlers labels (h # hs) p =
     (if \<not> (rules_match h \<and> namespace_selected h labels) then admit_pod handlers labels hs p
      else (case webhook_call handlers (mw_path h) p of
              None \<Rightarrow>
                if mw_failure_policy h = ''Ignore'' then admit_pod handlers labels hs p
                else Inl (''failed calling webhook '' @ mw_name h)
            | Some (PodErrored code e) \<Rightarrow> Inl e
            | Some (PodAllowed msg) \<Rightarrow> admit_pod handlers labels hs p
            | Some (PodPatched p') \<Rightarrow> admit_pod handlers labels hs p'))"

text \<open>The same handlers, had somebody given the injector a decoder.\<close>

definition with_decoder :: "(string \<times> Pod webhook_handler) list \<Rightarrow> (string \<times> Pod webhook_handler) list" where
  "with_decoder handlers =
     map (\<lambda>(path, h). (path, case h of PodInjector s \<Rightarrow> PodInjector (InjectDecoder s Inr)
                             | DriverValidator \<Rightarrow> DriverValidator)) handlers"

section \<open>The operator's webhook\<close>

lemma registered_call:
  "webhook_call (SetupWithManager c) path p = None"
proof (cases "map_of (SetupWithManager c :: (string \<times> Pod webhook_handler) list) path")
  case (Some h)
  then have "(path, h) \<in> set (SetupWithManager c)" by (rule map_of_SomeD)
  with Some show ?thesis
    by (cases h) (auto simp: webhook_call_def registered_injector_panics)
qed (simp add: webhook_call_def)

lemma decoded_call:
  assumes "wc_enable_injector c"
  shows "webhook_call (with_decoder (SetupWithManager c)) ''/mutate-v1-pod'' p =
    Some (if \<not> shouldInject p then PodAllowed ''no injection needed''
          else if alreadyInjected p then PodAllowed ''already injected''
          else PodPatched (injectSidecar
                 (si_config (NewSidecarInjector (wc_injector c) :: Pod SidecarInjector)) p))"
  using assms
  by (simp add: webhook_call_def with_decoder_def SetupWithManager_def Handle_pod_def InjectDecoder_def)

lemma operator_webhook_matches:
  "mwc_webhooks (build_sidecar_webhook ns d) = [h] \<Longrightarrow>
     rules_match h \<and> mw_path h = ''/mutate-v1-pod'' \<and> mw_failure_policy h = ''Ignore'' \<and>
     mw_ca_bundle h = ''''"
  by (auto simp: build_sidecar_webhook_def rules_match_def)

lemma operator_webhook: "\<exists>h. mwc_webhooks (build_sidecar_webhook ns d) = [h]"
  by (simp add: build_sidecar_webhook_def)



end
