(* ===== verification/Host.thy ===== *)
theory Host
  imports GoStd
begin

text \<open>
  The host as the driver agent works on it. An action is what a Go function does: it asks the
  host, performs operations one after the other, and ends with a value or an error text. The
  operations tried so far, with whether each succeeded, are the trace; what the host answers may
  depend on the whole trace, so nothing is assumed about it. Nothing here models code of the
  repository but \<open>filepath.Clean\<close> and \<open>filepath.Join\<close>, which belong to Go's library.
\<close>

section \<open>Operations\<close>

datatype host_op =
    MkdirAll string
  | RemoveAll string
  | RemoveFile string
  | HttpGet string
  | CreateTemp
  | CreateFile string
  | OpenFile string
  | CopyInto string
  | OpenGzip string
  | OpenZip string
  | OpenZipEntry string
  | MakeSymlink string string
  | StatPath string
  | ReadDir string
  | Rename string string
  | WriteFile string string
  | Chmod string
  | Setenv string string
  | Run string "string list"
  | Make string "string list" "(string \<times> string) list"

type_synonym trace = "(host_op \<times> bool) list"

datatype entry_type = TypeDir | TypeReg | TypeSymlink | TypeOther

record archive_entry =
  en_name :: string
  en_type :: entry_type
  en_link :: string

datatype file_tree = File | Dir "(string \<times> file_tree) list"

text \<open>
  What the host answers. An operation fails with a text or succeeds; an archive stream delivers
  entries, or an error in place of one; the entries of a directory come with their type.
\<close>

record host =
  ho_do :: "trace \<Rightarrow> host_op \<Rightarrow> string option"
  ho_status :: "trace \<Rightarrow> string \<Rightarrow> int"
  ho_tar :: "trace \<Rightarrow> string \<Rightarrow> (string + archive_entry) list"
  ho_zip :: "trace \<Rightarrow> string \<Rightarrow> archive_entry list"
  ho_temp :: "trace \<Rightarrow> string"
  ho_readdir :: "trace \<Rightarrow> string \<Rightarrow> string + (string \<times> bool) list"
  ho_exists :: "trace \<Rightarrow> string \<Rightarrow> bool"
  ho_tree :: "trace \<Rightarrow> string \<Rightarrow> file_tree"
  ho_read :: "trace \<Rightarrow> string \<Rightarrow> string + string"

type_synonym 'a act = "host \<Rightarrow> trace \<Rightarrow> (string + 'a) \<times> trace"

definition ret :: "'a \<Rightarrow> 'a act" where
  "ret x = (\<lambda>H t. (Inr x, t))"

definition fail :: "string \<Rightarrow> 'a act" where
  "fail e = (\<lambda>H t. (Inl e, t))"

definition andThen :: "'a act \<Rightarrow> ('a \<Rightarrow> 'b act) \<Rightarrow> 'b act" where
  "andThen m f = (\<lambda>H t. case m H t of (Inl e, t') \<Rightarrow> (Inl e, t') | (Inr x, t') \<Rightarrow> f x H t')"

definition ask :: "(host \<Rightarrow> trace \<Rightarrow> 'a) \<Rightarrow> 'a act" where
  "ask q = (\<lambda>H t. (Inr (q H t), t))"

definition effect :: "host_op \<Rightarrow> unit act" where
  "effect op = (\<lambda>H t. case ho_do H t op of
     None \<Rightarrow> (Inr (), t @ [(op, True)]) | Some e \<Rightarrow> (Inl e, t @ [(op, False)]))"

text \<open>\<open>fmt.Errorf("...: %w", err)\<close>.\<close>

definition wrapping :: "string \<Rightarrow> 'a act \<Rightarrow> 'a act" where
  "wrapping p m = (\<lambda>H t. case m H t of (Inl e, t') \<Rightarrow> (Inl (p @ e), t') | (Inr x, t') \<Rightarrow> (Inr x, t'))"

text \<open>An error that is only logged; a deferred call.\<close>

definition ignoring :: "unit act \<Rightarrow> unit act" where
  "ignoring m = (\<lambda>H t. (Inr (), snd (m H t)))"

definition deferring :: "unit act \<Rightarrow> 'a act \<Rightarrow> 'a act" where
  "deferring d m = (\<lambda>H t. let r = m H t in (fst r, snd (d H (snd r))))"

text \<open>Actions in a row, up to the first error.\<close>

fun steps :: "unit act list \<Rightarrow> unit act" where
  "steps [] = ret ()"
| "steps (m # ms) = andThen m (\<lambda>_. steps ms)"

definition for_each :: "'a list \<Rightarrow> ('a \<Rightarrow> unit act) \<Rightarrow> unit act" where
  "for_each xs f = steps (map f xs)"

definition of_result :: "string + 'a \<Rightarrow> 'a act" where
  "of_result r = (\<lambda>H t. (r, t))"

text \<open>Reading a directory or a file: no operation, but it may fail.\<close>

definition readDir :: "string \<Rightarrow> (string \<times> bool) list act" where
  "readDir p = andThen (ask (\<lambda>H t. ho_readdir H t p)) of_result"

definition readFile :: "string \<Rightarrow> string act" where
  "readFile p = andThen (ask (\<lambda>H t. ho_read H t p)) of_result"

definition whenExists :: "string \<Rightarrow> unit act \<Rightarrow> unit act" where
  "whenExists p m = andThen (ask (\<lambda>H t. ho_exists H t p)) (\<lambda>b. if b then m else ret ())"

section \<open>Paths\<close>

text \<open>
  \<open>filepath.Clean\<close>: empty parts and dots go, two dots take back the part before, or are kept at
  the start of a relative path. The parts kept so far are in reverse order.
\<close>

fun clean_parts :: "bool \<Rightarrow> string list \<Rightarrow> string list \<Rightarrow> string list" where
  "clean_parts rooted acc [] = rev acc"
| "clean_parts rooted acc (p # ps) =
     (if p = '''' \<or> p = ''.'' then clean_parts rooted acc ps
      else if p = ''..'' then
        (if acc \<noteq> [] \<and> hd acc \<noteq> ''..'' then clean_parts rooted (tl acc) ps
         else if rooted then clean_parts rooted acc ps
         else clean_parts rooted (p # acc) ps)
      else clean_parts rooted (p # acc) ps)"

fun join_slash :: "string list \<Rightarrow> string" where
  "join_slash [] = ''''"
| "join_slash [p] = p"
| "join_slash (p # q # ps) = p @ ''/'' @ join_slash (q # ps)"

definition Clean :: "string \<Rightarrow> string" where
  "Clean p =
     (let rooted = HasPrefix p ''/'';
          s = (if rooted then ''/'' else '''') @ join_slash (clean_parts rooted [] (split_char CHR ''/'' p))
      in if s = '''' then ''.'' else s)"

text \<open>\<open>filepath.Join\<close>: the parts that are not empty, joined and cleaned.\<close>

definition Join :: "string list \<Rightarrow> string" where
  "Join ps = (let qs = filter (\<lambda>p. p \<noteq> '''') ps in if qs = [] then '''' else Clean (join_slash qs))"

definition DirOf :: "string \<Rightarrow> string" where
  "DirOf p = Clean (rev (dropWhile (\<lambda>c. c \<noteq> CHR ''/'') (rev p)))"

section \<open>Running actions\<close>

lemma act_simps [simp]:
  "ret x H t = (Inr x, t)" "fail e H t = (Inl e, t)" "ask q H t = (Inr (q H t), t)"
  "of_result r H t = (r, t)"
  by (simp_all add: ret_def fail_def ask_def of_result_def)

text \<open>
  What is seen of a run. An observer picks the operations of interest; an action \<open>emits\<close> a list of
  them if every run makes them in this order, each successfully, and stops at the first that
  fails or earlier for another reason; only a run that ends well has made them all.
\<close>

definition seen :: "(host_op \<Rightarrow> 'm option) \<Rightarrow> trace \<Rightarrow> ('m \<times> bool) list" where
  "seen obs u = List.map_filter (\<lambda>(op, b). map_option (\<lambda>m. (m, b)) (obs op)) u"

definition done_well :: "'m list \<Rightarrow> ('m \<times> bool) list" where
  "done_well ms = map (\<lambda>m. (m, True)) ms"

definition progress :: "'m list \<Rightarrow> ('m \<times> bool) list \<Rightarrow> bool \<Rightarrow> bool" where
  "progress ms es ok \<longleftrightarrow>
     (if ok then es = done_well ms
      else \<exists>n\<le>length ms. es = done_well (take n ms) \<or>
        (n < length ms \<and> es = done_well (take n ms) @ [(ms ! n, False)]))"

definition emits :: "(host_op \<Rightarrow> 'm option) \<Rightarrow> 'm list \<Rightarrow> 'a act \<Rightarrow> bool" where
  "emits obs ms m \<longleftrightarrow>
     (\<forall>H t. \<exists>u. snd (m H t) = t @ u \<and> progress ms (seen obs u) (is_ok (fst (m H t))))"

named_theorems emits_intros "what the actions emit"

lemma seen_simps [simp]:
  "seen obs [] = []" "seen obs (u @ v) = seen obs u @ seen obs v"
  "seen obs [(op, b)] = (case obs op of None \<Rightarrow> [] | Some m \<Rightarrow> [(m, b)])"
  by (simp_all add: seen_def List.map_filter_def split: option.splits)

lemma progress_nil [simp]: "progress [] es ok \<longleftrightarrow> es = []"
  by (simp add: progress_def done_well_def)

lemma progress_start: "progress ms [] False"
  by (auto simp: progress_def done_well_def intro!: exI [of _ 0])

lemma progress_append_ok:
  assumes "progress ms es True" and "progress ns fs b"
  shows "progress (ms @ ns) (es @ fs) b"
proof (cases b)
  case True
  then show ?thesis using assms by (simp add: progress_def done_well_def)
next
  case False
  with assms(2) obtain n where n: "n \<le> length ns" "fs = done_well (take n ns) \<or>
      (n < length ns \<and> fs = done_well (take n ns) @ [(ns ! n, False)])"
    by (auto simp: progress_def)
  have "es @ fs = done_well (take (length ms + n) (ms @ ns)) \<or>
      (length ms + n < length (ms @ ns) \<and>
       es @ fs = done_well (take (length ms + n) (ms @ ns)) @ [((ms @ ns) ! (length ms + n), False)])"
    using n assms(1) by (auto simp: progress_def done_well_def nth_append)
  then show ?thesis
    unfolding progress_def using False n(1) by (auto intro!: exI [of _ "length ms + n"])
qed

lemma progress_append_failed:
  assumes "progress ms es False"
  shows "progress (ms @ ns) es False"
proof -
  obtain n where "n \<le> length ms" "es = done_well (take n ms) \<or>
      (n < length ms \<and> es = done_well (take n ms) @ [(ms ! n, False)])"
    using assms by (auto simp: progress_def)
  then show ?thesis
    unfolding progress_def by (auto simp: nth_append intro!: exI [of _ n])
qed

lemma emits_basic [emits_intros]:
  "emits obs [] (ret x)" "emits obs ms (fail e)" "emits obs [] (ask q)" "emits obs [] (of_result r)"
  by (auto simp: emits_def progress_start)

lemma emits_quiet [emits_intros]: "obs op = None \<Longrightarrow> emits obs [] (effect op)"
  by (auto simp: emits_def effect_def split: option.splits)

lemma emits_observed: "obs op = Some m \<Longrightarrow> emits obs [m] (effect op)"
  by (auto simp: emits_def effect_def progress_def done_well_def split: option.splits intro!: exI [of _ 0])

lemma emits_andThen:
  assumes "emits obs ms m" and "\<And>x. emits obs ns (f x)"
  shows "emits obs (ms @ ns) (andThen m f)"
  unfolding emits_def
proof (intro allI)
  fix H t
  obtain r t' where m: "m H t = (r, t')" by (cases "m H t")
  with assms(1) obtain u where u: "t' = t @ u" "progress ms (seen obs u) (is_ok r)"
    unfolding emits_def by (metis fst_conv snd_conv)
  show "\<exists>u. snd (andThen m f H t) = t @ u \<and> progress (ms @ ns) (seen obs u) (is_ok (fst (andThen m f H t)))"
  proof (cases r)
    case (Inl e)
    with u m show ?thesis by (auto simp: andThen_def progress_append_failed)
  next
    case (Inr x)
    obtain w where "snd (f x H (t @ u)) = (t @ u) @ w" "progress ns (seen obs w) (is_ok (fst (f x H (t @ u))))"
      using assms(2) unfolding emits_def by blast
    with u m Inr show ?thesis
      by (auto simp: andThen_def intro!: exI [of _ "u @ w"] progress_append_ok)
  qed
qed

lemma emits_andThen_quiet [emits_intros]:
  "emits obs [] m \<Longrightarrow> (\<And>x. emits obs ns (f x)) \<Longrightarrow> emits obs ns (andThen m f)"
  using emits_andThen [of obs "[]" m ns f] by simp

lemma emits_wrapping [emits_intros]: "emits obs ms m \<Longrightarrow> emits obs ms (wrapping p m)"
  unfolding emits_def wrapping_def by (auto split: prod.splits sum.splits) (metis fst_conv snd_conv is_ok_simps)+

lemma emits_ignoring [emits_intros]: "emits obs [] m \<Longrightarrow> emits obs [] (ignoring m)"
  unfolding emits_def ignoring_def by simp

lemma emits_deferring [emits_intros]:
  "emits obs [] d \<Longrightarrow> emits obs ms m \<Longrightarrow> emits obs ms (deferring d m)"
  unfolding emits_def deferring_def Let_def by simp (metis append.assoc append.right_neutral seen_simps(2))

lemma emits_if [emits_intros]:
  "(b \<Longrightarrow> emits obs ms m) \<Longrightarrow> (\<not> b \<Longrightarrow> emits obs ms m') \<Longrightarrow> emits obs ms (if b then m else m')"
  by simp

lemma emits_steps_Nil [emits_intros]: "emits obs [] (steps [])"
  by (simp add: emits_basic)

lemma emits_steps_Cons: "emits obs ms m \<Longrightarrow> emits obs ns (steps l) \<Longrightarrow> emits obs (ms @ ns) (steps (m # l))"
  by (simp add: emits_andThen)

lemma emits_steps_quiet [emits_intros]:
  "emits obs [] m \<Longrightarrow> emits obs ns (steps l) \<Longrightarrow> emits obs ns (steps (m # l))"
  using emits_steps_Cons [of obs "[]" m ns l] by simp

lemma emits_for_each [emits_intros]:
  "(\<And>x. x \<in> set xs \<Longrightarrow> emits obs [] (f x)) \<Longrightarrow> emits obs [] (for_each xs f)"
  unfolding for_each_def by (induction xs) (auto simp del: steps.simps intro!: emits_intros)

lemma emits_reads [emits_intros]: "emits obs [] (readDir p)" "emits obs [] (readFile p)"
  unfolding readDir_def readFile_def by (rule emits_intros | rule emits_basic)+

lemma emits_whenExists [emits_intros]: "emits obs [] m \<Longrightarrow> emits obs [] (whenExists p m)"
  unfolding whenExists_def by (intro emits_intros)

end
