(* ===== verification/HostModules.thy ===== *)
theory HostModules
  imports GoStd
begin

text \<open>
  What the node's components read from \<open>/proc\<close> (\<open>pkg/driveragent/module.go\<close>): the list of loaded
  kernel modules and the kernel's version. A file that cannot be opened is \<open>None\<close>.
\<close>

section \<open>Lines\<close>

text \<open>
  The lines a \<open>bufio.Scanner\<close> delivers: the text after the last line feed counts if it is not
  empty, a carriage return at the end is dropped, and a line that does not fit the buffer of
  64 KiB ends the scan.
\<close>

definition drop_cr :: "string \<Rightarrow> string" where
  "drop_cr l = (if l \<noteq> [] \<and> last l = CHR 0x0D then butlast l else l)"

definition text_lines :: "string \<Rightarrow> string list" where
  "text_lines s = (let ls = split_char CHR 0x0A s in if last ls = [] then butlast ls else ls)"

definition scan_lines :: "string \<Rightarrow> string list" where
  "scan_lines s = map drop_cr (takeWhile (\<lambda>l. length l < 65536) (text_lines s))"

section \<open>Modules and version\<close>

definition line_names :: "string \<Rightarrow> string \<Rightarrow> bool" where
  "line_names name l \<longleftrightarrow> (let fs = Fields l in fs \<noteq> [] \<and> hd fs = name)"

definition isModuleLoaded :: "string option \<Rightarrow> string \<Rightarrow> bool" where
  "isModuleLoaded proc_modules name =
     (case proc_modules of
        None \<Rightarrow> False
      | Some s \<Rightarrow> list_ex (line_names name) (scan_lines s))"

definition getKernelVersion :: "string option \<Rightarrow> string + string" where
  "getKernelVersion proc_version =
     (case proc_version of
        None \<Rightarrow> Inl ''failed to read /proc/version''
      | Some s \<Rightarrow>
          (let fs = Fields s in
           if length fs < 3 then Inl ''unexpected /proc/version format'' else Inr (fs ! 2)))"

section \<open>Reading the module list\<close>

lemma split_char_append:
  "c \<notin> set l \<Longrightarrow> split_char c (l @ c # s) = l # split_char c s"
  by (induction l) auto

lemma text_lines_printed:
  assumes "\<forall>l\<in>set ls. CHR 0x0A \<notin> set l"
  shows "text_lines (concat (map (\<lambda>l. l @ [CHR 0x0A]) ls)) = ls"
proof -
  have "split_char CHR 0x0A (concat (map (\<lambda>l. l @ [CHR 0x0A]) ls)) = ls @ [[]]"
    using assms by (induction ls) (simp_all add: split_char_append)
  then show ?thesis by (simp add: text_lines_def)
qed

lemma fields_from_word:
  "\<forall>c\<in>set u. \<not> is_space c \<Longrightarrow> is_space d \<Longrightarrow> w @ u \<noteq> [] \<Longrightarrow>
     fields_from w (u @ d # s) = (w @ u) # fields_from [] s"
  by (induction u arbitrary: w) auto

lemma Fields_word_first:
  assumes "\<forall>c\<in>set n. \<not> is_space c" and "n \<noteq> []"
  shows "Fields (n @ CHR '' '' # r) = n # Fields r"
  unfolding Fields_def using fields_from_word [of n "CHR '' ''" "[]" r] assms
  by (simp add: is_space_def)

text \<open>A line of \<open>/proc/modules\<close>: the name, a space, and the numbers and flags of the module.\<close>

definition module_line :: "string \<times> string \<Rightarrow> string" where
  "module_line m = fst m @ CHR '' '' # snd m"

definition module_lines_ok :: "(string \<times> string) list \<Rightarrow> bool" where
  "module_lines_ok ms \<longleftrightarrow>
     (\<forall>(n, r) \<in> set ms. n \<noteq> [] \<and> (\<forall>c\<in>set n. \<not> is_space c) \<and> CHR 0x0A \<notin> set r \<and>
        CHR 0x0D \<notin> set r \<and> length n + length r < 65535)"

definition proc_modules :: "(string \<times> string) list \<Rightarrow> string" where
  "proc_modules ms = concat (map (\<lambda>m. module_line m @ [CHR 0x0A]) ms)"

lemma scan_module_lines:
  assumes "module_lines_ok ms"
  shows "scan_lines (proc_modules ms) = map module_line ms"
proof -
  have plain: "CHR 0x0A \<notin> set (module_line m) \<and> CHR 0x0D \<notin> set (module_line m) \<and>
      length (module_line m) < 65536" if "m \<in> set ms" for m
  proof -
    obtain n r where m: "m = (n, r)" by (cases m)
    with that assms have "\<forall>c\<in>set n. \<not> is_space c" "CHR 0x0A \<notin> set r" "CHR 0x0D \<notin> set r"
      "length n + length r < 65535" by (auto simp: module_lines_ok_def)
    moreover from this(1) have "CHR 0x0A \<notin> set n" "CHR 0x0D \<notin> set n" by (auto simp: is_space_def)
    ultimately show ?thesis by (simp add: m module_line_def)
  qed
  have "text_lines (proc_modules ms) = map module_line ms"
    using text_lines_printed [of "map module_line ms"] plain
    by (simp add: proc_modules_def o_def)
  moreover have "takeWhile (\<lambda>l. length l < 65536) (map module_line ms) = map module_line ms"
    using plain by (simp add: takeWhile_eq_all_conv)
  moreover have "map drop_cr (map module_line ms) = map module_line ms"
  proof -
    have "drop_cr (module_line m) = module_line m" if "m \<in> set ms" for m
      using plain [OF that] last_in_set [of "module_line m"] by (metis drop_cr_def)
    then show ?thesis by simp
  qed
  ultimately show ?thesis by (simp only: scan_lines_def)
qed

lemma line_names_module_line:
  "module_lines_ok ms \<Longrightarrow> m \<in> set ms \<Longrightarrow> line_names n (module_line m) \<longleftrightarrow> fst m = n"
  by (cases m) (auto simp: module_lines_ok_def line_names_def module_line_def Fields_word_first)

lemma isModuleLoaded_exact:
  assumes "module_lines_ok ms"
  shows "isModuleLoaded (Some (proc_modules ms)) n \<longleftrightarrow> n \<in> fst ` set ms"
  using assms line_names_module_line [OF assms]
  by (auto simp: isModuleLoaded_def scan_module_lines list_ex_iff)

end
