(* ===== verification/KernelModules.thy ===== *)
theory KernelModules
  imports Host HostModules
begin

text \<open>
  The commands the driver agent runs (\<open>pkg/driveragent/module.go\<close>), as actions on the host:
  \<open>modprobe\<close>, \<open>depmod\<close>, \<open>dkms\<close> and \<open>make\<close>.
\<close>

definition loadModule :: "string \<Rightarrow> unit act" where
  "loadModule name = wrapping (''modprobe '' @ name @ '' failed: '') (effect (Run ''modprobe'' [name]))"

definition unloadModule :: "string \<Rightarrow> unit act" where
  "unloadModule name = wrapping (''rmmod '' @ name @ '' failed: '') (effect (Run ''rmmod'' [name]))"

definition read_option :: "string \<Rightarrow> string option act" where
  "read_option p = ask (\<lambda>H t. case ho_read H t p of Inl _ \<Rightarrow> None | Inr s \<Rightarrow> Some s)"

definition kernelVersion :: "string act" where
  "kernelVersion = andThen (read_option ''/proc/version'') (\<lambda>v. of_result (getKernelVersion v))"

definition runDepmod :: "unit act" where
  "runDepmod = wrapping ''depmod failed: '' (effect (Run ''depmod'' [''-a'']))"

definition runDKMSAdd :: "string \<Rightarrow> unit act" where
  "runDKMSAdd path = wrapping ''dkms add failed: '' (effect (Run ''dkms'' [''add'', path]))"

definition runDKMSBuild :: "string \<Rightarrow> unit act" where
  "runDKMSBuild m = andThen kernelVersion (\<lambda>k.
     wrapping ''dkms build failed: '' (effect (Run ''dkms'' [''build'', ''-m'', m, ''-k'', k])))"

definition runDKMSInstall :: "string \<Rightarrow> unit act" where
  "runDKMSInstall m = andThen kernelVersion (\<lambda>k.
     wrapping ''dkms install failed: '' (effect (Run ''dkms'' [''install'', ''-m'', m, ''-k'', k])))"

definition runDKMSRemove :: "string \<Rightarrow> unit act" where
  "runDKMSRemove m = wrapping ''dkms remove failed: '' (effect (Run ''dkms'' [''remove'', m, ''--all'']))"

text \<open>The environment variables are a Go map: the order in which they are appended is no matter.\<close>

definition buildKernelModule :: "string \<Rightarrow> (string \<times> string) list \<Rightarrow> unit act" where
  "buildKernelModule src env = andThen kernelVersion (\<lambda>k.
     wrapping (''make failed in '' @ src @ '': '')
       (effect (Make src [''KDIR=/lib/modules/'' @ k @ ''/build''] env)))"

definition getSymversPath :: "string \<Rightarrow> string" where
  "getSymversPath dep = Join [dep, ''Module.symvers'']"

lemma emits_kernelVersion [emits_intros]: "emits obs [] kernelVersion"
  unfolding kernelVersion_def read_option_def by (intro emits_intros)

end
