(* ===== verification/Download.thy ===== *)
theory Download
  imports KernelModules
begin

text \<open>
  Fetching and building the driver (\<open>pkg/driveragent/download.go\<close>): downloads, the unpacking of
  archives, the version read from a URL, the preparation of a DKMS source tree, and the builds.
  Each function is an action on the host. Archive formats, compression and HTTP are the host's:
  an archive is the entries its reader delivers.
\<close>

section \<open>Downloads and archives\<close>

definition downloadFile :: "string \<Rightarrow> string \<Rightarrow> unit act" where
  "downloadFile url dest = steps
     [wrapping ''failed to create directory: '' (effect (MkdirAll (DirOf dest))),
      wrapping ''failed to download: '' (effect (HttpGet url)),
      andThen (ask (\<lambda>H t. ho_status H t url))
        (\<lambda>c. if c \<noteq> 200 then fail (''download failed with status: '' @ Itoa c) else ret ()),
      wrapping ''failed to create file: '' (effect (CreateFile dest)),
      wrapping ''failed to write file: '' (effect (CopyInto dest))]"

text \<open>The target of an entry, if the check on its path lets it through.\<close>

definition entry_target :: "string \<Rightarrow> string \<Rightarrow> string option" where
  "entry_target dest name =
     (let target = Join [dest, name] in if HasPrefix (Clean target) (Clean dest) then Some target else None)"

definition extract_tar_entry :: "string \<Rightarrow> archive_entry \<Rightarrow> unit act" where
  "extract_tar_entry dest h =
     (case entry_target dest (en_name h) of
        None \<Rightarrow> fail (''invalid tar path: '' @ en_name h)
      | Some target \<Rightarrow>
          (case en_type h of
             TypeDir \<Rightarrow> wrapping ''failed to create directory: '' (effect (MkdirAll target))
           | TypeReg \<Rightarrow> steps
               [wrapping ''failed to create parent directory: '' (effect (MkdirAll (DirOf target))),
                wrapping ''failed to create file: '' (effect (CreateFile target)),
                wrapping ''failed to write file: '' (effect (CopyInto target))]
           | TypeSymlink \<Rightarrow> wrapping ''failed to create symlink: '' (effect (MakeSymlink (en_link h) target))
           | TypeOther \<Rightarrow> ret ()))"

text \<open>The reader delivers the entries of the archive at the URL, or an error in place of one.\<close>

definition extract_tar_entries :: "string \<Rightarrow> (string + archive_entry) list \<Rightarrow> unit act" where
  "extract_tar_entries dest es = for_each es (\<lambda>e.
     case e of Inl err \<Rightarrow> fail (''tar read error: '' @ err) | Inr h \<Rightarrow> extract_tar_entry dest h)"

definition extractTar :: "string \<Rightarrow> string \<Rightarrow> unit act" where
  "extractTar url dest = andThen (ask (\<lambda>H t. ho_tar H t url)) (extract_tar_entries dest)"

definition extract_zip_entry :: "string \<Rightarrow> archive_entry \<Rightarrow> unit act" where
  "extract_zip_entry dest f =
     (case entry_target dest (en_name f) of
        None \<Rightarrow> fail (''invalid zip path: '' @ en_name f)
      | Some target \<Rightarrow>
          if en_type f = TypeDir
          then wrapping ''failed to create directory: '' (effect (MkdirAll target))
          else steps
            [wrapping ''failed to create parent directory: '' (effect (MkdirAll (DirOf target))),
             wrapping ''failed to create file: '' (effect (CreateFile target)),
             wrapping ''failed to open zip entry: '' (effect (OpenZipEntry (en_name f))),
             wrapping ''failed to write file: '' (effect (CopyInto target))])"

definition extractZip :: "string \<Rightarrow> string \<Rightarrow> unit act" where
  "extractZip path dest = steps
     [wrapping ''failed to open zip: '' (effect (OpenZip path)),
      andThen (ask (\<lambda>H t. ho_zip H t path)) (\<lambda>fs. for_each fs (extract_zip_entry dest))]"

definition downloadAndExtract :: "string \<Rightarrow> string \<Rightarrow> unit act" where
  "downloadAndExtract url dest = steps
     [wrapping ''failed to create directory: '' (effect (MkdirAll dest)),
      wrapping ''failed to download: '' (effect (HttpGet url)),
      andThen (ask (\<lambda>H t. ho_status H t url))
        (\<lambda>c. if c \<noteq> 200 then fail (''download failed with status: '' @ Itoa c) else ret ()),
      (if HasSuffix url ''.zip'' then
         steps [wrapping ''failed to create temp file: '' (effect CreateTemp),
           andThen (ask ho_temp) (\<lambda>tmp. deferring (effect (RemoveFile tmp)) (steps
             [wrapping ''failed to download zip: '' (effect (CopyInto tmp)), extractZip tmp dest]))]
       else steps
         [if HasSuffix url ''.gz'' \<or> HasSuffix url ''.tgz''
          then wrapping ''failed to create gzip reader: '' (effect (OpenGzip url)) else ret (),
          if HasSuffix url ''.tar'' \<or> HasSuffix url ''.tar.gz'' \<or> HasSuffix url ''.tgz''
          then extractTar url dest else fail (''unsupported archive format: '' @ url)])]"

section \<open>The version in a URL\<close>

text \<open>
  The three patterns end in \<open>([^/]+)\.zip$\<close> behind a slash, so they can only match at the last slash
  of the URL: what is before it, and the rest without its ending, if that is not empty.
\<close>

definition after_slash :: "string \<Rightarrow> string" where
  "after_slash s = rev (takeWhile (\<lambda>c. c \<noteq> CHR ''/'') (rev s))"

definition upto_slash :: "string \<Rightarrow> string" where
  "upto_slash s = rev (dropWhile (\<lambda>c. c \<noteq> CHR ''/'') (rev s))"

definition zip_stem :: "string \<Rightarrow> string \<Rightarrow> string option" where
  "zip_stem dir url =
     (let b = after_slash url; n = length b - 4 in
      if HasSuffix (upto_slash url) dir \<and> HasSuffix b ''.zip'' \<and> n \<noteq> 0 then Some (take n b) else None)"

text \<open>The optional \<open>v\<close> is taken unless nothing would be left.\<close>

definition drop_v :: "string \<Rightarrow> string" where
  "drop_v s = (if HasPrefix s ''v'' \<and> length s > 1 then tl s else s)"

definition extractVersionFromURL :: "string \<Rightarrow> string" where
  "extractVersionFromURL url =
     (case zip_stem ''/refs/tags/'' url of
        Some s \<Rightarrow> drop_v s
      | None \<Rightarrow>
          (case zip_stem ''/refs/heads/'' url of
             Some s \<Rightarrow> s
           | None \<Rightarrow>
               (case zip_stem ''/archive/'' url of
                  Some s \<Rightarrow> drop_v s
                | None \<Rightarrow> ''0.0.0'')))"

section \<open>Preparing a source tree\<close>

text \<open>\<open>strings.ReplaceAll\<close> for a pattern that is not empty.\<close>

function ReplaceAll :: "string \<Rightarrow> string \<Rightarrow> string \<Rightarrow> string" where
  "ReplaceAll s old new =
     (if s = [] \<or> old = [] then s
      else if HasPrefix s old then new @ ReplaceAll (drop (length old) s) old new
      else hd s # ReplaceAll (tl s) old new)"
  by pat_completeness auto
termination
  by (relation "measure (\<lambda>(s, old, new). length s)") auto

declare ReplaceAll.simps [simp del]

definition fill_template :: "string \<Rightarrow> string \<Rightarrow> string \<Rightarrow> string" where
  "fill_template name version content =
     ReplaceAll (ReplaceAll (ReplaceAll content ''@PACKAGE_NAME@'' name) ''@PACKAGE_VERSION@'' version)
       ''@SHS_DKMS_AUX_DIR@'' ''/etc/shs-dkms''"

definition generateDKMSConf :: "string \<Rightarrow> string \<Rightarrow> string \<Rightarrow> string \<Rightarrow> unit act" where
  "generateDKMSConf inPath outPath name version =
     andThen (wrapping ''failed to read dkms.conf.in: '' (readFile inPath)) (\<lambda>content.
       wrapping ''failed to write dkms.conf: '' (effect (WriteFile outPath (fill_template name version content))))"

text \<open>A single directory, as GitHub's archives have it, is flattened.\<close>

definition flatten_source :: "string \<Rightarrow> (string \<times> bool) list \<Rightarrow> unit act" where
  "flatten_source path entries =
     (case entries of
        [(n, True)] \<Rightarrow>
          (let nested = Join [path, n] in steps
             [andThen (wrapping ''failed to read nested directory: '' (readDir nested)) (\<lambda>es. for_each es (\<lambda>e.
                wrapping (''failed to move '' @ fst e @ '': '')
                  (effect (Rename (Join [nested, fst e]) (Join [path, fst e]))))),
              wrapping ''failed to remove nested directory: '' (effect (RemoveFile nested))])
      | _ \<Rightarrow> ret ())"

definition prepareDKMSSource :: "string \<Rightarrow> string \<Rightarrow> string \<Rightarrow> unit act" where
  "prepareDKMSSource path name version = steps
     [andThen (wrapping ''failed to read source directory: '' (readDir path)) (flatten_source path),
      whenExists (Join [path, ''dkms.conf.in''])
        (wrapping ''failed to generate dkms.conf: ''
           (generateDKMSConf (Join [path, ''dkms.conf.in'']) (Join [path, ''dkms.conf'']) name version))]"

section \<open>Configuration of the agent\<close>

record AgentConfig =
  ag_node :: string
  ag_namespace :: string
  ag_source :: string
  ag_dkms_url :: string
  ag_pkg_name :: string
  ag_pkg_version :: string
  ag_tag :: string
  ag_platform :: string
  ag_prebuilt_url :: string
  ag_health_port :: int
  ag_poll_interval :: int
  ag_mask :: u32
  ag_no_labels :: bool

section \<open>Builds\<close>

text \<open>The variables of the SBL build; any platform but Rosetta counts as Cassini.\<close>

definition sbl_env :: "string \<Rightarrow> bool \<Rightarrow> (string \<times> string) list" where
  "sbl_env platform headers =
     (''SBL_EXTERNAL_BUILD'', ''1'') #
     (if platform = ''rosetta'' then (''PLATFORM_ROSETTA_HW'', ''1'') else (''PLATFORM_CASSINI_HW'', ''1'')) #
     (if headers then [(''KCPPFLAGS'', ''-I/tmp/cassini-headers/install/include'')] else [])"

definition buildDependency :: "AgentConfig \<Rightarrow> string \<Rightarrow> string \<Rightarrow> unit act" where
  "buildDependency c name url =
     (let dest = Join [''/tmp'', name] in steps
        [ignoring (effect (RemoveAll dest)),
         wrapping (''failed to download '' @ name @ '': '') (downloadAndExtract url dest),
         wrapping (''failed to prepare '' @ name @ '' source: '') (prepareDKMSSource dest name ''''),
         andThen (ask (\<lambda>H t. ho_exists H t ''/tmp/cassini-headers/install/include'')) (\<lambda>headers.
           wrapping (''failed to build '' @ name @ '': '')
             (buildKernelModule dest (if name = ''sbl'' then sbl_env (ag_platform c) headers else [])))])"

definition package_name :: "AgentConfig \<Rightarrow> string" where
  "package_name c = (if ag_pkg_name c = '''' then ''cxi-driver'' else ag_pkg_name c)"

definition driver_version :: "AgentConfig \<Rightarrow> string \<Rightarrow> string" where
  "driver_version c url =
     (let v = (if ag_pkg_version c = '''' \<and> ag_tag c \<noteq> '''' then last (split_char CHR ''-'' (ag_tag c))
               else ag_pkg_version c)
      in if v = '''' then extractVersionFromURL url else v)"

text \<open>The symbol files of the dependencies that were built, passed on by the environment.\<close>

definition set_symvers :: "unit act" where
  "set_symvers =
     andThen (ask (\<lambda>H t. filter (ho_exists H t) [getSymversPath ''/tmp/sbl'', getSymversPath ''/tmp/sl'']))
       (\<lambda>paths. case paths of
          [] \<Rightarrow> ret ()
        | [p] \<Rightarrow> ignoring (effect (Setenv ''KBUILD_EXTRA_SYMBOLS'' p))
        | p # q # _ \<Rightarrow> ignoring (effect (Setenv ''KBUILD_EXTRA_SYMBOLS'' (p @ '' '' @ q))))"

definition buildCXIDriver :: "AgentConfig \<Rightarrow> string \<Rightarrow> unit act" where
  "buildCXIDriver c url = steps
     [ignoring (effect (RemoveAll ''/tmp/cxi-driver'')),
      wrapping ''failed to download CXI driver: '' (downloadAndExtract url ''/tmp/cxi-driver''),
      wrapping ''failed to prepare CXI driver source: ''
        (prepareDKMSSource ''/tmp/cxi-driver'' (package_name c) (driver_version c url)),
      set_symvers,
      wrapping ''dkms add failed: '' (runDKMSAdd ''/tmp/cxi-driver''),
      wrapping ''dkms build failed: '' (runDKMSBuild (package_name c)),
      wrapping ''dkms install failed: '' (runDKMSInstall (package_name c))]"

section \<open>Headers\<close>

text \<open>
  \<open>copyDir\<close>, over the finite tree found at the source; a file is opened, created, copied and given
  its mode.
\<close>

fun copyDir :: "string \<Rightarrow> string \<Rightarrow> file_tree \<Rightarrow> unit act"
  and copyEntries :: "string \<Rightarrow> string \<Rightarrow> (string \<times> file_tree) list \<Rightarrow> unit act" where
  "copyDir src dst (Dir es) = steps
     [effect (StatPath src), effect (MkdirAll dst), effect (ReadDir src), copyEntries src dst es]"
| "copyDir src dst File = steps
     [effect (StatPath src), effect (OpenFile src), effect (CreateFile dst), effect (CopyInto dst), effect (Chmod dst)]"
| "copyEntries src dst [] = ret ()"
| "copyEntries src dst ((n, f) # es) = andThen (copyDir (Join [src, n]) (Join [dst, n]) f) (\<lambda>_. copyEntries src dst es)"

definition copyHeaders :: "string \<Rightarrow> string \<Rightarrow> unit act" where
  "copyHeaders srcInclude installDir =
     andThen (wrapping ''failed to read include directory: '' (readDir srcInclude)) (\<lambda>es. for_each es (\<lambda>e.
       andThen (ask (\<lambda>H t. ho_tree H t (Join [srcInclude, fst e]))) (\<lambda>f.
         wrapping (''failed to copy '' @ fst e @ '': '')
           (copyDir (Join [srcInclude, fst e]) (Join [installDir, fst e]) f))))"

definition downloadHeaders :: "string \<Rightarrow> unit act" where
  "downloadHeaders url = steps
     [ignoring (effect (RemoveAll ''/tmp/cassini-headers'')),
      wrapping ''failed to download cassini-headers: '' (downloadAndExtract url ''/tmp/cassini-headers''),
      wrapping ''failed to prepare cassini-headers: ''
        (prepareDKMSSource ''/tmp/cassini-headers'' ''cassini-headers'' ''''),
      wrapping ''failed to create install directory: '' (effect (MkdirAll ''/tmp/cassini-headers/install/include'')),
      whenExists ''/tmp/cassini-headers/include''
        (copyHeaders ''/tmp/cassini-headers/include'' ''/tmp/cassini-headers/install/include'')]"

section \<open>Milestones\<close>

text \<open>
  The operations that count: downloads, builds, and modules loaded. \<open>cxi_user\<close> is left out, as the
  agent ignores whether it can be loaded.
\<close>

datatype milestone =
    Fetch string
  | FetchModule
  | Built string
  | DkmsAdd string
  | DkmsBuild string
  | DkmsInstall string
  | Depmod
  | Loaded string

definition fetched :: "string \<Rightarrow> milestone" where
  "fetched url = (if HasSuffix url ''/cxi.ko'' then FetchModule else Fetch url)"

definition milestone_of :: "host_op \<Rightarrow> milestone option" where
  "milestone_of op =
     (case op of
        HttpGet url \<Rightarrow> Some (fetched url)
      | Make p args env \<Rightarrow> Some (Built p)
      | Run prog args \<Rightarrow>
          (if prog = ''dkms'' then
             (case args of
                [a, p] \<Rightarrow> if a = ''add'' then Some (DkmsAdd p) else None
              | [a, f, m, g, k] \<Rightarrow> if a = ''build'' then Some (DkmsBuild m)
                                else if a = ''install'' then Some (DkmsInstall m) else None
              | _ \<Rightarrow> None)
           else if prog = ''modprobe'' then
             (case args of [m] \<Rightarrow> if m = ''cxi_user'' then None else Some (Loaded m) | _ \<Rightarrow> None)
           else if prog = ''depmod'' then Some Depmod else None)
      | _ \<Rightarrow> None)"

lemma milestone_of_simps [simp]:
  "milestone_of (HttpGet url) = Some (fetched url)"
  "milestone_of (Make p args env) = Some (Built p)"
  "milestone_of (Run ''dkms'' [''add'', p]) = Some (DkmsAdd p)"
  "milestone_of (Run ''dkms'' [''build'', f, m, g, k]) = Some (DkmsBuild m)"
  "milestone_of (Run ''dkms'' [''install'', f, m, g, k]) = Some (DkmsInstall m)"
  "milestone_of (Run ''modprobe'' [m]) = (if m = ''cxi_user'' then None else Some (Loaded m))"
  "milestone_of (Run ''depmod'' args) = Some Depmod"
  "milestone_of (MkdirAll p) = None" "milestone_of (RemoveAll p) = None" "milestone_of (RemoveFile p) = None"
  "milestone_of CreateTemp = None" "milestone_of (CreateFile p) = None" "milestone_of (OpenFile p) = None"
  "milestone_of (CopyInto p) = None" "milestone_of (OpenGzip p) = None" "milestone_of (OpenZip p) = None"
  "milestone_of (OpenZipEntry p) = None" "milestone_of (MakeSymlink l p) = None"
  "milestone_of (StatPath p) = None" "milestone_of (ReadDir p) = None" "milestone_of (Rename p q) = None"
  "milestone_of (WriteFile p c) = None" "milestone_of (Chmod p) = None" "milestone_of (Setenv k v) = None"
  by (simp_all add: milestone_of_def)

named_theorems milestones "the milestones of the download functions"

lemma emits_effect_milestone [milestones]:
  "milestone_of op = Some m \<Longrightarrow> emits milestone_of [m] (effect op)"
  by (rule emits_observed)

lemma emits_extract [milestones]:
  "emits milestone_of [] (extractTar url dest)" "emits milestone_of [] (extractZip path dest)"
  unfolding extractTar_def extract_tar_entries_def extractZip_def extract_tar_entry_def extract_zip_entry_def
  by (auto split: sum.splits option.splits entry_type.splits intro!: emits_intros simp del: steps.simps)

lemma emits_status_check [milestones]:
  "emits obs [] (andThen (ask q) (\<lambda>c. if c \<noteq> (200::int) then fail (e c) else ret ()))"
  by (auto intro!: emits_intros)

lemma emits_downloadAndExtract [milestones]: "emits milestone_of [fetched url] (downloadAndExtract url dest)"
proof -
  have "emits milestone_of ([] @ [fetched url] @ []) (downloadAndExtract url dest)"
    unfolding downloadAndExtract_def
    by (intro emits_steps_Cons emits_steps_Nil emits_wrapping emits_status_check emits_if)
       (auto intro!: emits_intros milestones simp del: steps.simps)
  then show ?thesis by simp
qed

lemma emits_prepare [milestones]: "emits milestone_of [] (prepareDKMSSource path name version)"
  unfolding prepareDKMSSource_def flatten_source_def generateDKMSConf_def Let_def
  by (auto split: list.splits bool.splits intro!: emits_intros simp del: steps.simps)

lemma emits_loadModule [milestones]:
  "m \<noteq> ''cxi_user'' \<Longrightarrow> emits milestone_of [Loaded m] (loadModule m)"
  "emits milestone_of [] (loadModule ''cxi_user'')"
  unfolding loadModule_def by (auto intro!: emits_intros milestones)

lemma emits_dkms [milestones]:
  "emits milestone_of [DkmsAdd p] (runDKMSAdd p)"
  "emits milestone_of [DkmsBuild m] (runDKMSBuild m)"
  "emits milestone_of [DkmsInstall m] (runDKMSInstall m)"
  "emits milestone_of [Depmod] runDepmod"
  "emits milestone_of [Built p] (buildKernelModule p env)"
  unfolding runDKMSAdd_def runDKMSBuild_def runDKMSInstall_def runDepmod_def buildKernelModule_def
  by (intro emits_intros milestones; simp)+

lemma emits_downloadFile [milestones]: "emits milestone_of [fetched url] (downloadFile url dest)"
proof -
  have "emits milestone_of ([] @ [fetched url] @ []) (downloadFile url dest)"
    unfolding downloadFile_def
    by (intro emits_steps_Cons emits_steps_Nil emits_wrapping emits_status_check)
       (auto intro!: emits_intros milestones simp del: steps.simps)
  then show ?thesis by simp
qed

lemma Join_tmp [simp]: "Join [''/tmp'', ''sbl''] = ''/tmp/sbl''" "Join [''/tmp'', ''sl''] = ''/tmp/sl''"
  by code_simp+

lemma emits_buildDependency [milestones]:
  "emits milestone_of [fetched url, Built (Join [''/tmp'', name])] (buildDependency c name url)"
proof -
  have "emits milestone_of ([] @ [fetched url] @ [] @ [Built (Join [''/tmp'', name])] @ [])
      (buildDependency c name url)"
    unfolding buildDependency_def Let_def
    by (intro emits_steps_Cons emits_steps_Nil emits_wrapping milestones emits_ignoring emits_andThen_quiet
        emits_basic emits_quiet) simp_all
  then show ?thesis by simp
qed

lemma emits_set_symvers [milestones]: "emits milestone_of [] set_symvers"
  unfolding set_symvers_def by (auto split: list.splits intro!: emits_intros)

lemma emits_buildCXIDriver [milestones]:
  "emits milestone_of [fetched url, DkmsAdd ''/tmp/cxi-driver'', DkmsBuild (package_name c), DkmsInstall (package_name c)]
     (buildCXIDriver c url)"
proof -
  have "emits milestone_of ([] @ [fetched url] @ [] @ [] @ [DkmsAdd ''/tmp/cxi-driver''] @ [DkmsBuild (package_name c)] @
      [DkmsInstall (package_name c)] @ []) (buildCXIDriver c url)"
    unfolding buildCXIDriver_def
    by (intro emits_steps_Cons emits_steps_Nil emits_wrapping milestones emits_ignoring emits_quiet) simp_all
  then show ?thesis by simp
qed

lemma emits_copy [milestones]:
  "emits milestone_of [] (copyDir src dst f)" "emits milestone_of [] (copyEntries src dst es)"
  by (induction src dst f and src dst es rule: copyDir_copyEntries.induct)
     (auto intro!: emits_intros simp del: steps.simps act_simps)

lemma emits_downloadHeaders [milestones]: "emits milestone_of [fetched url] (downloadHeaders url)"
proof -
  have "emits milestone_of [] (copyHeaders p q)" for p q
    unfolding copyHeaders_def by (auto intro!: emits_intros milestones)
  then have "emits milestone_of ([] @ [fetched url] @ [] @ [] @ [] @ []) (downloadHeaders url)"
    unfolding downloadHeaders_def
    by (intro emits_steps_Cons emits_steps_Nil emits_wrapping milestones emits_ignoring emits_quiet emits_whenExists) simp_all
  then show ?thesis by simp
qed
section \<open>Where an archive is unpacked\<close>

text \<open>Clean absolute paths, by their parts.\<close>

definition proper_part :: "string \<Rightarrow> bool" where
  "proper_part p \<longleftrightarrow> p \<noteq> '''' \<and> p \<noteq> ''.'' \<and> p \<noteq> ''..'' \<and> CHR ''/'' \<notin> set p"

definition abs_path :: "string list \<Rightarrow> string" where
  "abs_path ps = ''/'' @ join_slash ps"

definition name_parts :: "string \<Rightarrow> string list" where
  "name_parts n = filter (\<lambda>p. p \<noteq> '''' \<and> p \<noteq> ''.'') (split_char CHR ''/'' n)"

lemma clean_parts_forward:
  "''..'' \<notin> set ps \<Longrightarrow> clean_parts r acc ps = rev acc @ filter (\<lambda>p. p \<noteq> '''' \<and> p \<noteq> ''.'') ps"
  by (induction r acc ps rule: clean_parts.induct) auto

lemma split_char_join:
  "list_all (\<lambda>p. CHR ''/'' \<notin> set p) ps \<Longrightarrow> ps \<noteq> [] \<Longrightarrow> split_char CHR ''/'' (join_slash ps) = ps"
proof (induction ps rule: join_slash.induct)
  case (2 p)
  then show ?case by (induction p) auto
next
  case (3 p q ps)
  then show ?case by (simp add: split_char_append)
qed simp

lemma split_char_slash: "split_char c (a @ c # b) = split_char c a @ split_char c b"
proof (induction a)
  case (Cons d a)
  obtain w ws where "split_char c a = w # ws" by (meson list.exhaust split_char_not_Nil)
  with Cons show ?case by auto
qed simp

lemma split_char_no_sep: "p \<in> set (split_char c s) \<Longrightarrow> c \<notin> set p"
  by (induction s arbitrary: p) (auto split: list.splits if_splits)

lemma join_slash_append:
  "ps \<noteq> [] \<Longrightarrow> qs \<noteq> [] \<Longrightarrow> join_slash (ps @ qs) = join_slash ps @ ''/'' @ join_slash qs"
proof (induction ps rule: join_slash.induct)
  case (2 p)
  then show ?case by (cases qs) auto
qed auto

lemma proper_filter: "list_all proper_part ps \<Longrightarrow> filter (\<lambda>p. p \<noteq> '''' \<and> p \<noteq> ''.'') ps = ps"
  by (induction ps) (auto simp: proper_part_def)

lemma name_parts_proper: "''..'' \<notin> set (split_char CHR ''/'' n) \<Longrightarrow> list_all proper_part (name_parts n)"
  by (auto simp: name_parts_def proper_part_def list_all_iff dest: split_char_no_sep)

lemma split_abs_path:
  "list_all proper_part ps \<Longrightarrow> ps \<noteq> [] \<Longrightarrow> split_char CHR ''/'' (abs_path ps) = '''' # ps"
  using split_char_join [of ps] by (simp add: abs_path_def proper_part_def list_all_iff)

lemma Clean_below:
  assumes "list_all proper_part ps" and "ps \<noteq> []" and "''..'' \<notin> set (split_char CHR ''/'' n)"
  shows "Clean (abs_path ps @ CHR ''/'' # n) = abs_path (ps @ name_parts n)"
proof -
  have "''..'' \<notin> set ps" using assms(1) by (auto simp: list_all_iff proper_part_def)
  with assms have "clean_parts True [] (split_char CHR ''/'' (abs_path ps @ CHR ''/'' # n)) = ps @ name_parts n"
    by (simp add: split_char_slash split_abs_path clean_parts_forward proper_filter name_parts_def)
  moreover have "HasPrefix (abs_path ps @ CHR ''/'' # n) ''/''" by (simp add: abs_path_def)
  ultimately show ?thesis by (simp add: Clean_def Let_def abs_path_def)
qed

lemma Clean_abs_path:
  assumes "list_all proper_part ps" and "ps \<noteq> []"
  shows "Clean (abs_path ps) = abs_path ps"
proof -
  have "''..'' \<notin> set ps" using assms(1) by (auto simp: list_all_iff proper_part_def)
  with assms have "clean_parts True [] (split_char CHR ''/'' (abs_path ps)) = ps"
    by (simp add: split_abs_path clean_parts_forward proper_filter)
  moreover have "HasPrefix (abs_path ps) ''/''" by (simp add: abs_path_def)
  ultimately show ?thesis by (simp add: Clean_def Let_def abs_path_def)
qed

lemma Join_below:
  assumes "list_all proper_part ps" and "ps \<noteq> []" and "''..'' \<notin> set (split_char CHR ''/'' n)"
  shows "Join [abs_path ps, n] = abs_path (ps @ name_parts n)"
proof (cases "n = ''''")
  case True
  then show ?thesis using Clean_abs_path [OF assms(1,2)] by (simp add: Join_def abs_path_def name_parts_def)
next
  case False
  then show ?thesis using Clean_below [OF assms] by (simp add: Join_def abs_path_def)
qed

text \<open>A path that is the directory or lies below it.\<close>

definition inside :: "string \<Rightarrow> string \<Rightarrow> bool" where
  "inside dest p \<longleftrightarrow> p = dest \<or> HasPrefix p (dest @ ''/'')"

lemma inside_abs_path: "ps \<noteq> [] \<Longrightarrow> inside (abs_path ps) (abs_path (ps @ qs))"
  by (cases "qs = []") (simp_all add: inside_def abs_path_def join_slash_append HasPrefix_iff)

lemma inside_prefix: "inside dest p \<Longrightarrow> HasPrefix p dest"
  by (auto simp: inside_def HasPrefix_iff)

lemma DirOf_abs_path:
  assumes "list_all proper_part (ps @ [p])" and "ps \<noteq> []"
  shows "DirOf (abs_path (ps @ [p])) = abs_path ps"
proof -
  have p: "\<forall>c\<in>set (rev p). c \<noteq> CHR ''/''" using assms(1) by (auto simp: proper_part_def)
  have "rev (abs_path (ps @ [p])) = rev p @ CHR ''/'' # rev (abs_path ps)"
    using assms(2) by (simp add: abs_path_def join_slash_append)
  moreover have "dropWhile (\<lambda>c. c \<noteq> CHR ''/'') (rev p @ CHR ''/'' # rev (abs_path ps)) = CHR ''/'' # rev (abs_path ps)"
    by (subst dropWhile_append2) (use p in simp_all)
  ultimately have "DirOf (abs_path (ps @ [p])) = Clean (abs_path ps @ CHR ''/'' # '''')"
    by (simp add: DirOf_def)
  then show ?thesis
    using assms Clean_below [of ps "''''"] by (simp add: name_parts_def)
qed

text \<open>The operations that write, and where.\<close>

definition writes_at :: "host_op \<Rightarrow> string list" where
  "writes_at op =
     (case op of
        MkdirAll p \<Rightarrow> [p] | RemoveAll p \<Rightarrow> [p] | RemoveFile p \<Rightarrow> [p] | CreateFile p \<Rightarrow> [p] | CopyInto p \<Rightarrow> [p]
      | MakeSymlink l p \<Rightarrow> [p] | Rename a b \<Rightarrow> [a, b] | WriteFile p c \<Rightarrow> [p] | Chmod p \<Rightarrow> [p] | _ \<Rightarrow> [])"

text \<open>The observer of writes elsewhere; an action that emits nothing to it keeps inside.\<close>

definition outside :: "string \<Rightarrow> host_op \<Rightarrow> host_op option" where
  "outside dest op = (if list_all (inside dest) (writes_at op) then None else Some op)"

text \<open>Entries whose names stay below, that name something, and are no links.\<close>

definition plain_entry :: "archive_entry \<Rightarrow> bool" where
  "plain_entry h \<longleftrightarrow>
     ''..'' \<notin> set (split_char CHR ''/'' (en_name h)) \<and> name_parts (en_name h) \<noteq> [] \<and> en_type h \<noteq> TypeSymlink"

lemma plain_entry_target:
  assumes "list_all proper_part ps" and "ps \<noteq> []" and "plain_entry h"
  shows "entry_target (abs_path ps) (en_name h) = Some (abs_path (ps @ name_parts (en_name h)))"
    and "inside (abs_path ps) (DirOf (abs_path (ps @ name_parts (en_name h))))"
proof -
  let ?n = "en_name h"
  have dots: "''..'' \<notin> set (split_char CHR ''/'' ?n)" and ne: "name_parts ?n \<noteq> []"
    using assms(3) by (simp_all add: plain_entry_def)
  have proper: "list_all proper_part (ps @ name_parts ?n)"
    using assms(1) name_parts_proper [OF dots] by simp
  then have "Clean (abs_path (ps @ name_parts ?n)) = abs_path (ps @ name_parts ?n)"
    using assms(2) by (intro Clean_abs_path) simp_all
  then show "entry_target (abs_path ps) ?n = Some (abs_path (ps @ name_parts ?n))"
    using inside_prefix [OF inside_abs_path [OF assms(2)]]
    by (simp add: entry_target_def Let_def Join_below [OF assms(1,2) dots] Clean_abs_path [OF assms(1,2)])
  obtain xs x where x: "name_parts ?n = xs @ [x]" by (meson ne rev_exhaust)
  then have "DirOf (abs_path (ps @ name_parts ?n)) = abs_path (ps @ xs)"
    using proper assms(2) DirOf_abs_path [of "ps @ xs" x] by simp
  then show "inside (abs_path ps) (DirOf (abs_path (ps @ name_parts ?n)))"
    using inside_abs_path [OF assms(2)] by simp
qed

lemma emits_steps3:
  "emits obs [] a \<Longrightarrow> emits obs [] b \<Longrightarrow> emits obs [] c \<Longrightarrow> emits obs [] (steps [a, b, c])"
  by (auto intro!: emits_intros simp del: steps.simps)

lemma emits_steps4:
  "emits obs [] a \<Longrightarrow> emits obs [] b \<Longrightarrow> emits obs [] c \<Longrightarrow> emits obs [] d \<Longrightarrow> emits obs [] (steps [a, b, c, d])"
  by (auto intro!: emits_intros simp del: steps.simps)

lemma emits_plain_entry:
  assumes "list_all proper_part ps" and "ps \<noteq> []" and "plain_entry h"
  shows "emits (outside (abs_path ps)) [] (extract_tar_entry (abs_path ps) h)"
    and "emits (outside (abs_path ps)) [] (extract_zip_entry (abs_path ps) h)"
proof -
  let ?t = "abs_path (ps @ name_parts (en_name h))"
  have target: "entry_target (abs_path ps) (en_name h) = Some ?t" "inside (abs_path ps) (DirOf ?t)"
    "inside (abs_path ps) ?t"
    using plain_entry_target [OF assms] inside_abs_path [OF assms(2)] by simp_all
  then have quiet: "outside (abs_path ps) (MkdirAll ?t) = None" "outside (abs_path ps) (MkdirAll (DirOf ?t)) = None"
    "outside (abs_path ps) (CreateFile ?t) = None" "outside (abs_path ps) (CopyInto ?t) = None"
    "outside (abs_path ps) (OpenZipEntry n) = None" for n
    by (simp_all add: outside_def writes_at_def)
  have nolink: "en_type h \<noteq> TypeSymlink" using assms(3) by (simp add: plain_entry_def)
  show "emits (outside (abs_path ps)) [] (extract_tar_entry (abs_path ps) h)"
    using nolink unfolding extract_tar_entry_def target
    by (cases "en_type h") (auto intro!: emits_intros emits_steps3 simp: quiet simp del: steps.simps)
  show "emits (outside (abs_path ps)) [] (extract_zip_entry (abs_path ps) h)"
    unfolding extract_zip_entry_def target
    by (auto intro!: emits_intros emits_steps4 simp: quiet simp del: steps.simps)
qed

lemma emits_nil_outside:
  assumes "emits (outside d) [] m"
  shows "\<exists>u. snd (m H t) = t @ u \<and> (\<forall>(op, b)\<in>set u. \<forall>p\<in>set (writes_at op). inside d p)"
proof -
  obtain u where u: "snd (m H t) = t @ u" "seen (outside d) u = []"
    using assms unfolding emits_def by fastforce
  have "\<forall>(op, b)\<in>set u. outside d op = None"
    using u(2) by (induction u) (auto simp: seen_def List.map_filter_def split: option.splits if_splits)
  with u(1) show ?thesis
    by (fastforce simp: outside_def list_all_iff split: if_splits)
qed


text \<open>A host on which everything works, and holds nothing.\<close>

definition sample_host :: host where
  "sample_host =
     \<lparr>ho_do = (\<lambda>t op. None), ho_status = (\<lambda>t u. 200), ho_tar = (\<lambda>t u. []), ho_zip = (\<lambda>t p. []),
      ho_temp = (\<lambda>t. ''/tmp/download-1.zip''), ho_readdir = (\<lambda>t p. Inr []), ho_exists = (\<lambda>t p. False),
      ho_tree = (\<lambda>t p. File), ho_read = (\<lambda>t p. Inl ''no such file'')\<rparr>"


text \<open>
  The check on the path stops neither a name that climbs into a sibling whose name extends the
  destination's, nor a write through a link that the archive made before.
\<close>

lemma archive_can_escape:
  "entry_target ''/tmp/sbl'' ''../sbl-evil/x'' = Some ''/tmp/sbl-evil/x''"
  "map fst (snd (extract_tar_entries ''/tmp/sbl''
       [Inr \<lparr>en_name = ''l'', en_type = TypeSymlink, en_link = ''/etc''\<rparr>,
        Inr \<lparr>en_name = ''l/passwd'', en_type = TypeReg, en_link = ''''\<rparr>] sample_host [])) =
     [MakeSymlink ''/etc'' ''/tmp/sbl/l'', MkdirAll ''/tmp/sbl/l'', CreateFile ''/tmp/sbl/l/passwd'',
      CopyInto ''/tmp/sbl/l/passwd'']"
  by code_simp+

section \<open>Versions\<close>

lemma split_at_slash: "upto_slash s @ after_slash s = s"
proof -
  have "rev (dropWhile P xs) @ rev (takeWhile P xs) = rev xs" for P and xs :: string
    by (simp flip: rev_append)
  then show ?thesis by (metis after_slash_def rev_rev_ident upto_slash_def)
qed

lemma split_char_none: "c \<notin> set s \<Longrightarrow> split_char c s = [s]"
  by (induction s) auto

text \<open>The part of a release tag behind its last dash is the version, unless one is configured.\<close>

lemma tag_names_version:
  assumes "ag_pkg_version c = ''''" and "ag_tag c = a @ CHR ''-'' # v" and "CHR ''-'' \<notin> set v" and "v \<noteq> ''''"
  shows "driver_version c url = v"
  using assms by (simp add: driver_version_def split_char_slash split_char_none)

text \<open>
  The version is read from the name of a zip file only; every tarball, among them all that the
  multi-repository mode fetches, counts as 0.0.0.
\<close>

lemma tarball_version_unknown:
  assumes "HasSuffix url ''.gz'' \<or> HasSuffix url ''.tgz''"
  shows "extractVersionFromURL url = ''0.0.0''"
proof -
  have "\<not> HasSuffix (after_slash url) ''.zip''"
  proof
    assume "HasSuffix (after_slash url) ''.zip''"
    then have "last url = CHR ''p''"
      using split_at_slash [of url] by (auto simp: HasSuffix_iff) (metis append.assoc last_appendR last_ConsR last_ConsL list.distinct(1))
    with assms show False by (auto simp: HasSuffix_iff)
  qed
  then show ?thesis by (simp add: extractVersionFromURL_def zip_stem_def Let_def)
qed

lemma zip_version:
  "extractVersionFromURL ''https://github.com/u/r/archive/refs/tags/v1.2.3.zip'' = ''1.2.3''"
  "extractVersionFromURL ''https://github.com/u/r/archive/refs/heads/main.zip'' = ''main''"
  "extractVersionFromURL ''https://github.com/u/r/archive/v1.2.3.zip'' = ''1.2.3''"
  "extractVersionFromURL ''https://github.com/u/r/archive/v1.2.3.tar.gz'' = ''0.0.0''"
  by code_simp+

end
