(* ===== verification/Discovery.thy ===== *)
theory Discovery
  imports GoStd
begin

text \<open>
  Device discovery (\<open>pkg/deviceplugin/discovery.go\<close>): the scan of \<open>/sys/class/cxi\<close>, the parsing of
  what the driver exposes there, the switch a node hangs on, and the two loops that watch for
  changes. The file system is a parameter: what \<open>ReadDir\<close>, \<open>Readlink\<close> and \<open>ReadFile\<close> answer.
\<close>

section \<open>Devices and switches\<close>

abbreviation sysClassCXI :: string where "sysClassCXI \<equiv> ''/sys/class/cxi''"
abbreviation DefaultSwitchIDMask :: u32 where "DefaultSwitchIDMask \<equiv> 0xfffc0"
abbreviation InvalidNID :: u32 where "InvalidNID \<equiv> 0xFFFFFFFF"

record CXIDevice =
  cd_name :: string
  cd_path :: string
  cd_pci :: string
  cd_numa :: int
  cd_nid :: u32
  cd_link :: string

definition SwitchID :: "CXIDevice \<Rightarrow> u32 \<Rightarrow> int" where
  "SwitchID d m = (if cd_nid d = InvalidNID then -1 else uint (cd_nid d AND m))"

definition SwitchIDDefault :: "CXIDevice \<Rightarrow> int" where
  "SwitchIDDefault d = SwitchID d DefaultSwitchIDMask"

section \<open>Scanning\<close>

text \<open>An entry of a directory: what \<open>IsDir\<close> and the symlink bit of \<open>Type\<close> say of it.\<close>

record DirEntry =
  de_name :: string
  de_is_dir :: bool
  de_is_symlink :: bool

datatype dir_result = DirNotExist | DirError string | DirEntries "DirEntry list"

text \<open>The file system as the scan sees it; \<open>None\<close> is any error, which the code ignores.\<close>

record sysfs =
  sf_class :: dir_result
  sf_readlink :: "string \<Rightarrow> string option"
  sf_readfile :: "string \<Rightarrow> string option"

text \<open>\<open>filepath.Join\<close> of clean parts (directory entries hold no separator).\<close>

fun path_join :: "string list \<Rightarrow> string" where
  "path_join [] = ''''"
| "path_join [p] = p"
| "path_join (p # q # ps) = p @ ''/'' @ path_join (q # ps)"

text \<open>\<open>filepath.Base\<close>.\<close>

definition path_base :: "string \<Rightarrow> string" where
  "path_base p =
     (if p = '''' then ''.''
      else let q = rev (dropWhile (\<lambda>c. c = CHR ''/'') (rev p));
               b = rev (takeWhile (\<lambda>c. c \<noteq> CHR ''/'') (rev q))
           in if b = '''' then ''/'' else b)"

definition parseNID :: "string \<Rightarrow> num_error + u32" where
  "parseNID s0 =
     (let s = TrimSpace s0 in
      case (if HasPrefix s ''0x'' \<or> HasPrefix s ''0X'' then ParseUint (drop 2 s) 16 32
            else ParseUint s 10 32) of
        Inl e \<Rightarrow> Inl e
      | Inr n \<Rightarrow> Inr (word_of_int n))"

definition discoverDevice :: "sysfs \<Rightarrow> string \<Rightarrow> CXIDevice" where
  "discoverDevice fs name =
     (let sys_path = path_join [sysClassCXI, name];
          pci = (case sf_readlink fs (path_join [sys_path, ''device'']) of
                   None \<Rightarrow> '''' | Some l \<Rightarrow> path_base l);
          numa = (case sf_readfile fs (path_join [sys_path, ''device'', ''numa_node'']) of
                    None \<Rightarrow> -1
                  | Some data \<Rightarrow> (case Atoi (TrimSpace data) of Inl _ \<Rightarrow> -1 | Inr n \<Rightarrow> n));
          nid = (case sf_readfile fs (path_join [sys_path, ''device'', ''properties'', ''nid'']) of
                   None \<Rightarrow> InvalidNID
                 | Some data \<Rightarrow> (case parseNID (TrimSpace data) of Inl _ \<Rightarrow> InvalidNID | Inr n \<Rightarrow> n));
          link = (case sf_readfile fs (path_join [sys_path, ''device'', ''properties'', ''link'']) of
                    None \<Rightarrow> ''unknown'' | Some data \<Rightarrow> TrimSpace data)
      in \<lparr>cd_name = name, cd_path = path_join [''/dev'', name], cd_pci = pci, cd_numa = numa,
          cd_nid = nid, cd_link = link\<rparr>)"

definition is_cxi_entry :: "DirEntry \<Rightarrow> bool" where
  "is_cxi_entry e \<longleftrightarrow> (de_is_dir e \<or> de_is_symlink e) \<and> HasPrefix (de_name e) ''cxi''"

text \<open>
  \<open>discoverDevice\<close> never returns an error, so the warning branch of the loop is not reached.
\<close>

definition DiscoverDevices :: "sysfs \<Rightarrow> string + CXIDevice list" where
  "DiscoverDevices fs =
     (case sf_class fs of
        DirNotExist \<Rightarrow> Inr []
      | DirError e \<Rightarrow> Inl (''failed to read '' @ sysClassCXI @ '': '' @ e)
      | DirEntries es \<Rightarrow> Inr (map (\<lambda>e. discoverDevice fs (de_name e)) (filter is_cxi_entry es)))"

section \<open>Watching\<close>

text \<open>
  The select loop of \<open>WatchDevices\<close>. An event is what one of its channels delivers; the timer
  channel delivers only while the timer is armed. \<open>TimerFired\<close> carries the outcome of the
  rediscovery it triggers.
\<close>

datatype watch_event =
    FsEvent bool string
  | FsError
  | WatcherClosed
  | TimerFired "string + CXIDevice list"
  | StopRequested

record watch_state =
  ws_running :: bool
  ws_pending :: bool
  ws_timer_armed :: bool
  ws_sent :: "CXIDevice list list"

text \<open>The boolean of \<open>FsEvent\<close> is the test \<open>event.Op & (Create|Remove) != 0\<close>.\<close>

definition relevant :: "watch_event \<Rightarrow> bool" where
  "relevant e = (case e of FsEvent create_or_remove name \<Rightarrow>
     create_or_remove \<and> HasPrefix (path_base name) ''cxi'' | _ \<Rightarrow> False)"

text \<open>The state the loop starts from: the first discovery has been sent, the timer is stopped.\<close>

definition watch_init :: "CXIDevice list \<Rightarrow> watch_state" where
  "watch_init devs =
     \<lparr>ws_running = True, ws_pending = False, ws_timer_armed = False, ws_sent = [devs]\<rparr>"

definition watch_step :: "watch_state \<Rightarrow> watch_event \<Rightarrow> watch_state" where
  "watch_step s e =
     (if \<not> ws_running s then s
      else case e of
        StopRequested \<Rightarrow> s\<lparr>ws_running := False\<rparr>
      | WatcherClosed \<Rightarrow> s\<lparr>ws_running := False\<rparr>
      | FsError \<Rightarrow> s
      | FsEvent _ _ \<Rightarrow>
          if relevant e \<and> \<not> ws_pending s then s\<lparr>ws_pending := True, ws_timer_armed := True\<rparr> else s
      | TimerFired r \<Rightarrow>
          if \<not> ws_timer_armed s then s
          else (case r of
                  Inl _ \<Rightarrow> s\<lparr>ws_pending := False, ws_timer_armed := False\<rparr>
                | Inr devs \<Rightarrow> s\<lparr>ws_pending := False, ws_timer_armed := False,
                                ws_sent := ws_sent s @ [devs]\<rparr>))"

definition watch_run :: "watch_state \<Rightarrow> watch_event list \<Rightarrow> watch_state" where
  "watch_run s es = foldl watch_step s es"

text \<open>The ticks of \<open>pollDevices\<close>: the state is the last count, the result the lists sent.\<close>

fun pollDevices :: "int \<Rightarrow> (string + CXIDevice list) list \<Rightarrow> CXIDevice list list" where
  "pollDevices n0 [] = []"
| "pollDevices n0 (r # rs) =
     (case r of
        Inl _ \<Rightarrow> pollDevices n0 rs
      | Inr devs \<Rightarrow>
          if int (length devs) \<noteq> n0 then devs # pollDevices (int (length devs)) rs
          else pollDevices n0 rs)"

text \<open>
  \<open>WatchDevices\<close> as a whole: the watcher may not come up; a first scan that fails closes the channel
  at once; without the directory, or if it cannot be watched, the loop polls. The result is the
  lists sent, for the events and ticks given; the channel is read until then.
\<close>

record watch_env =
  we_new_watcher :: "string option"
  we_first :: "string + CXIDevice list"
  we_class_missing :: bool
  we_add :: "string option"
  we_events :: "watch_event list"
  we_ticks :: "(string + CXIDevice list) list"

definition WatchDevices :: "watch_env \<Rightarrow> string + CXIDevice list list" where
  "WatchDevices e =
     (case we_new_watcher e of
        Some err \<Rightarrow> Inl (''failed to create fsnotify watcher: '' @ err)
      | None \<Rightarrow>
          Inr (case we_first e of
                 Inl _ \<Rightarrow> []
               | Inr devs \<Rightarrow>
                   if we_class_missing e \<or> we_add e \<noteq> None then devs # pollDevices 0 (we_ticks e)
                   else ws_sent (watch_run (watch_init devs) (we_events e))))"

section \<open>Parsing\<close>

lemma TrimSpace_surrounded:
  assumes "\<forall>c\<in>set s. \<not> is_space c" and "s \<noteq> []" and "\<forall>c\<in>set a. is_space c" "\<forall>c\<in>set b. is_space c"
  shows "TrimSpace (a @ s @ b) = s"
proof -
  have "dropWhile is_space (a @ s @ b) = s @ b"
    using assms by (cases s) (simp_all add: dropWhile_append2)
  moreover have "dropWhile is_space (rev b @ rev s) = rev s"
  proof -
    obtain x xs where "rev s = x # xs" using assms(2) by (cases "rev s") auto
    moreover from this have "\<not> is_space x" using assms(1) by (metis list.set_intros(1) set_rev)
    moreover have "dropWhile is_space (rev b @ ys) = dropWhile is_space ys" for ys
      using assms(4) by (intro dropWhile_append2) simp
    ultimately show ?thesis by simp
  qed
  ultimately show ?thesis by (simp add: TrimSpace_def)
qed

lemma nat_digits_no_space: "\<forall>c\<in>set (nat_digits n). \<not> is_space c"
  using nat_digits_digits digit_char_not_space by blast

lemma nat_digits_no_hex: "\<not> HasPrefix (nat_digits n) (CHR ''0'' # CHR ''x'' # [])"
    "\<not> HasPrefix (nat_digits n) (CHR ''0'' # CHR ''X'' # [])"
proof -
  have "c \<noteq> CHR ''x'' \<and> c \<noteq> CHR ''X''" if c: "c \<in> set (nat_digits n)" for c
  proof -
    obtain d where "d < 10" "c = digit_char d" using nat_digits_digits [OF c] by blast
    then show ?thesis
      by (auto dest: arg_cong [where f = "of_char :: char \<Rightarrow> nat"] simp: digit_char_def)
  qed
  then show "\<not> HasPrefix (nat_digits n) (CHR ''0'' # CHR ''x'' # [])"
    "\<not> HasPrefix (nat_digits n) (CHR ''0'' # CHR ''X'' # [])"
    unfolding HasPrefix_iff by force+
qed

lemma parseNID_decimal:
  assumes "\<forall>c\<in>set a. is_space c" "\<forall>c\<in>set b. is_space c"
  shows "parseNID (a @ nat_digits (unat n) @ b) = Inr n"
proof -
  have "TrimSpace (a @ nat_digits (unat n) @ b) = nat_digits (unat n)"
    using assms nat_digits_no_space by (intro TrimSpace_surrounded) auto
  moreover have "ParseUint (nat_digits (unat n)) 10 32 = Inr (int (unat n))"
    using unsigned_less [of n] by (intro ParseUint_nat_digits) (simp add: unat_of_nat)
  ultimately show ?thesis
    by (simp add: parseNID_def nat_digits_no_hex)
qed

lemma parseNID_hex:
  assumes "\<forall>c\<in>set a. is_space c" "\<forall>c\<in>set b. is_space c"
  shows "parseNID (a @ (''0x'' @ hex_digits (unat n)) @ b) = Inr n"
proof -
  have "TrimSpace (a @ (''0x'' @ hex_digits (unat n)) @ b) = ''0x'' @ hex_digits (unat n)"
    using assms hex_digits_no_space [of "unat n"]
    by (intro TrimSpace_surrounded) (auto simp: is_space_def)
  moreover have "ParseUint (hex_digits (unat n)) 16 32 = Inr (int (unat n))"
    using unsigned_less [of n] by (intro ParseUint_hex_digits) (simp add: unat_of_nat)
  ultimately show ?thesis by (simp add: parseNID_def)
qed

lemma parseNID_too_big: "2 ^ 32 \<le> int n \<Longrightarrow> parseNID (nat_digits n) = Inl ErrRange"
  using nat_digits_no_space
  by (simp add: parseNID_def TrimSpace_no_space nat_digits_no_hex ParseUint_too_big)

text \<open>
  What the driver prints is what is read: a node identifier printed in decimal, or in hexadecimal
  with the prefix \<open>0x\<close>, with any white space around it (sysfs adds a newline), parses to itself for
  all 32-bit values; a number that needs more than 32 bits is refused, never truncated.
\<close>

lemma parseNID_reads_back:
  assumes "\<forall>c\<in>set a. is_space c" and "\<forall>c\<in>set b. is_space c"
  shows "parseNID (a @ nat_digits (unat n) @ b) = Inr n \<and>
    parseNID (a @ (''0x'' @ hex_digits (unat n)) @ b) = Inr n \<and>
    (2 ^ 32 \<le> int k \<longrightarrow> parseNID (nat_digits k) = Inl ErrRange)"
  using parseNID_decimal [OF assms] parseNID_hex [OF assms] parseNID_too_big by blast

section \<open>Switches\<close>

lemma bit_switch_mask: "bit DefaultSwitchIDMask i \<longleftrightarrow> 6 \<le> i \<and> i < 20"
proof -
  have "DefaultSwitchIDMask = push_bit 6 (mask 14)"
    by (simp add: mask_eq_exp_minus_1 push_bit_eq_mult)
  then have "bit DefaultSwitchIDMask i = bit (push_bit 6 (mask 14 :: u32)) i" by (simp only:)
  also have "\<dots> \<longleftrightarrow> 6 \<le> i \<and> i < 20" by (auto simp: bit_simps)
  finally show ?thesis .
qed

lemma same_switch_bits:
  "n AND DefaultSwitchIDMask = n' AND DefaultSwitchIDMask \<longleftrightarrow>
     (\<forall>i. 6 \<le> i \<and> i < 20 \<longrightarrow> bit n i = bit n' i)"
proof
  assume eq: "n AND DefaultSwitchIDMask = n' AND DefaultSwitchIDMask"
  show "\<forall>i. 6 \<le> i \<and> i < 20 \<longrightarrow> bit n i = bit n' i"
  proof (intro allI impI)
    fix i :: nat
    assume "6 \<le> i \<and> i < 20"
    moreover have "bit (n AND DefaultSwitchIDMask) i = bit (n' AND DefaultSwitchIDMask) i"
      by (simp only: eq)
    ultimately show "bit n i = bit n' i" by (simp only: bit_and_iff bit_switch_mask) blast
  qed
next
  assume all: "\<forall>i. 6 \<le> i \<and> i < 20 \<longrightarrow> bit n i = bit n' i"
  show "n AND DefaultSwitchIDMask = n' AND DefaultSwitchIDMask"
    by (rule bit_eqI) (simp only: bit_and_iff bit_switch_mask, use all in blast)
qed

lemma switch_range: "uint (n AND DefaultSwitchIDMask) \<le> 0xfffc0" and
    switch_dvd: "64 dvd uint (n AND DefaultSwitchIDMask)"
proof -
  have "uint (n AND DefaultSwitchIDMask) \<le> uint DefaultSwitchIDMask"
    by (simp only: uint_and) (rule AND_upper2; simp)
  then show "uint (n AND DefaultSwitchIDMask) \<le> 0xfffc0" by simp
  define x where "x = n AND DefaultSwitchIDMask"
  have "bit x i \<longleftrightarrow> bit n i \<and> 6 \<le> i \<and> i < 20" for i
    by (simp only: x_def bit_and_iff bit_switch_mask)
  then have "take_bit 6 (uint x) = 0"
    by (intro bit_eqI) (auto simp: bit_take_bit_iff bit_uint_iff)
  then have "take_bit 6 (uint (n AND DefaultSwitchIDMask)) = 0" by (simp only: x_def)
  then show "64 dvd uint (n AND DefaultSwitchIDMask)" by (simp add: take_bit_eq_mod dvd_eq_mod_eq_0)
qed

text \<open>
  The default mask groups nodes by switch: of two devices with a node identifier, the switch is
  the same exactly when bits 6 to 19 agree, whatever the node within the switch; the switch number
  is a multiple of 64 that fits in 20 bits, and \<open>-1\<close> is reported exactly for a missing identifier.
\<close>

lemma switch_groups_nodes:
  "(SwitchIDDefault d = -1 \<longleftrightarrow> cd_nid d = InvalidNID) \<and>
   (cd_nid d \<noteq> InvalidNID \<longrightarrow> SwitchIDDefault d \<in> {0..0xfffc0} \<and> 64 dvd SwitchIDDefault d) \<and>
   (cd_nid d \<noteq> InvalidNID \<and> cd_nid e \<noteq> InvalidNID \<longrightarrow>
      (SwitchIDDefault d = SwitchIDDefault e \<longleftrightarrow>
         (\<forall>i. 6 \<le> i \<and> i < 20 \<longrightarrow> bit (cd_nid d) i = bit (cd_nid e) i)))"
proof -
  have "uint (n AND DefaultSwitchIDMask) \<noteq> -1" for n :: u32
    using uint_nonnegative [of "n AND DefaultSwitchIDMask"] by linarith
  then show ?thesis
    using same_switch_bits [of "cd_nid d" "cd_nid e"] switch_range [of "cd_nid d"] switch_dvd [of "cd_nid d"]
      uint_nonnegative [of "cd_nid d AND DefaultSwitchIDMask"]
    by (simp add: SwitchIDDefault_def SwitchID_def word_uint_eq_iff del: uint_and)
qed

section \<open>Discovery\<close>

lemma discoverDevice_name [simp]: "cd_name (discoverDevice fs n) = n"
  by (simp add: discoverDevice_def Let_def)

text \<open>The paths of a device's attribute files.\<close>

definition attr_path :: "string \<Rightarrow> string list \<Rightarrow> string" where
  "attr_path n ps = path_join (sysClassCXI # n # ps)"

abbreviation numa_path :: "string \<Rightarrow> string" where
  "numa_path n \<equiv> attr_path n [''device'', ''numa_node'']"
abbreviation nid_path :: "string \<Rightarrow> string" where
  "nid_path n \<equiv> attr_path n [''device'', ''properties'', ''nid'']"

lemma discover_numa:
  "cd_numa (discoverDevice fs n) =
     (case sf_readfile fs (numa_path n) of
        None \<Rightarrow> -1 | Some data \<Rightarrow> (case Atoi (TrimSpace data) of Inl _ \<Rightarrow> -1 | Inr k \<Rightarrow> k))"
  by (simp add: discoverDevice_def attr_path_def Let_def)

lemma discover_nid:
  "cd_nid (discoverDevice fs n) =
     (case sf_readfile fs (nid_path n) of
        None \<Rightarrow> InvalidNID
      | Some data \<Rightarrow> (case parseNID (TrimSpace data) of Inl _ \<Rightarrow> InvalidNID | Inr k \<Rightarrow> k))"
  by (simp add: discoverDevice_def attr_path_def Let_def)

lemma Itoa_no_space: "\<forall>c\<in>set (Itoa i). \<not> is_space c" "Itoa i \<noteq> []"
  using nat_digits_no_space by (auto simp: Itoa_def is_space_def)

lemma TrimSpace_twice: "TrimSpace (TrimSpace s) = TrimSpace s"
proof -
  have head: "dropWhile is_space (dropWhile is_space t) = dropWhile is_space t" for t
    by (induction t) auto
  let ?t = "dropWhile is_space (rev (dropWhile is_space s))"
  have "dropWhile is_space (rev ?t) = rev ?t"
  proof (cases "rev ?t")
    case Nil
    then show ?thesis by (simp only: dropWhile.simps)
  next
    case (Cons c cs)
    obtain xs where "rev (dropWhile is_space s) = xs @ ?t"
      by (metis takeWhile_dropWhile_id)
    then have "dropWhile is_space s = rev ?t @ rev xs" by (metis rev_append rev_rev_ident)
    then have "dropWhile is_space s = c # cs @ rev xs" using Cons by simp
    then have "\<not> is_space c" using hd_dropWhile [of is_space s] by simp
    then show ?thesis using Cons by simp
  qed
  then show ?thesis by (simp add: TrimSpace_def head)
qed



section \<open>Watching\<close>

lemma watch_run_append [simp]: "watch_run s (es @ fs) = watch_run (watch_run s es) fs"
  by (simp add: watch_run_def)

lemma watch_run_simps [simp]:
  "watch_run s [] = s" "watch_run s (e # es) = watch_run (watch_step s e) es"
  by (simp_all add: watch_run_def)

text \<open>The timer is armed exactly while an update is pending.\<close>

lemma watch_timer_inv:
  "ws_timer_armed s = ws_pending s \<Longrightarrow> ws_timer_armed (watch_step s e) = ws_pending (watch_step s e)"
  by (auto simp: watch_step_def split: watch_event.splits sum.splits)

lemma watch_run_inv: "ws_timer_armed (watch_run (watch_init devs) es) = ws_pending (watch_run (watch_init devs) es)"
proof (induction es rule: rev_induct)
  case Nil
  then show ?case by (simp add: watch_init_def)
next
  case (snoc e es)
  then show ?case by (simp add: watch_timer_inv)
qed

definition is_stop :: "watch_event \<Rightarrow> bool" where
  "is_stop e \<longleftrightarrow> e = StopRequested \<or> e = WatcherClosed"

definition is_timer :: "watch_event \<Rightarrow> bool" where
  "is_timer e = (case e of TimerFired _ \<Rightarrow> True | _ \<Rightarrow> False)"

lemma watch_quiet:
  assumes "ws_running s" and "\<forall>e\<in>set es. \<not> is_stop e \<and> \<not> is_timer e"
    and "ws_timer_armed s = ws_pending s"
  shows "ws_running (watch_run s es) \<and> ws_sent (watch_run s es) = ws_sent s \<and>
    ws_timer_armed (watch_run s es) = ws_pending (watch_run s es) \<and>
    ws_pending (watch_run s es) = (ws_pending s \<or> (\<exists>e\<in>set es. relevant e))"
  using assms
proof (induction es arbitrary: s)
  case (Cons e es)
  have "ws_running (watch_step s e) \<and> ws_sent (watch_step s e) = ws_sent s \<and>
      ws_timer_armed (watch_step s e) = ws_pending (watch_step s e) \<and>
      ws_pending (watch_step s e) = (ws_pending s \<or> relevant e)"
    using Cons.prems by (auto simp: watch_step_def is_stop_def is_timer_def relevant_def
        split: watch_event.splits)
  with Cons.IH [of "watch_step s e"] Cons.prems show ?case by auto
qed simp



text \<open>
  Polling compares counts only. Where the watcher falls back to polling, ticks whose scan finds
  as many devices as the first one send nothing more, so a device replaced by another between two
  ticks is never reported; and as the count starts at zero, the first tick repeats the list that
  was sent before the fallback.
\<close>

lemma polling_sees_counts_only:
  assumes "we_new_watcher e = None" and "we_first e = Inr first" and "we_class_missing e \<or> we_add e \<noteq> None"
    and "we_ticks e = Inr second # rs"
    and "\<forall>r\<in>set rs. \<forall>devs. r = Inr devs \<longrightarrow> length devs = length second"
  shows "WatchDevices e = Inr (if second = [] then [first] else [first, second])"
proof -
  have "pollDevices (int (length second)) rs = []"
    using assms(5) by (induction rs) (auto split: sum.splits)
  then show ?thesis using assms(1-4) by (cases second) (auto simp: WatchDevices_def)
qed

text \<open>A device as the witnesses of other theories use it.\<close>

definition sample_device :: "string \<Rightarrow> string \<Rightarrow> CXIDevice" where
  "sample_device n pci =
     \<lparr>cd_name = n, cd_path = ''/dev/'' @ n, cd_pci = pci, cd_numa = 0, cd_nid = 1, cd_link = ''1''\<rparr>"

end
