(* ===== verification/DriverAgent.thy ===== *)
theory DriverAgent
  imports Download Discovery
begin

text \<open>
  The driver agent's set-up of the kernel driver (\<open>pkg/driveragent/agent.go\<close>): its configuration and
  state, the three sources a driver can come from, and the order of the steps. The installation
  functions are actions on the host; each of them marks the driver ready as the last thing it
  does, and only if it returns no error, so here this is done where they return.
\<close>

section \<open>State\<close>

abbreviation DriverSource_dkms :: string where "DriverSource_dkms \<equiv> ''dkms''"
abbreviation DriverSource_prebuilt :: string where "DriverSource_prebuilt \<equiv> ''prebuilt''"
abbreviation DriverSource_preinstalled :: string where "DriverSource_preinstalled \<equiv> ''preinstalled''"

record agent =
  ga_config :: AgentConfig
  ga_ready :: bool
  ga_error :: string
  ga_devices :: "CXIDevice list"

definition NewAgent :: "AgentConfig \<Rightarrow> agent" where
  "NewAgent c =
     (let c1 = (if ag_health_port c = 0 then c\<lparr>ag_health_port := 8081\<rparr> else c);
          c2 = (if ag_poll_interval c1 = 0 then c1\<lparr>ag_poll_interval := 30000000000\<rparr> else c1);
          c3 = (if ag_mask c2 = 0 then c2\<lparr>ag_mask := DefaultSwitchIDMask\<rparr> else c2);
          c4 = (if ag_platform c3 = '''' then c3\<lparr>ag_platform := ''cassini''\<rparr> else c3)
      in \<lparr>ga_config = c4, ga_ready = False, ga_error = '''', ga_devices = []\<rparr>)"

definition setDriverReady :: "agent \<Rightarrow> bool \<Rightarrow> agent" where
  "setDriverReady a ready = (if ready then a\<lparr>ga_ready := True, ga_error := ''''\<rparr> else a\<lparr>ga_ready := False\<rparr>)"

text \<open>\<open>None\<close> is the nil error.\<close>

definition setError :: "agent \<Rightarrow> string option \<Rightarrow> agent" where
  "setError a e = a\<lparr>ga_error := (case e of None \<Rightarrow> '''' | Some s \<Rightarrow> s)\<rparr>"

section \<open>Installing the driver\<close>

definition repo_url :: "string \<Rightarrow> string \<Rightarrow> string" where
  "repo_url repo tag = ''https://github.com/HewlettPackard/'' @ repo @ ''/archive/refs/tags/'' @ tag @ ''.tar.gz''"

definition installDKMSMultiRepo :: "AgentConfig \<Rightarrow> unit act" where
  "installDKMSMultiRepo c = steps
     [wrapping ''downloading cassini-headers: '' (downloadHeaders (repo_url ''shs-cassini-headers'' (ag_tag c))),
      wrapping ''building SBL: '' (buildDependency c ''sbl'' (repo_url ''ss-sbl'' (ag_tag c))),
      wrapping ''building SL: '' (buildDependency c ''sl'' (repo_url ''ss-link'' (ag_tag c))),
      wrapping ''building CXI driver: '' (buildCXIDriver c (repo_url ''shs-cxi-driver'' (ag_tag c))),
      wrapping ''failed to load cxi_ss1: '' (loadModule ''cxi_ss1''),
      ignoring (loadModule ''cxi_user'')]"

definition legacy_version :: "AgentConfig \<Rightarrow> string" where
  "legacy_version c = (if ag_pkg_version c = '''' then extractVersionFromURL (ag_dkms_url c) else ag_pkg_version c)"

definition installDKMSLegacy :: "AgentConfig \<Rightarrow> unit act" where
  "installDKMSLegacy c =
     (if ag_dkms_url c = '''' then fail ''DKMS source URL not configured (set DKMSTag or DKMSSourceURL)''
      else steps
        [wrapping ''failed to download driver source: '' (downloadAndExtract (ag_dkms_url c) ''/tmp/cxi-driver''),
         wrapping ''failed to prepare DKMS source: ''
           (prepareDKMSSource ''/tmp/cxi-driver'' (package_name c) (legacy_version c)),
         wrapping ''dkms add failed: '' (runDKMSAdd ''/tmp/cxi-driver''),
         wrapping ''dkms build failed: '' (runDKMSBuild (package_name c)),
         wrapping ''dkms install failed: '' (runDKMSInstall (package_name c)),
         wrapping ''failed to load cxi_ss1: '' (loadModule ''cxi_ss1''),
         ignoring (loadModule ''cxi_user'')])"

definition installDKMS :: "AgentConfig \<Rightarrow> unit act" where
  "installDKMS c = (if ag_tag c \<noteq> '''' then installDKMSMultiRepo c else installDKMSLegacy c)"

definition installPrebuilt :: "AgentConfig \<Rightarrow> unit act" where
  "installPrebuilt c =
     (if ag_prebuilt_url c = '''' then fail ''prebuilt URL not configured''
      else andThen (wrapping ''failed to get kernel version: '' kernelVersion) (\<lambda>k. steps
        [wrapping ''failed to download prebuilt module: ''
           (downloadFile (ag_prebuilt_url c @ ''/'' @ k @ ''/cxi.ko'') (''/lib/modules/'' @ k @ ''/extra/cxi/cxi.ko'')),
         wrapping ''depmod failed: '' runDepmod,
         wrapping ''failed to load cxi module: '' (loadModule ''cxi'')]))"

definition verifyPreinstalled :: "unit act" where
  "verifyPreinstalled = andThen (read_option ''/proc/modules'') (\<lambda>mods.
     if isModuleLoaded mods ''cxi_ss1'' then ret ()
     else wrapping ''cxi_ss1 module not found or loadable: '' (loadModule ''cxi_ss1''))"

definition ensureDriver :: "AgentConfig \<Rightarrow> unit act" where
  "ensureDriver c =
     (if ag_source c = DriverSource_dkms then installDKMS c
      else if ag_source c = DriverSource_prebuilt then installPrebuilt c
      else if ag_source c = DriverSource_preinstalled then verifyPreinstalled
      else fail (''unknown driver source: '' @ ag_source c))"

text \<open>The part of \<open>Start\<close> that sets the driver up; its error is recorded, not returned.\<close>

definition setup_driver :: "agent \<Rightarrow> host \<Rightarrow> trace \<Rightarrow> agent \<times> trace" where
  "setup_driver a H t =
     (case ensureDriver (ga_config a) H t of
        (Inr _, t') \<Rightarrow> (setDriverReady a True, t')
      | (Inl e, t') \<Rightarrow> (setError a (Some e), t'))"

text \<open>
  \<open>Start\<close>: without a configuration or a client it returns an error and nothing is done; otherwise
  the driver is set up, and then the health server and the watcher run.
\<close>

definition Start_agent :: "string option \<Rightarrow> string option \<Rightarrow> agent \<Rightarrow> host \<Rightarrow> trace \<Rightarrow> string + (agent \<times> trace)" where
  "Start_agent no_config no_client a H t =
     (case no_config of
        Some e \<Rightarrow> Inl (''failed to get in-cluster config: '' @ e)
      | None \<Rightarrow>
          (case no_client of
             Some e \<Rightarrow> Inl (''failed to create client: '' @ e)
           | None \<Rightarrow> Inr (setup_driver a H t)))"

section \<open>The plan\<close>

text \<open>The milestones of a configuration, in order.\<close>

definition dkms_milestones :: "AgentConfig \<Rightarrow> string \<Rightarrow> milestone list" where
  "dkms_milestones c url =
     [fetched url, DkmsAdd ''/tmp/cxi-driver'', DkmsBuild (package_name c), DkmsInstall (package_name c),
      Loaded ''cxi_ss1'']"

definition driver_plan :: "AgentConfig \<Rightarrow> milestone list" where
  "driver_plan c =
     (if ag_source c = DriverSource_prebuilt then [FetchModule, Depmod, Loaded ''cxi'']
      else if ag_tag c \<noteq> '''' then
        [fetched (repo_url ''shs-cassini-headers'' (ag_tag c)),
         fetched (repo_url ''ss-sbl'' (ag_tag c)), Built ''/tmp/sbl'',
         fetched (repo_url ''ss-link'' (ag_tag c)), Built ''/tmp/sl''] @
        dkms_milestones c (repo_url ''shs-cxi-driver'' (ag_tag c))
      else dkms_milestones c (ag_dkms_url c))"

lemma emits_multi_repo:
  assumes "ag_tag c \<noteq> ''''" and "ag_source c = DriverSource_dkms"
  shows "emits milestone_of (driver_plan c) (installDKMSMultiRepo c)"
proof -
  have "emits milestone_of
     ([fetched (repo_url ''shs-cassini-headers'' (ag_tag c))] @
      [fetched (repo_url ''ss-sbl'' (ag_tag c)), Built (Join [''/tmp'', ''sbl''])] @
      [fetched (repo_url ''ss-link'' (ag_tag c)), Built (Join [''/tmp'', ''sl''])] @
      [fetched (repo_url ''shs-cxi-driver'' (ag_tag c)), DkmsAdd ''/tmp/cxi-driver'', DkmsBuild (package_name c),
       DkmsInstall (package_name c)] @ [Loaded ''cxi_ss1''] @ [] @ []) (installDKMSMultiRepo c)"
    unfolding installDKMSMultiRepo_def
    by (intro emits_steps_Cons emits_steps_Nil emits_wrapping milestones emits_ignoring) simp_all
  then show ?thesis using assms by (simp add: driver_plan_def dkms_milestones_def)
qed

lemma emits_legacy:
  assumes "ag_tag c = ''''" and "ag_source c = DriverSource_dkms"
  shows "emits milestone_of (driver_plan c) (installDKMSLegacy c)"
proof -
  have "emits milestone_of
     ([fetched (ag_dkms_url c)] @ [] @ [DkmsAdd ''/tmp/cxi-driver''] @ [DkmsBuild (package_name c)] @
      [DkmsInstall (package_name c)] @ [Loaded ''cxi_ss1''] @ [] @ []) (installDKMSLegacy c)"
    unfolding installDKMSLegacy_def
    by (intro emits_if emits_basic(2) emits_steps_Cons emits_steps_Nil emits_wrapping milestones emits_ignoring)
       simp_all
  then show ?thesis using assms by (simp add: driver_plan_def dkms_milestones_def)
qed

lemma emits_prebuilt:
  assumes "ag_source c = DriverSource_prebuilt"
  shows "emits milestone_of (driver_plan c) (installPrebuilt c)"
proof -
  have url: "fetched (u @ k @ ''/cxi.ko'') = FetchModule" for u k
    using HasSuffix_append [of "u @ k" "''/cxi.ko''"] by (simp add: fetched_def)
  have "emits milestone_of ([FetchModule] @ [Depmod] @ [Loaded ''cxi''] @ [])
     (steps
        [wrapping ''failed to download prebuilt module: ''
           (downloadFile (ag_prebuilt_url c @ ''/'' @ k @ ''/cxi.ko'') (''/lib/modules/'' @ k @ ''/extra/cxi/cxi.ko'')),
         wrapping ''depmod failed: '' runDepmod,
         wrapping ''failed to load cxi module: '' (loadModule ''cxi'')])" for k
    using emits_downloadFile [of "ag_prebuilt_url c @ ''/'' @ k @ ''/cxi.ko''"] url [of "ag_prebuilt_url c" "''/'' @ k"]
    by (intro emits_steps_Cons emits_steps_Nil emits_wrapping milestones) simp_all
  then show ?thesis
    unfolding installPrebuilt_def using assms
    by (intro emits_if emits_basic(2) emits_andThen_quiet emits_wrapping emits_kernelVersion)
       (simp add: driver_plan_def)
qed


definition sample_agent_config :: "string \<Rightarrow> AgentConfig" where
  "sample_agent_config source =
     \<lparr>ag_node = ''n1'', ag_namespace = ''slingshot-system'', ag_source = source, ag_dkms_url = '''',
      ag_pkg_name = '''', ag_pkg_version = '''', ag_tag = ''release/shs-12.0.2'', ag_platform = '''',
      ag_prebuilt_url = ''http://cache/modules'', ag_health_port = 0, ag_poll_interval = 0, ag_mask = 0,
      ag_no_labels = False\<rparr>"

text \<open>A host that runs Linux, and on which \<open>depmod\<close> fails.\<close>

definition depmod_host :: host where
  "depmod_host = sample_host
     \<lparr>ho_read := (\<lambda>t p. Inr ''Linux version 6.4.0 (gcc)''),
      ho_do := (\<lambda>t op. if op = Run ''depmod'' [''-a''] then Some ''exit status 1'' else None)\<rparr>"


end
