(* ===== verification/GoJson.thy ===== *)
theory GoJson
  imports GoStd
begin

text \<open>
  The fragment of package \<open>encoding/json\<close> that reading a document needs: the grammar of values,
  and the rules by which a value is stored in a Go variable. Documents are read as bytes; bytes
  from 128 on inside a string are kept. The limit of 10000 nested values is left out.
\<close>

datatype json =
    JNull
  | JBool bool
  | JNum string
  | JStr string
  | JArr "json list"
  | JObj "(string \<times> json) list"

section \<open>Strings\<close>

text \<open>What a string literal holds: plain bytes and the 16-bit units of its \<open>u\<close> escapes.\<close>

datatype str_item = Raw char | Unit16 nat

definition unescape :: "char \<Rightarrow> char option" where
  "unescape c = map_of
     [(CHR 0x22, CHR 0x22), (CHR 0x5C, CHR 0x5C), (CHR ''/'', CHR ''/''), (CHR ''b'', CHR 0x08),
      (CHR ''f'', CHR 0x0C), (CHR ''n'', CHR 0x0A), (CHR ''r'', CHR 0x0D), (CHR ''t'', CHR 0x09)] c"

definition hex_digit :: "char \<Rightarrow> nat option" where
  "hex_digit c = (case digit_val c of Some d \<Rightarrow> if d < 16 then Some (nat d) else None | None \<Rightarrow> None)"

definition unit16 :: "char \<Rightarrow> char \<Rightarrow> char \<Rightarrow> char \<Rightarrow> nat option" where
  "unit16 a b c d =
     (case (hex_digit a, hex_digit b, hex_digit c, hex_digit d) of
        (Some w, Some x, Some y, Some z) \<Rightarrow> Some (((w * 16 + x) * 16 + y) * 16 + z)
      | _ \<Rightarrow> None)"

text \<open>The items up to the closing quote, and what follows it.\<close>

function scan_string :: "string \<Rightarrow> (str_item list \<times> string) option" where
  "scan_string s =
     (case s of
        [] \<Rightarrow> None
      | c # cs \<Rightarrow>
          if c = CHR 0x22 then Some ([], cs)
          else if c = CHR 0x5C then
            (case cs of
               [] \<Rightarrow> None
             | e # r \<Rightarrow>
                 (case unescape e of
                    Some d \<Rightarrow> map_option (\<lambda>(is, t). (Raw d # is, t)) (scan_string r)
                  | None \<Rightarrow>
                      if e \<noteq> CHR ''u'' \<or> length r < 4 then None
                      else (case unit16 (r ! 0) (r ! 1) (r ! 2) (r ! 3) of
                              None \<Rightarrow> None
                            | Some u \<Rightarrow>
                                map_option (\<lambda>(is, t). (Unit16 u # is, t)) (scan_string (drop 4 r)))))
          else if (of_char c :: nat) < 32 then None
          else map_option (\<lambda>(is, t). (Raw c # is, t)) (scan_string cs))"
  by pat_completeness auto
termination by (relation "measure length") auto

declare scan_string.simps [simp del]

definition utf8 :: "nat \<Rightarrow> string" where
  "utf8 n =
     (if n < 0x80 then [char_of n]
      else if n < 0x800 then [char_of (0xC0 + n div 64), char_of (0x80 + n mod 64)]
      else if n < 0x10000 then
        [char_of (0xE0 + n div 4096), char_of (0x80 + n div 64 mod 64), char_of (0x80 + n mod 64)]
      else [char_of (0xF0 + n div 262144), char_of (0x80 + n div 4096 mod 64),
            char_of (0x80 + n div 64 mod 64), char_of (0x80 + n mod 64)])"

text \<open>Surrogate pairs are joined, a lone surrogate becomes the replacement character.\<close>

fun join_items :: "str_item list \<Rightarrow> string" where
  "join_items [] = []"
| "join_items (Raw c # is) = c # join_items is"
| "join_items (Unit16 u # Unit16 v # is) =
     (if 0xD800 \<le> u \<and> u < 0xDC00 \<and> 0xDC00 \<le> v \<and> v < 0xE000
      then utf8 (0x10000 + (u - 0xD800) * 1024 + (v - 0xDC00)) @ join_items is
      else utf8 (if 0xD800 \<le> u \<and> u < 0xE000 then 0xFFFD else u) @ join_items (Unit16 v # is))"
| "join_items (Unit16 u # is) =
     utf8 (if 0xD800 \<le> u \<and> u < 0xE000 then 0xFFFD else u) @ join_items is"

section \<open>Numbers\<close>

definition is_dec :: "char \<Rightarrow> bool" where
  "is_dec c \<longleftrightarrow> (48 \<le> (of_char c :: nat) \<and> (of_char c :: nat) \<le> 57)"

text \<open>One or more digits; a fraction; an exponent. The result is the token and the rest.\<close>

definition scan_digits :: "string \<Rightarrow> (string \<times> string) option" where
  "scan_digits s = (if takeWhile is_dec s = [] then None else Some (takeWhile is_dec s, dropWhile is_dec s))"

definition scan_fraction :: "string \<Rightarrow> (string \<times> string) option" where
  "scan_fraction s =
     (case s of
        c # r \<Rightarrow> if c = CHR ''.'' then map_option (\<lambda>(t, q). (c # t, q)) (scan_digits r) else Some ([], s)
      | [] \<Rightarrow> Some ([], s))"

definition scan_exponent :: "string \<Rightarrow> (string \<times> string) option" where
  "scan_exponent s =
     (case s of
        e # r \<Rightarrow>
          if e = CHR ''e'' \<or> e = CHR ''E'' then
            (case r of
               g # q \<Rightarrow> if g = CHR ''+'' \<or> g = CHR ''-''
                        then map_option (\<lambda>(t, u). (e # g # t, u)) (scan_digits q)
                        else map_option (\<lambda>(t, u). (e # t, u)) (scan_digits r)
             | [] \<Rightarrow> None)
          else Some ([], s)
      | [] \<Rightarrow> Some ([], s))"

definition scan_integer :: "string \<Rightarrow> (string \<times> string) option" where
  "scan_integer s =
     (case s of
        c # r \<Rightarrow> if c = CHR ''0'' then Some ([c], r) else scan_digits s
      | [] \<Rightarrow> None)"

definition scan_number :: "string \<Rightarrow> (string \<times> string) option" where
  "scan_number s =
     (case (case s of c # r \<Rightarrow> if c = CHR ''-'' then ([c], r) else ([], s) | [] \<Rightarrow> ([], s)) of (sg, s1) \<Rightarrow>
      case scan_integer s1 of None \<Rightarrow> None | Some (i, s2) \<Rightarrow>
      case scan_fraction s2 of None \<Rightarrow> None | Some (f, s3) \<Rightarrow>
      case scan_exponent s3 of None \<Rightarrow> None | Some (e, s4) \<Rightarrow> Some (sg @ i @ f @ e, s4))"

section \<open>Values\<close>

definition is_json_space :: "char \<Rightarrow> bool" where
  "is_json_space c \<longleftrightarrow> c \<in> set [CHR '' '', CHR 0x09, CHR 0x0A, CHR 0x0D]"

definition skip_space :: "string \<Rightarrow> string" where
  "skip_space s = dropWhile is_json_space s"

definition literal :: "string \<Rightarrow> json \<Rightarrow> string \<Rightarrow> (json \<times> string) option" where
  "literal w v s = (if HasPrefix s w then Some (v, drop (length w) s) else None)"

text \<open>
  The number bounds the calls that are nested or follow one another; the length of the document
  is enough, as every call consumes a character.
\<close>

fun scan_value :: "nat \<Rightarrow> string \<Rightarrow> (json \<times> string) option"
  and scan_elements :: "nat \<Rightarrow> string \<Rightarrow> (json list \<times> string) option"
  and scan_members :: "nat \<Rightarrow> string \<Rightarrow> ((string \<times> json) list \<times> string) option" where
  "scan_value 0 s = None"
| "scan_value (Suc n) s0 =
     (let s = skip_space s0 in
      if s = [] then None
      else let c = hd s; r = tl s in
        if c = CHR 0x22 then map_option (\<lambda>(is, t). (JStr (join_items is), t)) (scan_string r)
        else if c = CHR ''['' then
          (if HasPrefix (skip_space r) '']'' then Some (JArr [], tl (skip_space r))
           else map_option (\<lambda>(vs, t). (JArr vs, t)) (scan_elements n r))
        else if c = CHR ''{'' then
          (if HasPrefix (skip_space r) ''}'' then Some (JObj [], tl (skip_space r))
           else map_option (\<lambda>(vs, t). (JObj vs, t)) (scan_members n r))
        else if c = CHR ''t'' then literal ''true'' (JBool True) s
        else if c = CHR ''f'' then literal ''false'' (JBool False) s
        else if c = CHR ''n'' then literal ''null'' JNull s
        else map_option (\<lambda>(t, q). (JNum t, q)) (scan_number s))"
| "scan_elements 0 s = None"
| "scan_elements (Suc n) s =
     (case scan_value n s of
        None \<Rightarrow> None
      | Some (v, r) \<Rightarrow>
          let q = skip_space r in
          if HasPrefix q '','' then map_option (\<lambda>(vs, t). (v # vs, t)) (scan_elements n (tl q))
          else if HasPrefix q '']'' then Some ([v], tl q)
          else None)"
| "scan_members 0 s = None"
| "scan_members (Suc n) s0 =
     (let s = skip_space s0 in
      if \<not> HasPrefix s [CHR 0x22] then None
      else case scan_string (tl s) of
        None \<Rightarrow> None
      | Some (is, r) \<Rightarrow>
          let q = skip_space r in
          if \<not> HasPrefix q '':'' then None
          else case scan_value n (tl q) of
            None \<Rightarrow> None
          | Some (v, r2) \<Rightarrow>
              let q2 = skip_space r2 in
              if HasPrefix q2 '','' then
                map_option (\<lambda>(ms, t). ((join_items is, v) # ms, t)) (scan_members n (tl q2))
              else if HasPrefix q2 ''}'' then Some ([(join_items is, v)], tl q2)
              else None)"

text \<open>The first value of a document, as \<open>Decoder.Decode\<close> reads it.\<close>

definition parse_json :: "string \<Rightarrow> json option" where
  "parse_json s = map_option fst (scan_value (Suc (length s)) s)"

section \<open>Storing values\<close>

text \<open>
  \<open>null\<close> leaves a variable as it is; a value of another type is an error. Keys match without
  regard to case, unknown keys are skipped.
\<close>

definition store_string :: "string \<Rightarrow> json \<Rightarrow> string option" where
  "store_string x v = (case v of JNull \<Rightarrow> Some x | JStr s \<Rightarrow> Some s | _ \<Rightarrow> None)"

definition store_bool :: "bool \<Rightarrow> json \<Rightarrow> bool option" where
  "store_bool x v = (case v of JNull \<Rightarrow> Some x | JBool b \<Rightarrow> Some b | _ \<Rightarrow> None)"

definition store_int :: "int \<Rightarrow> json \<Rightarrow> int option" where
  "store_int x v =
     (case v of
        JNull \<Rightarrow> Some x
      | JNum t \<Rightarrow> (case Atoi t of Inl _ \<Rightarrow> None | Inr i \<Rightarrow> Some i)
      | _ \<Rightarrow> None)"

definition key_is :: "string \<Rightarrow> string \<Rightarrow> bool" where
  "key_is k f \<longleftrightarrow> map (\<lambda>c. lower (of_char c)) k = map (\<lambda>c. lower (of_char c)) f"

fun map_opt :: "('a \<Rightarrow> 'b option) \<Rightarrow> 'a list \<Rightarrow> 'b list option" where
  "map_opt f [] = Some []"
| "map_opt f (x # xs) =
     (case f x of None \<Rightarrow> None | Some y \<Rightarrow> map_option ((#) y) (map_opt f xs))"

lemma map_opt_all: "(\<And>x. x \<in> set xs \<Longrightarrow> f x = Some (g x)) \<Longrightarrow> map_opt f xs = Some (map g xs)"
  by (induction xs) auto

end
