(* ===== verification/JsonText.thy ===== *)
theory JsonText
  imports GoJson
begin

text \<open>
  JSON written by hand: both programs with a status document print it with \<open>%q\<close>, \<open>%v\<close> and \<open>%d\<close>
  rather than with \<open>encoding/json\<close>. The lemmas say what the reader of \<open>GoJson\<close> makes of such text,
  construct by construct, and that it refuses the escapes of \<open>%q\<close> that JSON does not have.
\<close>

section \<open>Text that is read back\<close>

text \<open>The characters \<open>%q\<close> writes in a way JSON reads back.\<close>

definition json_safe :: "char \<Rightarrow> bool" where
  "json_safe c \<longleftrightarrow>
     (let n = (of_char c :: nat) in (32 \<le> n \<and> n \<noteq> 127) \<or> n \<in> {8, 9, 10, 12, 13})"

lemma scan_string_close: "scan_string (CHR 0x22 # r) = Some ([], r)"
  by (subst scan_string.simps) simp

lemma scan_string_plain:
  "c \<noteq> CHR 0x22 \<Longrightarrow> c \<noteq> CHR 0x5C \<Longrightarrow> 32 \<le> (of_char c :: nat) \<Longrightarrow>
     scan_string (c # r) = map_option (\<lambda>(is, t). (Raw c # is, t)) (scan_string r)"
  by (subst scan_string.simps) simp

lemma scan_string_escape:
  "unescape e = Some d \<Longrightarrow>
     scan_string (CHR 0x5C # e # r) = map_option (\<lambda>(is, t). (Raw d # is, t)) (scan_string r)"
  by (subst scan_string.simps) simp

lemma char_of_code: "(of_char c :: nat) = of_char d \<Longrightarrow> c = d"
  by simp

lemma scan_string_char:
  assumes "json_safe c"
  shows "scan_string (quote_char c @ r) = map_option (\<lambda>(is, t). (Raw c # is, t)) (scan_string r)"
proof -
  let ?n = "of_char c :: nat"
  consider (quoted) "c = CHR 0x22 \<or> c = CHR 0x5C"
    | (control) "?n \<in> {8, 9, 10, 12, 13}"
    | (plain) "c \<noteq> CHR 0x22" "c \<noteq> CHR 0x5C" "32 \<le> ?n" "?n \<noteq> 127"
    using assms unfolding json_safe_def Let_def by blast
  then show ?thesis
  proof cases
    case quoted
    then show ?thesis by (auto simp: quote_char_def unescape_def intro!: scan_string_escape)
  next
    case control
    then have "c \<in> {CHR 0x08, CHR 0x09, CHR 0x0A, CHR 0x0C, CHR 0x0D}"
      using char_of_code [of c "CHR 0x08"] char_of_code [of c "CHR 0x09"] char_of_code [of c "CHR 0x0A"]
        char_of_code [of c "CHR 0x0C"] char_of_code [of c "CHR 0x0D"] by auto
    then show ?thesis by (auto simp: quote_char_def unescape_def intro!: scan_string_escape)
  next
    case plain
    then have "quote_char c = [c]" by (simp add: quote_char_def)
    with plain show ?thesis by (simp add: scan_string_plain)
  qed
qed

lemma scan_string_quoted:
  "list_all json_safe s \<Longrightarrow>
     scan_string (concat (map quote_char s) @ CHR 0x22 # r) = Some (map Raw s, r)"
  by (induction s) (simp_all add: scan_string_close scan_string_char)

lemma join_raw [simp]: "join_items (map Raw s) = s"
  by (induction s) simp_all

lemma skip_space_simps [simp]:
  "skip_space [] = []"
  "skip_space (c # s) = (if is_json_space c then skip_space s else c # s)"
  by (simp_all add: skip_space_def)

lemma is_json_space_simps [simp]:
  "is_json_space CHR '' ''" "is_json_space CHR 0x0A" "\<not> is_json_space CHR 0x22"
  "\<not> is_json_space CHR '',''" "\<not> is_json_space CHR '':''" "\<not> is_json_space CHR ''['' "
  "\<not> is_json_space CHR '']''" "\<not> is_json_space CHR ''{''" "\<not> is_json_space CHR ''}''"
  "\<not> is_json_space CHR ''t''" "\<not> is_json_space CHR ''f''"
  by (simp_all add: is_json_space_def)

lemma scan_value_space: "is_json_space c \<Longrightarrow> scan_value n (c # s) = scan_value n s"
  by (cases n) simp_all

lemma quote_append: "quote s @ r = CHR 0x22 # concat (map quote_char s) @ CHR 0x22 # r"
  by (simp add: quote_def)

lemma scan_value_string:
  "list_all json_safe s \<Longrightarrow> scan_value (Suc n) (quote s @ r) = Some (JStr s, r)"
  by (simp add: quote_append scan_string_quoted)

lemma scan_value_bool: "scan_value (Suc n) (show_bool b @ r) = Some (JBool b, r)"
  by (cases b) (simp_all add: show_bool_def literal_def)

lemma is_dec_digit_char: "d < 10 \<Longrightarrow> is_dec (digit_char d)"
  by (simp add: is_dec_def digit_char_def)

lemma nat_digits_dec: "\<forall>c\<in>set (nat_digits n). is_dec c"
  using nat_digits_digits is_dec_digit_char by blast

lemma scan_integer_digits:
  assumes "\<not> is_dec c"
  shows "scan_integer (nat_digits n @ c # r) = Some (nat_digits n, c # r)"
proof (cases "n = 0")
  case True
  have "digit_char 0 = CHR ''0''" by (rule char_of_code) (simp add: digit_char_def)
  then have "nat_digits 0 = [CHR ''0'']" by (subst nat_digits.simps) simp
  with True show ?thesis by (simp add: scan_integer_def)
next
  case False
  have "takeWhile is_dec (nat_digits n @ c # r) = nat_digits n"
    "dropWhile is_dec (nat_digits n @ c # r) = c # r"
    using nat_digits_dec [of n] assms by (simp_all add: takeWhile_append2 dropWhile_append2)
  then have "scan_digits (nat_digits n @ c # r) = Some (nat_digits n, c # r)"
    by (simp add: scan_digits_def)
  moreover obtain d ds where d: "nat_digits n = d # ds" by (meson list.exhaust nat_digits_nonempty)
  moreover have "d \<noteq> CHR ''0''" using nat_digits_hd [OF False] d by simp
  ultimately show ?thesis by (simp add: scan_integer_def)
qed

lemma scan_number_Itoa:
  assumes "c = CHR '','' \<or> c = CHR ''}''"
  shows "scan_number (Itoa i @ c # r) = Some (Itoa i, c # r)"
proof -
  have c: "\<not> is_dec c" "scan_fraction (c # r) = Some ([], c # r)" "scan_exponent (c # r) = Some ([], c # r)"
    using assms by (auto simp: is_dec_def scan_fraction_def scan_exponent_def)
  show ?thesis
  proof (cases "i < 0")
    case True
    with c show ?thesis by (simp add: scan_number_def Itoa_def scan_integer_digits)
  next
    case False
    obtain d ds where ds: "nat_digits (nat i) = d # ds" by (meson list.exhaust nat_digits_nonempty)
    with nat_digits_dec [of "nat i"] have "d \<noteq> CHR ''-''" by (auto simp: is_dec_def)
    with False c scan_integer_digits [OF c(1), of "nat i" r] show ?thesis
      by (simp add: scan_number_def Itoa_def ds)
  qed
qed

lemma scan_value_number:
  assumes "c = CHR '','' \<or> c = CHR ''}''"
  shows "scan_value (Suc n) (Itoa i @ c # r) = Some (JNum (Itoa i), c # r)"
proof -
  obtain d ds where ds: "Itoa i = d # ds" by (cases "Itoa i") (auto simp: Itoa_def nat_digits_nonempty split: if_splits)
  have "is_dec d \<or> d = CHR ''-''"
    using ds nat_digits_dec [of "nat i"] by (auto simp: Itoa_def split: if_splits)
  then have "\<not> is_json_space d" "d \<noteq> CHR 0x22" "d \<noteq> CHR ''[''" "d \<noteq> CHR ''{''" "d \<noteq> CHR ''t''"
    "d \<noteq> CHR ''f''" "d \<noteq> CHR ''n''" by (auto simp: is_dec_def is_json_space_def)
  with scan_number_Itoa [OF assms, of i r] show ?thesis by (simp add: ds)
qed

text \<open>A member that is followed by another one, and the last member.\<close>

lemma scan_members_more:
  assumes "list_all json_safe k" and "scan_value n v = Some (j, CHR '','' # r)"
  shows "scan_members (Suc n) (quote k @ '': '' @ v) =
    map_option (\<lambda>(ms, t). ((k, j) # ms, t)) (scan_members n r)"
  using assms by (simp add: quote_append scan_string_quoted scan_value_space)

lemma scan_members_last:
  assumes "list_all json_safe k" and "scan_value n v = Some (j, q)" and "skip_space q = CHR ''}'' # r"
  shows "scan_members (Suc n) (quote k @ '': '' @ v) = Some ([(k, j)], r)"
  using assms by (simp add: quote_append scan_string_quoted scan_value_space)

lemma scan_members_space: "is_json_space c \<Longrightarrow> scan_members n (c # s) = scan_members n s"
  by (cases n) simp_all

lemma scan_value_object:
  "scan_value (Suc n) (CHR ''{'' # quote k @ r) =
     map_option (\<lambda>(ms, t). (JObj ms, t)) (scan_members n (quote k @ r))"
  by (simp add: quote_append)

lemma scan_value_block:
  "scan_value (Suc n) (CHR ''{'' # CHR 0x0A # CHR '' '' # CHR '' '' # quote k @ r) =
     map_option (\<lambda>(ms, t). (JObj ms, t)) (scan_members n (quote k @ r))"
  by (simp add: quote_append scan_members_space del: scan_members.simps)

section \<open>Text that is refused\<close>

lemma scan_string_bad_escape:
  "unescape e = None \<Longrightarrow> e \<noteq> CHR ''u'' \<Longrightarrow> scan_string (CHR 0x5C # e # r) = None"
  by (subst scan_string.simps) simp

lemma scan_string_unsafe:
  assumes "\<not> json_safe c"
  shows "scan_string (quote_char c @ r) = None"
proof -
  let ?n = "of_char c :: nat"
  have "?n < 32 \<and> ?n \<notin> {8, 9, 10, 12, 13} \<or> ?n = 127"
    using assms unfolding json_safe_def Let_def by auto
  then have "\<exists>e t. quote_char c = CHR 0x5C # e # t \<and> e \<in> {CHR ''a'', CHR ''v'', CHR ''x''}"
    by (auto simp: quote_char_def Let_def)
  then show ?thesis by (auto simp: unescape_def intro!: scan_string_bad_escape)
qed

lemma scan_string_exact:
  "scan_string (concat (map quote_char s) @ CHR 0x22 # r) =
     (if list_all json_safe s then Some (map Raw s, r) else None)"
proof (induction s)
  case (Cons c s)
  then show ?case by (cases "json_safe c") (simp_all add: scan_string_char scan_string_unsafe)
qed (simp add: scan_string_close)

lemma scan_value_string_exact:
  "scan_value (Suc n) (quote s @ r) = (if list_all json_safe s then Some (JStr s, r) else None)"
  by (simp add: quote_append scan_string_exact)

text \<open>Members and objects, for values that are read back under a condition.\<close>

lemma scan_members_more_if:
  assumes "list_all json_safe k" and "scan_value n v = (if P then Some (j, CHR '','' # r) else None)"
    and "scan_members n r = (if Q then Some (ms, t) else None)"
  shows "scan_members (Suc n) (quote k @ '': '' @ v) = (if P \<and> Q then Some ((k, j) # ms, t) else None)"
  using assms by (simp add: quote_append scan_string_quoted scan_value_space)

lemma scan_members_last_if:
  assumes "list_all json_safe k" and "scan_value n v = (if P then Some (j, q) else None)"
    and "skip_space q = CHR ''}'' # r"
  shows "scan_members (Suc n) (quote k @ '': '' @ v) = (if P then Some ([(k, j)], r) else None)"
  using assms by (simp add: quote_append scan_string_quoted scan_value_space)

section \<open>Arrays with a line for each element\<close>

fun array_lines :: "('a \<Rightarrow> string) \<Rightarrow> 'a list \<Rightarrow> string" where
  "array_lines f [] = []"
| "array_lines f (x # xs) = f x @ (if xs = [] then [] else '','') @ [CHR 0x0A] @ array_lines f xs"

lemma scan_value_newline: "scan_value n (CHR 0x0A # s) = scan_value n s"
  by (rule scan_value_space) simp

lemma scan_elements_newline: "scan_elements n (CHR 0x0A # s) = scan_elements n s"
  by (cases n) (simp_all add: scan_value_newline del: scan_value.simps)

lemma scan_array_lines:
  assumes "\<And>x n r. x \<in> set xs \<Longrightarrow> scan_value (k + n) (f x @ r) = (if P x then Some (g x, r) else None)"
    and "xs \<noteq> []"
  shows "scan_elements (length xs + k + n) (array_lines f xs @ ''  ]'' @ r) =
    (if list_all P xs then Some (map g xs, r) else None)"
  using assms
proof (induction xs)
  case (Cons x xs)
  have v: "scan_value (length xs + k + n) (f x @ q) = (if P x then Some (g x, q) else None)" for q
    using Cons.prems(1) [of x "length xs + n" q] by (simp add: add.left_commute add.commute)
  have fuel: "length (x # xs) + k + n = Suc (length xs + k + n)" by simp
  show ?case
  proof (cases "xs = []")
    case True
    then show ?thesis unfolding fuel using v by (simp del: scan_value.simps)
  next
    case False
    then have "scan_elements (length xs + k + n) (array_lines f xs @ ''  ]'' @ r) =
        (if list_all P xs then Some (map g xs, r) else None)"
      using Cons.IH Cons.prems(1) by simp
    then show ?thesis
      unfolding fuel using False v by (simp add: scan_elements_newline del: scan_value.simps)
  qed
qed simp

lemma scan_value_lines:
  assumes "\<And>x n r. x \<in> set xs \<Longrightarrow> scan_value (k + n) (f x @ r) = (if P x then Some (g x, r) else None)"
    and "\<And>x r. x \<in> set xs \<Longrightarrow> \<not> HasPrefix (skip_space (f x @ r)) '']''"
  shows "scan_value (Suc (length xs + k + n)) (''['' @ CHR 0x0A # array_lines f xs @ ''  ]'' @ r) =
    (if list_all P xs then Some (JArr (map g xs), r) else None)"
proof (cases xs)
  case (Cons y ys)
  then have ne: "\<not> HasPrefix (skip_space (CHR 0x0A # array_lines f xs @ ''  ]'' @ r)) '']''"
    using assms(2) [of y] by simp
  have "xs \<noteq> []" using Cons by simp
  with assms(1) have "scan_elements (length xs + k + n) (CHR 0x0A # array_lines f xs @ ''  ]'' @ r) =
      (if list_all P xs then Some (map g xs, r) else None)"
    unfolding scan_elements_newline by (intro scan_array_lines)
  with ne show ?thesis by (simp del: scan_elements.simps)
qed simp

end
