(* ===== verification/Supervisor.thy ===== *)
theory Supervisor
  imports Discovery
begin

text \<open>
  The retry handler supervisor (\<open>pkg/retryhandler/supervisor.go\<close>): one goroutine per device that
  keeps \<open>cxi_rh\<close> running with an exponential back-off, and \<open>Stop\<close>, which closes the stop channel,
  cancels every handler and waits. The goroutines are a step relation at the granularity of the
  mutexes and channel operations of the source, so that every interleaving is covered; a step is
  labelled by who moves, the supervisor itself or the child process. Times are nanoseconds.
\<close>

section \<open>Handlers\<close>

abbreviation restartBackoffMin :: int where "restartBackoffMin \<equiv> 1000000000"
abbreviation restartBackoffMax :: int where "restartBackoffMax \<equiv> 60000000000"

definition next_backoff :: "int \<Rightarrow> int" where
  "next_backoff b = (if restartBackoffMax < b * 2 then restartBackoffMax else b * 2)"

text \<open>
  Where the goroutine of a handler is: at the first test of the stop channel, before it creates
  and stores the context of the run, in \<open>runCXIRH\<close> (before the start, before \<open>running\<close> is set,
  waiting for the process), before it records the outcome, at the second test, in the wait.
\<close>

datatype pc =
    AtCheck | AtNewContext | AtLaunch | AtMarkRunning | AtWait | AtRecord "string option"
  | AtCheckAgain | AtBackoff | Exited

record handler =
  h_device :: string
  h_cancel_set :: bool
  h_ctx_cancelled :: bool
  h_restarts :: int
  h_error :: string
  h_running :: bool
  h_pid :: int
  h_pc :: pc
  h_backoff :: int

definition new_handler :: "string \<Rightarrow> handler" where
  "new_handler d =
     \<lparr>h_device = d, h_cancel_set = False, h_ctx_cancelled = False, h_restarts = 0, h_error = '''',
      h_running = False, h_pid = 0, h_pc = AtCheck, h_backoff = restartBackoffMin\<rparr>"

datatype mover = Own | Process

definition record_outcome :: "handler \<Rightarrow> string option \<Rightarrow> handler" where
  "record_outcome h r =
     (case r of
        None \<Rightarrow> h\<lparr>h_running := False, h_pc := AtCheckAgain\<rparr>
      | Some e \<Rightarrow> h\<lparr>h_running := False, h_error := e, h_restarts := h_restarts h + 1,
                    h_pc := AtCheckAgain\<rparr>)"

text \<open>
  One step of a handler; the boolean says whether the stop channel is closed. A context that is
  cancelled before the start makes the start fail; afterwards it kills the process. The identifier
  of the process, the texts of errors and the path in them are whatever the system gives.
\<close>

inductive hstep :: "mover \<Rightarrow> bool \<Rightarrow> handler \<Rightarrow> handler \<Rightarrow> bool" where
  check_stop: "h_pc h = AtCheck \<Longrightarrow> hstep Own True h (h\<lparr>h_pc := Exited\<rparr>)"
| check_go: "h_pc h = AtCheck \<Longrightarrow> hstep Own False h (h\<lparr>h_pc := AtNewContext\<rparr>)"
| new_context: "h_pc h = AtNewContext \<Longrightarrow>
    hstep Own stop h (h\<lparr>h_cancel_set := True, h_ctx_cancelled := False, h_pc := AtLaunch\<rparr>)"
| no_binary: "h_pc h = AtLaunch \<Longrightarrow>
    hstep Own stop h (h\<lparr>h_pc := AtRecord (Some (''cxi_rh binary not found at '' @ path))\<rparr>)"
| start_failed: "h_pc h = AtLaunch \<Longrightarrow>
    hstep Own stop h (h\<lparr>h_pid := 0, h_pc := AtRecord (Some (''failed to start cxi_rh: '' @ e))\<rparr>)"
| start_ok: "h_pc h = AtLaunch \<Longrightarrow> \<not> h_ctx_cancelled h \<Longrightarrow>
    hstep Own stop h (h\<lparr>h_pid := pid, h_pc := AtMarkRunning\<rparr>)"
| mark_running: "h_pc h = AtMarkRunning \<Longrightarrow>
    hstep Own stop h (h\<lparr>h_running := True, h_pc := AtWait\<rparr>)"
| killed: "h_pc h = AtWait \<Longrightarrow> h_ctx_cancelled h \<Longrightarrow>
    hstep Own stop h (h\<lparr>h_pc := AtRecord (Some ''signal: killed'')\<rparr>)"
| process_exits: "h_pc h = AtWait \<Longrightarrow> hstep Process stop h (h\<lparr>h_pc := AtRecord r\<rparr>)"
| record_it: "h_pc h = AtRecord r \<Longrightarrow> hstep Own stop h (record_outcome h r)"
| check_again_stop: "h_pc h = AtCheckAgain \<Longrightarrow>
    hstep Own True h (h\<lparr>h_ctx_cancelled := True, h_pc := Exited\<rparr>)"
| check_again_go: "h_pc h = AtCheckAgain \<Longrightarrow> hstep Own False h (h\<lparr>h_pc := AtBackoff\<rparr>)"
| backoff_stop: "h_pc h = AtBackoff \<Longrightarrow>
    hstep Own True h (h\<lparr>h_ctx_cancelled := True, h_pc := Exited\<rparr>)"
| backoff_over: "h_pc h = AtBackoff \<Longrightarrow>
    hstep Own stop h (h\<lparr>h_backoff := next_backoff (h_backoff h), h_pc := AtCheck\<rparr>)"

inductive_cases hstepE: "hstep m stop h h'"

section \<open>The supervisor\<close>

datatype stop_pc = NotStopping | Cancelling "string list" | Waiting | Stopped

record supervisor =
  su_path :: string
  su_port :: int
  su_stop :: bool
  su_stopper :: stop_pc
  su_handlers :: "(string \<times> handler) list"
  su_health_server :: bool

abbreviation defaultCXIRHPath :: string where "defaultCXIRHPath \<equiv> ''/usr/bin/cxi_rh''"
abbreviation defaultHealthPort :: int where "defaultHealthPort \<equiv> 8080"

definition NewSupervisor :: "string \<Rightarrow> int \<Rightarrow> supervisor" where
  "NewSupervisor path port =
     \<lparr>su_path = (if path = '''' then defaultCXIRHPath else path),
      su_port = (if port = 0 then defaultHealthPort else port),
      su_stop = False, su_stopper = NotStopping, su_handlers = [], su_health_server = False\<rparr>"

definition startHandler :: "supervisor \<Rightarrow> string \<Rightarrow> supervisor" where
  "startHandler s d =
     (if d \<in> fst ` set (su_handlers s) then s
      else s\<lparr>su_handlers := su_handlers s @ [(d, new_handler d)]\<rparr>)"

definition Start_supervisor :: "string + CXIDevice list \<Rightarrow> supervisor \<Rightarrow> supervisor \<times> string option" where
  "Start_supervisor r s =
     (case r of
        Inl e \<Rightarrow> (s, Some (''failed to discover devices: '' @ e))
      | Inr devs \<Rightarrow>
          if devs = [] then (s, None)
          else ((foldl startHandler s (map cd_name devs))\<lparr>su_health_server := True\<rparr>, None))"

fun update_handler :: "(string \<times> handler) list \<Rightarrow> string \<Rightarrow> handler \<Rightarrow> (string \<times> handler) list" where
  "update_handler [] d h = []"
| "update_handler (x # hs) d h = (if fst x = d then (d, h) # hs else x # update_handler hs d h)"

definition cancel_handler :: "handler \<Rightarrow> handler" where
  "cancel_handler h = (if h_cancel_set h then h\<lparr>h_ctx_cancelled := True\<rparr> else h)"

inductive sup_step :: "mover \<Rightarrow> supervisor \<Rightarrow> supervisor \<Rightarrow> bool" where
  handler_moves: "map_of (su_handlers s) d = Some h \<Longrightarrow> hstep m (su_stop s) h h' \<Longrightarrow>
    sup_step m s (s\<lparr>su_handlers := update_handler (su_handlers s) d h'\<rparr>)"
| stop_called: "su_stopper s = NotStopping \<Longrightarrow>
    sup_step Own s (s\<lparr>su_stop := True, su_stopper := Cancelling (map fst (su_handlers s))\<rparr>)"
| stop_cancels: "su_stopper s = Cancelling (d # ds) \<Longrightarrow> map_of (su_handlers s) d = Some h \<Longrightarrow>
    sup_step Own s (s\<lparr>su_stopper := Cancelling ds,
      su_handlers := update_handler (su_handlers s) d (cancel_handler h)\<rparr>)"
| stop_waits: "su_stopper s = Cancelling [] \<Longrightarrow> sup_step Own s (s\<lparr>su_stopper := Waiting\<rparr>)"
| stop_returns: "su_stopper s = Waiting \<Longrightarrow> \<forall>h \<in> snd ` set (su_handlers s). h_pc h = Exited \<Longrightarrow>
    sup_step Own s (s\<lparr>su_stopper := Stopped\<rparr>)"

inductive_cases sup_stepE: "sup_step m s s'"

text \<open>The states a supervisor started on these devices can reach.\<close>

inductive sup_reach :: "CXIDevice list \<Rightarrow> supervisor \<Rightarrow> bool" for devs where
  reach_start: "sup_reach devs (fst (Start_supervisor (Inr devs) (NewSupervisor path port)))"
| reach_step: "sup_reach devs s \<Longrightarrow> sup_step m s s' \<Longrightarrow> sup_reach devs s'"

section \<open>Status\<close>

record HandlerStatus =
  hs_device :: string
  hs_running :: bool
  hs_pid :: int
  hs_restarts :: int
  hs_error :: string

definition GetStatus :: "supervisor \<Rightarrow> HandlerStatus list" where
  "GetStatus s =
     map (\<lambda>(d, h). \<lparr>hs_device = h_device h, hs_running = h_running h, hs_pid = h_pid h, hs_restarts = h_restarts h,
                    hs_error = h_error h\<rparr>) (su_handlers s)"

definition IsHealthy :: "supervisor \<Rightarrow> bool" where
  "IsHealthy s \<longleftrightarrow> list_all (\<lambda>(d, h). h_running h) (su_handlers s)"

definition supervisor_healthz :: "supervisor \<Rightarrow> int" where
  "supervisor_healthz s = (if IsHealthy s then 200 else 503)"

section \<open>Handlers one at a time\<close>

text \<open>An invariant of single handlers holds of all handlers in every reachable state.\<close>

lemma update_handler_set:
  "(d', x) \<in> set (update_handler hs d h) \<Longrightarrow> (d', x) \<in> set hs \<or> (d' = d \<and> x = h)"
  by (induction hs d h rule: update_handler.induct) (auto split: if_splits)

lemma update_handler_keys [simp]: "map fst (update_handler hs d h) = map fst hs"
  by (induction hs d h rule: update_handler.induct) auto

lemma map_of_update_handler:
  "map_of (update_handler hs d h) d' = (if d' = d \<and> d \<in> fst ` set hs then Some h else map_of hs d')"
proof (induction hs d h rule: update_handler.induct)
  case (2 x hs d h)
  then show ?case by (cases x) (force split: if_splits)
qed simp

definition keys_from :: "string set \<Rightarrow> supervisor \<Rightarrow> supervisor \<Rightarrow> bool" where
  "keys_from ks s s' \<longleftrightarrow>
     fst ` set (su_handlers s') = fst ` set (su_handlers s) \<union> ks \<and>
     (distinct (map fst (su_handlers s)) \<longrightarrow> distinct (map fst (su_handlers s'))) \<and>
     (\<forall>d h. (d, h) \<in> set (su_handlers s') \<longrightarrow> (d, h) \<in> set (su_handlers s) \<or> h = new_handler d) \<and>
     su_stop s' = su_stop s \<and> su_stopper s' = su_stopper s"

lemma keys_from_step: "keys_from {d} s (startHandler s d)"
  by (auto simp: keys_from_def startHandler_def image_iff)

lemma keys_from_trans: "keys_from ks a b \<Longrightarrow> keys_from ks' b c \<Longrightarrow> keys_from (ks \<union> ks') a c"
proof -
  assume a: "keys_from ks a b" and b: "keys_from ks' b c"
  show ?thesis
    unfolding keys_from_def
  proof (intro conjI)
    show "fst ` set (su_handlers c) = fst ` set (su_handlers a) \<union> (ks \<union> ks')"
      using a b by (simp add: keys_from_def Un_assoc)
    show "\<forall>d h. (d, h) \<in> set (su_handlers c) \<longrightarrow> (d, h) \<in> set (su_handlers a) \<or> h = new_handler d"
      using a b unfolding keys_from_def by blast
  qed (use a b in \<open>simp_all add: keys_from_def\<close>)
qed

lemma keys_from_foldl: "keys_from (set ds) s (foldl startHandler s ds)"
proof (induction ds arbitrary: s)
  case (Cons d ds)
  from keys_from_trans [OF keys_from_step Cons] show ?case by simp
qed (simp add: keys_from_def)

lemma Start_handlers:
  assumes "s = fst (Start_supervisor (Inr devs) (NewSupervisor path port))"
  shows "fst ` set (su_handlers s) = cd_name ` set devs" "distinct (map fst (su_handlers s))"
    and "(d, h) \<in> set (su_handlers s) \<Longrightarrow> h = new_handler d"
    and "su_stop s = False" and "su_stopper s = NotStopping"
proof -
  have "keys_from (cd_name ` set devs) (NewSupervisor path port) s"
  proof (cases "devs = []")
    case False
    then have "su_handlers s = su_handlers (foldl startHandler (NewSupervisor path port) (map cd_name devs)) \<and>
        su_stop s = su_stop (foldl startHandler (NewSupervisor path port) (map cd_name devs)) \<and>
        su_stopper s = su_stopper (foldl startHandler (NewSupervisor path port) (map cd_name devs))"
      using assms by (simp add: Start_supervisor_def)
    with keys_from_foldl [of "map cd_name devs" "NewSupervisor path port"] show ?thesis
      by (simp add: keys_from_def)
  qed (use assms in \<open>simp add: Start_supervisor_def keys_from_def\<close>)
  then show "fst ` set (su_handlers s) = cd_name ` set devs" "distinct (map fst (su_handlers s))"
    "(d, h) \<in> set (su_handlers s) \<Longrightarrow> h = new_handler d"
    "su_stop s = False" "su_stopper s = NotStopping"
    by (simp_all add: keys_from_def NewSupervisor_def)
qed

lemma sup_reach_handlers:
  assumes "sup_reach devs s" and "(d, h) \<in> set (su_handlers s)"
    and init: "\<And>d. P d (new_handler d)"
    and step: "\<And>d m stop h h'. P d h \<Longrightarrow> hstep m stop h h' \<Longrightarrow> P d h'"
    and cancel: "\<And>d h. P d h \<Longrightarrow> P d (cancel_handler h)"
  shows "P d h"
  using assms(1,2)
proof (induction arbitrary: d h rule: sup_reach.induct)
  case reach_start
  then have "h = new_handler d" by (rule Start_handlers(3) [OF refl])
  then show ?case using init by simp
next
  case (reach_step s m s')
  from reach_step.hyps(2) show ?case
  proof cases
    case (handler_moves d1 h1 h1')
    then have "P d1 h1'" using reach_step.IH step map_of_SomeD by metis
    with handler_moves reach_step.prems reach_step.IH show ?thesis
      by (auto dest: update_handler_set)
  next
    case (stop_cancels d1 ds h1)
    then have "P d1 (cancel_handler h1)" using reach_step.IH cancel map_of_SomeD by metis
    with stop_cancels reach_step.prems reach_step.IH show ?thesis
      by (auto dest: update_handler_set)
  qed (use reach_step in auto)
qed

lemma sup_reach_keys:
  assumes "sup_reach devs s"
  shows "fst ` set (su_handlers s) = cd_name ` set devs \<and> distinct (map fst (su_handlers s))"
  using assms
proof (induction rule: sup_reach.induct)
  case reach_start
  show ?case using Start_handlers(1,2) [OF refl] by auto
next
  case (reach_step s m s')
  have "map fst (su_handlers s') = map fst (su_handlers s)"
    using reach_step.hyps(2) by cases auto
  then show ?case using reach_step.IH by (metis list.set_map)
qed

lemma sup_reach_device:
  assumes "sup_reach devs s" and "(d, h) \<in> set (su_handlers s)"
  shows "h_device h = d"
  by (rule sup_reach_handlers [OF assms, of "\<lambda>d h. h_device h = d"])
    (auto simp: new_handler_def cancel_handler_def record_outcome_def elim!: hstep.cases split: option.splits)

section \<open>Back-off and restart counts\<close>

text \<open>
  The handlers that can come about, with the number of waits completed and of runs that ended
  with an error so far.
\<close>

inductive h_after :: "nat \<Rightarrow> nat \<Rightarrow> handler \<Rightarrow> bool" where
  after_start: "h_after 0 0 (new_handler d)"
| after_step: "h_after k f h \<Longrightarrow> hstep m stop h h' \<Longrightarrow>
    h_after (if h_pc h = AtBackoff \<and> h_pc h' = AtCheck then Suc k else k)
      (if \<exists>e. h_pc h = AtRecord (Some e) then Suc f else f) h'"
| after_cancel: "h_after k f h \<Longrightarrow> h_after k f (cancel_handler h)"

lemma next_backoff_min:
  "next_backoff (min (2 ^ k * restartBackoffMin) restartBackoffMax) =
     min (2 ^ Suc k * restartBackoffMin) restartBackoffMax"
  by (auto simp: next_backoff_def min_def)

lemma cancel_handler_sel [simp]:
  "h_pc (cancel_handler h) = h_pc h" "h_running (cancel_handler h) = h_running h"
  "h_backoff (cancel_handler h) = h_backoff h" "h_restarts (cancel_handler h) = h_restarts h"
  by (simp_all add: cancel_handler_def)

lemma record_outcome_sel [simp]:
  "h_pc (record_outcome h r) = AtCheckAgain" "\<not> h_running (record_outcome h r)"
  "h_backoff (record_outcome h r) = h_backoff h"
  "h_restarts (record_outcome h r) = h_restarts h + (if r = None then 0 else 1)"
  by (auto simp: record_outcome_def split: option.splits)

text \<open>Every handler of a reachable supervisor is one of these.\<close>

lemma sup_reach_after:
  assumes "sup_reach devs s" and "(d, h) \<in> set (su_handlers s)"
  shows "\<exists>k f. h_after k f h"
  by (rule sup_reach_handlers [OF assms, of "\<lambda>d h. \<exists>k f. h_after k f h"])
    (blast intro: h_after.intros)+

text \<open>
  C22: The back-off and the counter are exact. After \<open>k\<close> waits the next wait is \<open>2^k\<close> seconds, at
  most 60; it never shrinks again, however long a process ran in between. The restart counter is
  the number of runs that ended with an error, a start that failed included.
\<close>

theorem backoff_and_restarts_exact:
  assumes "h_after k f h"
  shows "h_backoff h = min (2 ^ k * restartBackoffMin) restartBackoffMax \<and> h_restarts h = int f"
  using assms
proof (induction rule: h_after.induct)
  case (after_start d)
  then show ?case by (simp add: new_handler_def)
next
  case (after_step k f h m stop h')
  from after_step.hyps(2) show ?case
  proof cases
    case backoff_over
    then show ?thesis
      using after_step.IH next_backoff_min [of k] by simp
  next
    case (record_it r)
    then show ?thesis using after_step.IH by (cases r) simp_all
  qed (use after_step.IH in auto)
qed simp

theorem backoff_and_restarts_exact_witness:
  "h_backoff ((new_handler ''cxi0'')\<lparr>h_pc := AtNewContext\<rparr>) = 1000000000"
proof -
  have "hstep Own False (new_handler ''cxi0'') ((new_handler ''cxi0'')\<lparr>h_pc := AtNewContext\<rparr>)"
    by (rule check_go) (simp add: new_handler_def)
  from after_step [OF after_start this]
  have "h_after 0 0 ((new_handler ''cxi0'')\<lparr>h_pc := AtNewContext\<rparr>)"
    by (simp add: new_handler_def)
  from backoff_and_restarts_exact [OF this] show ?thesis by simp
qed

section \<open>Health\<close>

lemma running_inv:
  assumes "sup_reach devs s" and "(d, h) \<in> set (su_handlers s)"
  shows "(h_pc h = AtWait \<longrightarrow> h_running h) \<and>
    (h_running h \<longrightarrow> h_pc h = AtWait \<or> (\<exists>r. h_pc h = AtRecord r))"
  by (rule sup_reach_handlers [OF assms, of "\<lambda>d h. (h_pc h = AtWait \<longrightarrow> h_running h) \<and>
      (h_running h \<longrightarrow> h_pc h = AtWait \<or> (\<exists>r. h_pc h = AtRecord r))"])
    (auto simp: new_handler_def elim!: hstep.cases)

text \<open>
  C23: The health report is accurate. In every reachable state there is exactly one handler per
  discovered device; if all of them wait for a started process the supervisor is healthy, and it
  is healthy only if every device has a process that was started and whose exit has not been
  recorded yet.
\<close>

theorem healthz_is_accurate:
  assumes "sup_reach devs s"
  shows "fst ` set (su_handlers s) = cd_name ` set devs \<and> distinct (map fst (su_handlers s)) \<and>
    ((\<forall>h \<in> snd ` set (su_handlers s). h_pc h = AtWait) \<longrightarrow> supervisor_healthz s = 200) \<and>
    (supervisor_healthz s = 200 \<longrightarrow>
       (\<forall>h \<in> snd ` set (su_handlers s). h_pc h = AtWait \<or> (\<exists>r. h_pc h = AtRecord r)))"
proof (intro conjI impI)
  have healthy: "supervisor_healthz s = 200 \<longleftrightarrow> (\<forall>x \<in> set (su_handlers s). h_running (snd x))"
    by (simp add: supervisor_healthz_def IsHealthy_def list_all_iff case_prod_beta)
  show "fst ` set (su_handlers s) = cd_name ` set devs" "distinct (map fst (su_handlers s))"
    using sup_reach_keys [OF assms] by blast+
  show "supervisor_healthz s = 200" if "\<forall>h \<in> snd ` set (su_handlers s). h_pc h = AtWait"
    unfolding healthy using that running_inv [OF assms] by (metis image_eqI prod.collapse)
  show "\<forall>h \<in> snd ` set (su_handlers s). h_pc h = AtWait \<or> (\<exists>r. h_pc h = AtRecord r)"
    if "supervisor_healthz s = 200"
    using that running_inv [OF assms] unfolding healthy by fastforce
qed

theorem healthz_is_accurate_witness:
  "fst ` set (su_handlers (fst (Start_supervisor (Inr [\<lparr>cd_name = ''cxi0'', cd_path = '''', cd_pci = '''',
     cd_numa = 0, cd_nid = 1, cd_link = ''1''\<rparr>]) (NewSupervisor ''/usr/bin/cxi_rh'' 8080)))) = {''cxi0''}"
  using healthz_is_accurate [OF reach_start, of "[\<lparr>cd_name = ''cxi0'', cd_path = '''', cd_pci = '''',
     cd_numa = 0, cd_nid = 1, cd_link = ''1''\<rparr>]"] by simp

section \<open>Stopping\<close>

text \<open>How far a handler is from its exit once the stop channel is closed.\<close>

fun stop_rank :: "pc \<Rightarrow> nat" where
  "stop_rank Exited = 0"
| "stop_rank AtCheck = 1"
| "stop_rank AtBackoff = 2"
| "stop_rank AtCheckAgain = 3"
| "stop_rank (AtRecord r) = 4"
| "stop_rank AtWait = 5"
| "stop_rank AtMarkRunning = 6"
| "stop_rank AtLaunch = 7"
| "stop_rank AtNewContext = 8"

lemma stop_rank_decreases: "hstep m True h h' \<Longrightarrow> stop_rank (h_pc h') < stop_rank (h_pc h)"
  by (erule hstep.cases) auto

lemma stop_rank_bound: "stop_rank p \<le> 8"
  by (cases p) auto

lemma own_step_enabled:
  assumes "h_pc h \<noteq> Exited" and "h_pc h \<noteq> AtWait \<or> h_ctx_cancelled h"
  shows "\<exists>h'. hstep Own True h h'"
proof (cases "h_pc h")
  case AtCheck
  then show ?thesis by (intro exI) (rule check_stop)
next
  case AtNewContext
  then show ?thesis by (intro exI) (rule new_context)
next
  case AtLaunch
  then show ?thesis by (intro exI) (rule no_binary)
next
  case AtMarkRunning
  then show ?thesis by (intro exI) (rule mark_running)
next
  case AtWait
  then have "h_ctx_cancelled h" using assms(2) by simp
  with AtWait show ?thesis by (intro exI) (rule killed)
next
  case (AtRecord r)
  then show ?thesis by (intro exI) (rule record_it)
next
  case AtCheckAgain
  then show ?thesis by (intro exI) (rule check_again_stop)
next
  case AtBackoff
  then show ?thesis by (intro exI) (rule backoff_stop)
qed (use assms in simp)

text \<open>
  C24: Stopping is bounded but for one wait. Once the stop channel is closed a handler makes at most
  eight more steps, whoever moves, so it starts \<open>cxi_rh\<close> at most once more; and unless it has
  exited the supervisor itself can always make the next one, except where the handler waits for
  a process whose context is not cancelled.
\<close>

theorem stop_is_bounded:
  assumes "((\<lambda>a b. \<exists>m. hstep m True a b) ^^ n) h h'"
  shows "n \<le> 8 \<and>
    (h_pc h' = Exited \<or> (\<exists>h''. hstep Own True h' h'') \<or> (h_pc h' = AtWait \<and> \<not> h_ctx_cancelled h'))"
proof -
  have "n + stop_rank (h_pc h') \<le> stop_rank (h_pc h)"
    using assms
  proof (induction n arbitrary: h')
    case (Suc n)
    then obtain b m where "((\<lambda>a b. \<exists>m. hstep m True a b) ^^ n) h b" "hstep m True b h'" by auto
    with Suc.IH [of b] stop_rank_decreases show ?case by fastforce
  qed simp
  with stop_rank_bound [of "h_pc h"] have "n \<le> 8" by linarith
  with own_step_enabled show ?thesis by blast
qed

theorem stop_is_bounded_witness:
  "h_pc ((new_handler ''cxi0'')\<lparr>h_pc := Exited\<rparr>) = Exited \<and> (1::nat) \<le> 8"
proof -
  have "hstep Own True (new_handler ''cxi0'') ((new_handler ''cxi0'')\<lparr>h_pc := Exited\<rparr>)"
    by (rule check_stop) (simp add: new_handler_def)
  then have "((\<lambda>a b. \<exists>m. hstep m True a b) ^^ 1) (new_handler ''cxi0'')
      ((new_handler ''cxi0'')\<lparr>h_pc := Exited\<rparr>)" by auto
  from stop_is_bounded [OF this] show ?thesis by simp
qed

text \<open>The unlucky run: \<open>Stop\<close> cancels between the first test and the new context.\<close>

definition hanging :: "CXIDevice \<Rightarrow> supervisor" where
  "hanging d =
     \<lparr>su_path = defaultCXIRHPath, su_port = defaultHealthPort, su_stop = True, su_stopper = Waiting,
      su_handlers = [(cd_name d, (new_handler (cd_name d))
        \<lparr>h_cancel_set := True, h_running := True, h_pc := AtWait\<rparr>)],
      su_health_server = True\<rparr>"

lemma one_handler_step:
  assumes "sup_reach devs s" and "su_handlers s = [(d, h)]" and "hstep m (su_stop s) h h'"
  shows "sup_reach devs (s\<lparr>su_handlers := [(d, h')]\<rparr>)"
  using reach_step [OF assms(1) handler_moves [of s d h m h']] assms(2,3) by simp

lemma hanging_reachable: "sup_reach [d] (hanging d)"
proof -
  let ?n = "cd_name d"
  let ?h = "new_handler ?n"
  define s0 where "s0 = fst (Start_supervisor (Inr [d]) (NewSupervisor '''' 0))"
  have s0: "s0 = \<lparr>su_path = defaultCXIRHPath, su_port = defaultHealthPort, su_stop = False, su_stopper = NotStopping, su_handlers = [(?n, ?h)], su_health_server = True\<rparr>"
    by (simp add: s0_def Start_supervisor_def startHandler_def NewSupervisor_def)
  have "sup_reach [d] s0" unfolding s0_def by (rule reach_start)
  moreover have "hstep Own False ?h (?h\<lparr>h_pc := AtNewContext\<rparr>)"
    by (rule check_go) (simp add: new_handler_def)
  ultimately have 1: "sup_reach [d] (s0\<lparr>su_handlers := [(?n, ?h\<lparr>h_pc := AtNewContext\<rparr>)]\<rparr>)"
    using one_handler_step [of "[d]" s0 ?n ?h Own "?h\<lparr>h_pc := AtNewContext\<rparr>"] by (simp add: s0)
  have "sup_reach [d] (s0\<lparr>su_handlers := [(?n, ?h\<lparr>h_pc := AtNewContext\<rparr>)], su_stop := True,
      su_stopper := Cancelling [?n]\<rparr>)"
    using reach_step [OF 1 stop_called] by (simp add: s0)
  from reach_step [OF this stop_cancels [of _ ?n "[]" "?h\<lparr>h_pc := AtNewContext\<rparr>"]]
  have "sup_reach [d] (s0\<lparr>su_handlers := [(?n, ?h\<lparr>h_pc := AtNewContext\<rparr>)], su_stop := True,
      su_stopper := Cancelling []\<rparr>)"
    by (simp add: s0 cancel_handler_def new_handler_def)
  from reach_step [OF this stop_waits]
  have 2: "sup_reach [d] (s0\<lparr>su_handlers := [(?n, ?h\<lparr>h_pc := AtNewContext\<rparr>)], su_stop := True,
      su_stopper := Waiting\<rparr>)" (is "sup_reach _ ?s2") by (simp add: s0)
  let ?h3 = "?h\<lparr>h_cancel_set := True, h_pc := AtLaunch\<rparr>"
  have "hstep Own True (?h\<lparr>h_pc := AtNewContext\<rparr>) ?h3"
    using new_context [of "?h\<lparr>h_pc := AtNewContext\<rparr>" True] by (simp add: new_handler_def)
  from one_handler_step [OF 2 _ , of ?n "?h\<lparr>h_pc := AtNewContext\<rparr>" Own ?h3] this
  have 3: "sup_reach [d] (?s2\<lparr>su_handlers := [(?n, ?h3)]\<rparr>)" by simp
  let ?h4 = "?h\<lparr>h_cancel_set := True, h_pc := AtMarkRunning\<rparr>"
  have "hstep Own True ?h3 ?h4" using start_ok [of ?h3 True 0] by (simp add: new_handler_def)
  from one_handler_step [OF 3 _, of ?n ?h3 Own ?h4] this
  have 4: "sup_reach [d] (?s2\<lparr>su_handlers := [(?n, ?h4)]\<rparr>)" by simp
  let ?h5 = "?h\<lparr>h_cancel_set := True, h_running := True, h_pc := AtWait\<rparr>"
  have "hstep Own True ?h4 ?h5" using mark_running [of ?h4 True] by (simp add: new_handler_def)
  from one_handler_step [OF 4 _, of ?n ?h4 Own ?h5] this
  have "sup_reach [d] (?s2\<lparr>su_handlers := [(?n, ?h5)]\<rparr>)" by simp
  then show ?thesis by (simp add: hanging_def s0)
qed

text \<open>
  C25: \<open>Stop\<close> can hang. From the start on any one device a state is reachable in which \<open>Stop\<close> has
  cancelled everything it knew of and waits, the handler has just started a new process under a
  context nobody will cancel, and no step is left but the process ending by itself.
\<close>

theorem stop_can_hang:
  "\<exists>s. sup_reach [d] s \<and> su_stopper s = Waiting \<and> supervisor_healthz s = 200 \<and>
     (\<forall>m s'. sup_step m s s' \<longrightarrow> m = Process)"
proof (intro exI conjI)
  show "sup_reach [d] (hanging d)" by (rule hanging_reachable)
  show "su_stopper (hanging d) = Waiting" "supervisor_healthz (hanging d) = 200"
    by (simp_all add: hanging_def supervisor_healthz_def IsHealthy_def)
  show "\<forall>m s'. sup_step m (hanging d) s' \<longrightarrow> m = Process"
    by (auto simp: hanging_def new_handler_def split: if_splits elim!: sup_step.cases hstep.cases)
qed

theorem stop_can_hang_witness:
  "\<exists>s. sup_reach [\<lparr>cd_name = ''cxi0'', cd_path = '''', cd_pci = '''', cd_numa = 0, cd_nid = 1, cd_link = ''1''\<rparr>] s \<and>
     su_stopper s = Waiting"
  using stop_can_hang [of "\<lparr>cd_name = ''cxi0'', cd_path = '''', cd_pci = '''', cd_numa = 0, cd_nid = 1, cd_link = ''1''\<rparr>"]
  by blast

end
