(* ===== verification/StatusWire.thy ===== *)
theory StatusWire
  imports JsonText Supervisor
begin

text \<open>
  The status document: what the retry handler's supervisor writes on \<open>/status\<close>
  (\<open>pkg/retryhandler/supervisor.go\<close>) and what the exporter's client makes of it
  (\<open>pkg/metrics/helpers.go\<close>). The two are written in different packages and share no type; the
  theorem of this theory says that they agree.
\<close>

section \<open>The status document\<close>

text \<open>The body the supervisor's \<open>/status\<close> handler writes.\<close>

definition status_entry :: "HandlerStatus \<Rightarrow> string" where
  "status_entry h =
     ''    {'' @ quote ''device'' @ '': '' @ quote (hs_device h) @ '', '' @
     quote ''running'' @ '': '' @ show_bool (hs_running h) @ '', '' @
     quote ''pid'' @ '': '' @ Itoa (hs_pid h) @ '', '' @
     quote ''restarts'' @ '': '' @ Itoa (hs_restarts h) @ ''}''"

fun status_entries :: "HandlerStatus list \<Rightarrow> string" where
  "status_entries [] = []"
| "status_entries (h # hs) =
     status_entry h @ (if hs = [] then [] else '','') @ [CHR 0x0A] @ status_entries hs"

definition status_body :: "HandlerStatus list \<Rightarrow> bool \<Rightarrow> string" where
  "status_body hs healthy =
     ''{'' @ [CHR 0x0A] @ ''  '' @ quote ''handlers'' @ '': ['' @ [CHR 0x0A] @ status_entries hs @
     ''  ],'' @ [CHR 0x0A] @ ''  '' @ quote ''healthy'' @ '': '' @ show_bool healthy @ [CHR 0x0A] @
     ''}'' @ [CHR 0x0A]"

section \<open>The client of the status endpoint\<close>

record RetryHandlerStatus =
  rs_device :: string
  rs_running :: bool
  rs_restarts :: int

text \<open>What a \<open>GET\<close> brings: no response, or a status code and a body.\<close>

datatype http_result = HttpFailed string | HttpResponse int string

record wire_handler =
  wh_device :: string
  wh_running :: bool
  wh_pid :: int
  wh_restarts :: int

definition store_field :: "wire_handler option \<Rightarrow> string \<times> json \<Rightarrow> wire_handler option" where
  "store_field w kv =
     (case w of None \<Rightarrow> None
      | Some h \<Rightarrow>
          if key_is (fst kv) ''device'' then map_option (\<lambda>x. h\<lparr>wh_device := x\<rparr>) (store_string (wh_device h) (snd kv))
          else if key_is (fst kv) ''running'' then map_option (\<lambda>x. h\<lparr>wh_running := x\<rparr>) (store_bool (wh_running h) (snd kv))
          else if key_is (fst kv) ''pid'' then map_option (\<lambda>x. h\<lparr>wh_pid := x\<rparr>) (store_int (wh_pid h) (snd kv))
          else if key_is (fst kv) ''restarts'' then map_option (\<lambda>x. h\<lparr>wh_restarts := x\<rparr>) (store_int (wh_restarts h) (snd kv))
          else Some h)"

definition store_handler :: "json \<Rightarrow> wire_handler option" where
  "store_handler v =
     (let h0 = \<lparr>wh_device = '''', wh_running = False, wh_pid = 0, wh_restarts = 0\<rparr> in
      case v of JNull \<Rightarrow> Some h0 | JObj kvs \<Rightarrow> foldl store_field (Some h0) kvs | _ \<Rightarrow> None)"

text \<open>The response: the handlers and the health flag. A repeated key overwrites.\<close>

definition store_response ::
  "(wire_handler list \<times> bool) option \<Rightarrow> string \<times> json \<Rightarrow> (wire_handler list \<times> bool) option" where
  "store_response w kv =
     (case w of None \<Rightarrow> None
      | Some (hs, healthy) \<Rightarrow>
          if key_is (fst kv) ''handlers'' then
            (case snd kv of
               JNull \<Rightarrow> Some ([], healthy)
             | JArr vs \<Rightarrow> map_option (\<lambda>x. (x, healthy)) (map_opt store_handler vs)
             | _ \<Rightarrow> None)
          else if key_is (fst kv) ''healthy'' then map_option (\<lambda>x. (hs, x)) (store_bool healthy (snd kv))
          else Some (hs, healthy))"

definition decode_response :: "string \<Rightarrow> (wire_handler list \<times> bool) option" where
  "decode_response body =
     (case parse_json body of
        None \<Rightarrow> None
      | Some JNull \<Rightarrow> Some ([], False)
      | Some (JObj kvs) \<Rightarrow> foldl store_response (Some ([], False)) kvs
      | Some _ \<Rightarrow> None)"

definition GetStatus_http :: "http_result \<Rightarrow> string + RetryHandlerStatus list" where
  "GetStatus_http r =
     (case r of
        HttpFailed e \<Rightarrow> Inl (''failed to get retry handler status: '' @ e)
      | HttpResponse code body \<Rightarrow>
          if code \<noteq> 200 then Inl (''unexpected status code: '' @ Itoa code)
          else (case decode_response body of
                  None \<Rightarrow> Inl ''failed to decode response''
                | Some (hs, _) \<Rightarrow>
                    Inr (map (\<lambda>h. \<lparr>rs_device = wh_device h, rs_running = wh_running h,
                                   rs_restarts = wh_restarts h\<rparr>) hs)))"

section \<open>The document is read back\<close>

definition handler_json :: "HandlerStatus \<Rightarrow> json" where
  "handler_json h =
     JObj [(''device'', JStr (hs_device h)), (''running'', JBool (hs_running h)),
           (''pid'', JNum (Itoa (hs_pid h))), (''restarts'', JNum (Itoa (hs_restarts h)))]"

lemma scan_status_entry:
  assumes "list_all json_safe (hs_device h)"
  shows "scan_value (Suc (Suc (Suc (Suc (Suc (Suc n)))))) (status_entry h @ r) = Some (handler_json h, r)"
proof -
  have last: "scan_members (Suc (Suc m)) (quote ''restarts'' @ '': '' @ Itoa (hs_restarts h) @ CHR ''}'' # r) =
      Some ([(''restarts'', JNum (Itoa (hs_restarts h)))], r)" for m
    by (rule scan_members_last [OF _ scan_value_number]) (simp_all add: json_safe_def)
  have pid: "scan_members (Suc (Suc (Suc m))) (quote ''pid'' @ '': '' @ Itoa (hs_pid h) @ CHR '','' # CHR '' '' #
        quote ''restarts'' @ '': '' @ Itoa (hs_restarts h) @ CHR ''}'' # r) =
      Some ([(''pid'', JNum (Itoa (hs_pid h))), (''restarts'', JNum (Itoa (hs_restarts h)))], r)" for m
    by (subst scan_members_more [OF _ scan_value_number]) (simp_all add: json_safe_def scan_members_space last [simplified])
  have running: "scan_members (Suc (Suc (Suc (Suc m)))) (quote ''running'' @ '': '' @ show_bool (hs_running h) @ CHR '','' # CHR '' '' #
        quote ''pid'' @ '': '' @ Itoa (hs_pid h) @ CHR '','' # CHR '' '' #
        quote ''restarts'' @ '': '' @ Itoa (hs_restarts h) @ CHR ''}'' # r) =
      Some ([(''running'', JBool (hs_running h)), (''pid'', JNum (Itoa (hs_pid h))),
        (''restarts'', JNum (Itoa (hs_restarts h)))], r)" for m
    by (subst scan_members_more [OF _ scan_value_bool]) (simp_all add: json_safe_def scan_members_space pid [simplified])
  have "scan_members (Suc (Suc (Suc (Suc (Suc n))))) (quote ''device'' @ '': '' @ quote (hs_device h) @ CHR '','' # CHR '' '' #
        quote ''running'' @ '': '' @ show_bool (hs_running h) @ CHR '','' # CHR '' '' #
        quote ''pid'' @ '': '' @ Itoa (hs_pid h) @ CHR '','' # CHR '' '' #
        quote ''restarts'' @ '': '' @ Itoa (hs_restarts h) @ CHR ''}'' # r) =
      Some ([(''device'', JStr (hs_device h)), (''running'', JBool (hs_running h)),
        (''pid'', JNum (Itoa (hs_pid h))), (''restarts'', JNum (Itoa (hs_restarts h)))], r)"
    by (subst scan_members_more [OF _ scan_value_string])
       (simp_all add: json_safe_def assms scan_members_space running [simplified])
  then show ?thesis
    by (simp add: status_entry_def scan_value_space scan_value_object handler_json_def
      del: scan_value.simps scan_members.simps)
qed

lemma status_entries_lines: "status_entries hs = array_lines status_entry hs"
  by (induction hs) simp_all

definition status_json :: "HandlerStatus list \<Rightarrow> bool \<Rightarrow> json" where
  "status_json hs healthy =
     JObj [(''handlers'', JArr (map handler_json hs)), (''healthy'', JBool healthy)]"

lemma scan_handlers:
  assumes "list_all (\<lambda>h. list_all json_safe (hs_device h)) hs"
  shows "scan_value (Suc (length hs + 6 + n)) (''['' @ CHR 0x0A # status_entries hs @ ''  ]'' @ r) =
    Some (JArr (map handler_json hs), r)"
  unfolding status_entries_lines
  using scan_value_lines [of hs 6 status_entry "\<lambda>h. True" handler_json n r] scan_status_entry assms
  by (simp add: list_all_iff eval_nat_numeral status_entry_def del: scan_value.simps)

lemma length_status_entries: "length hs \<le> length (status_entries hs)"
  by (induction hs) auto

lemma parse_status_body:
  assumes "list_all (\<lambda>h. list_all json_safe (hs_device h)) hs"
  shows "parse_json (status_body hs healthy) = Some (status_json hs healthy)"
proof -
  obtain n where n: "length (status_body hs healthy) = Suc (Suc (length hs + 6 + n))"
    using le_Suc_ex [of "length hs + 8" "length (status_body hs healthy)"] length_status_entries [of hs]
    by (auto simp: status_body_def quote_def)
  let ?tail = "CHR 0x0A # CHR '' '' # CHR '' '' # quote ''healthy'' @ '': '' @ show_bool healthy @ CHR 0x0A # ''}'' @ [CHR 0x0A]"
  have healthy: "scan_members (Suc (Suc m)) (quote ''healthy'' @ '': '' @ show_bool healthy @ CHR 0x0A # ''}'' @ [CHR 0x0A]) =
      Some ([(''healthy'', JBool healthy)], [CHR 0x0A])" for m
    by (rule scan_members_last [OF _ scan_value_bool]) (simp_all add: json_safe_def)
  have tail: "scan_members (Suc (Suc m)) ?tail = Some ([(''healthy'', JBool healthy)], [CHR 0x0A])" for m
    by (subst scan_members_space scan_members_space, simp)+ (rule healthy)
  have fuel: "length hs + 6 + n = Suc (length hs + 5 + n)" by simp
  have "scan_members (Suc (Suc (length hs + 6 + n)))
      (quote ''handlers'' @ '': '' @ (''['' @ CHR 0x0A # status_entries hs @ ''  ]'' @ CHR '','' # ?tail)) =
      map_option (\<lambda>(ms, t). ((''handlers'', JArr (map handler_json hs)) # ms, t))
        (scan_members (Suc (length hs + 6 + n)) ?tail)"
    by (rule scan_members_more [OF _ scan_handlers [OF assms]]) (simp add: json_safe_def)
  also have "\<dots> = Some ([(''handlers'', JArr (map handler_json hs)), (''healthy'', JBool healthy)], [CHR 0x0A])"
    unfolding fuel tail by simp
  finally have members: "scan_members (Suc (Suc (length hs + 6 + n)))
      (quote ''handlers'' @ '': '' @ (''['' @ CHR 0x0A # status_entries hs @ ''  ]'' @ CHR '','' # ?tail)) =
      Some ([(''handlers'', JArr (map handler_json hs)), (''healthy'', JBool healthy)], [CHR 0x0A])" .
  have body: "status_body hs healthy = CHR ''{'' # CHR 0x0A # CHR '' '' # CHR '' '' #
      quote ''handlers'' @ '': '' @ (''['' @ CHR 0x0A # status_entries hs @ ''  ]'' @ CHR '','' # ?tail)"
    by (simp add: status_body_def)
  have "scan_value (Suc (Suc (Suc (length hs + 6 + n)))) (status_body hs healthy) =
      Some (status_json hs healthy, [CHR 0x0A])"
    unfolding body scan_value_block members by (simp add: status_json_def)
  then show ?thesis by (simp add: parse_json_def n del: scan_value.simps)
qed

lemma key_is_simps:
  "key_is ''device'' ''device''" "\<not> key_is ''running'' ''device''" "key_is ''running'' ''running''"
  "\<not> key_is ''pid'' ''device''" "\<not> key_is ''pid'' ''running''" "key_is ''pid'' ''pid''"
  "\<not> key_is ''restarts'' ''device''" "\<not> key_is ''restarts'' ''running''" "\<not> key_is ''restarts'' ''pid''"
  "key_is ''restarts'' ''restarts''" "key_is ''handlers'' ''handlers''" "\<not> key_is ''healthy'' ''handlers''"
  "key_is ''healthy'' ''healthy''"
  by (simp_all add: key_is_def lower_def)

definition int64 :: "int \<Rightarrow> bool" where
  "int64 i \<longleftrightarrow> -(2^63) \<le> i \<and> i < 2^63"

lemma store_handler_json:
  assumes "int64 (hs_pid h)" and "int64 (hs_restarts h)"
  shows "store_handler (handler_json h) =
    Some \<lparr>wh_device = hs_device h, wh_running = hs_running h, wh_pid = hs_pid h, wh_restarts = hs_restarts h\<rparr>"
  using assms Atoi_Itoa [of "hs_pid h"] Atoi_Itoa [of "hs_restarts h"]
  by (simp add: store_handler_def handler_json_def store_field_def store_string_def store_bool_def
      store_int_def key_is_simps int64_def)

definition wire_ok :: "HandlerStatus list \<Rightarrow> bool" where
  "wire_ok hs \<longleftrightarrow> list_all (\<lambda>h. list_all json_safe (hs_device h) \<and> int64 (hs_pid h) \<and> int64 (hs_restarts h)) hs"

lemma decode_status_body:
  assumes "wire_ok hs"
  shows "decode_response (status_body hs healthy) =
    Some (map (\<lambda>h. \<lparr>wh_device = hs_device h, wh_running = hs_running h, wh_pid = hs_pid h,
                     wh_restarts = hs_restarts h\<rparr>) hs, healthy)"
proof -
  let ?f = "\<lambda>h. \<lparr>wh_device = hs_device h, wh_running = hs_running h, wh_pid = hs_pid h, wh_restarts = hs_restarts h\<rparr>"
  have ok: "int64 (hs_pid h) \<and> int64 (hs_restarts h)" if "h \<in> set hs" for h
    using assms that by (simp add: wire_ok_def list_all_iff)
  have "map_opt (store_handler \<circ> handler_json) hs = Some (map ?f hs)"
    using ok by (intro map_opt_all) (simp add: store_handler_json)
  moreover have "map_opt store_handler (map handler_json hs) = map_opt (store_handler \<circ> handler_json) hs"
    by (induction hs) (simp_all split: option.splits)
  moreover have "parse_json (status_body hs healthy) = Some (status_json hs healthy)"
    using assms by (intro parse_status_body) (simp add: wire_ok_def list_all_iff)
  ultimately show ?thesis
    by (simp add: decode_response_def status_json_def store_response_def store_bool_def key_is_simps)
qed

text \<open>
  C31: The two ends of the status document agree. Whatever handlers the supervisor reports, in any
  number and order, the exporter's client reads back the device, the running flag and the restart
  count of each, provided the numbers fit 64 bits and the device names hold no character that
  \<open>%q\<close> writes as a Go escape JSON does not know.
\<close>

theorem status_document_roundtrip:
  assumes "wire_ok hs"
  shows "GetStatus_http (HttpResponse 200 (status_body hs healthy)) =
    Inr (map (\<lambda>h. \<lparr>rs_device = hs_device h, rs_running = hs_running h, rs_restarts = hs_restarts h\<rparr>) hs)"
  by (simp add: GetStatus_http_def decode_status_body [OF assms] o_def)

theorem status_document_roundtrip_witness:
  "GetStatus_http (HttpResponse 200 (status_body
     [\<lparr>hs_device = ''cxi0'', hs_running = True, hs_pid = 4242, hs_restarts = 3, hs_error = ''exit status 1''\<rparr>,
      \<lparr>hs_device = ''cxi1'', hs_running = False, hs_pid = 0, hs_restarts = 0, hs_error = ''''\<rparr>] False)) =
   Inr [\<lparr>rs_device = ''cxi0'', rs_running = True, rs_restarts = 3\<rparr>,
        \<lparr>rs_device = ''cxi1'', rs_running = False, rs_restarts = 0\<rparr>]"
  by (subst status_document_roundtrip) (simp_all add: wire_ok_def json_safe_def int64_def)

end
