(* ===== verification/Metrics.thy ===== *)
theory Metrics
  imports HostModules StatusWire
begin

text \<open>
  The metrics exporter (\<open>pkg/metrics\<close>): what a scrape reads and what it leaves in the registry of
  the process. A gauge or counter vector is a map from label values to numbers (a series that was
  never touched is absent); values are whole numbers, which \<open>float64\<close> holds exactly up to \<open>2^53\<close>.
  What the host and the network answer during a scrape is a parameter.
\<close>

section \<open>The registry and the exporter\<close>

record registry =
  g_link :: "string \<times> string \<times> string \<rightharpoonup> int"
  g_numa :: "string \<times> string \<times> string \<rightharpoonup> int"
  g_count :: "string \<rightharpoonup> int"
  g_running :: "string \<times> string \<rightharpoonup> int"
  c_restarts :: "string \<times> string \<rightharpoonup> int"
  g_loaded :: "string \<times> string \<rightharpoonup> int"
  c_errors :: "string \<times> string \<rightharpoonup> int"
  g_scraped :: "string \<rightharpoonup> int"

text \<open>
  The vectors as \<open>init\<close> registers them, by full name and labels, in the order of the fields.
  Registering a name twice would panic.
\<close>

abbreviation metrics_namespace :: string where "metrics_namespace \<equiv> ''cxi''"

definition registered_metrics :: "(string \<times> string list) list" where
  "registered_metrics =
     map (\<lambda>(n, ls). (metrics_namespace @ ''_'' @ n, ls))
       [(''device_link_state'', [''device'', ''node'', ''pci_address'']),
        (''device_numa_node'', [''device'', ''node'', ''pci_address'']),
        (''device_count'', [''node'']),
        (''retry_handler_running'', [''device'', ''node'']),
        (''retry_handler_restarts_total'', [''device'', ''node'']),
        (''driver_loaded'', [''node'', ''module'']),
        (''scrape_errors_total'', [''node'', ''type'']),
        (''last_scrape_timestamp_seconds'', [''node''])]"

lemma metrics_registered_once: "distinct (map fst registered_metrics)"
  by (simp add: registered_metrics_def)

definition counter_add :: "('l \<rightharpoonup> int) \<Rightarrow> 'l \<Rightarrow> int \<Rightarrow> ('l \<rightharpoonup> int)" where
  "counter_add m l x = m(l \<mapsto> (case m l of None \<Rightarrow> 0 | Some y \<Rightarrow> y) + x)"

record MetricsConfig =
  mc_node :: string
  mc_port :: int
  mc_interval :: int
  mc_url :: string

text \<open>The client in use: one that was set from outside, or the HTTP client for a URL.\<close>

datatype rh_client = OtherClient | HttpClient string

record exporter =
  ex_config :: MetricsConfig
  ex_client :: "rh_client option"
  ex_last :: "string \<rightharpoonup> int"

definition NewExporter :: "MetricsConfig \<Rightarrow> exporter" where
  "NewExporter c =
     (let c1 = (if mc_port c = 0 then c\<lparr>mc_port := 9090\<rparr> else c);
          c2 = (if mc_interval c1 = 0 then c1\<lparr>mc_interval := 15000000000\<rparr> else c1)
      in \<lparr>ex_config = c2, ex_client = None, ex_last = Map.empty\<rparr>)"

definition SetRetryHandlerClient :: "exporter \<Rightarrow> exporter" where
  "SetRetryHandlerClient e = e\<lparr>ex_client := Some OtherClient\<rparr>"

text \<open>What a scrape meets: the device tree, the module list, the network, the clock.\<close>

record scrape_env =
  sv_sysfs :: sysfs
  sv_modules :: "string option"
  sv_get :: "string \<Rightarrow> http_result"
  sv_other :: "string + RetryHandlerStatus list"
  sv_now :: int

type_synonym scrape_state = "exporter \<times> registry"

section \<open>Scraping\<close>

definition link_value :: "string \<Rightarrow> int" where
  "link_value s =
     (if s = ''1'' \<or> s = ''up'' then 1 else if s = ''0'' \<or> s = ''down'' then 0 else -1)"

definition set_device :: "string \<Rightarrow> registry \<Rightarrow> CXIDevice \<Rightarrow> registry" where
  "set_device node g d =
     g\<lparr>g_link := (g_link g)((cd_name d, node, cd_pci d) \<mapsto> link_value (cd_link d)),
       g_numa := (g_numa g)((cd_name d, node, cd_pci d) \<mapsto> cd_numa d)\<rparr>"

definition scrapeDevices :: "scrape_env \<Rightarrow> exporter \<Rightarrow> registry \<Rightarrow> registry" where
  "scrapeDevices v e g =
     (let node = mc_node (ex_config e) in
      case DiscoverDevices (sv_sysfs v) of
        Inl _ \<Rightarrow> g\<lparr>c_errors := counter_add (c_errors g) (node, ''device_discovery'') 1\<rparr>
      | Inr devs \<Rightarrow>
          foldl (set_device node) (g\<lparr>g_count := (g_count g)(node \<mapsto> int (length devs))\<rparr>) devs)"

definition driver_modules :: "string list" where
  "driver_modules = [''cxi_ss1'', ''cxi_user'', ''cxi_eth'', ''sbl'', ''sl'']"

text \<open>The exporter has its own copy of \<open>isModuleLoaded\<close>.\<close>

definition exporter_isModuleLoaded :: "string option \<Rightarrow> string \<Rightarrow> bool" where
  "exporter_isModuleLoaded mods name =
     (case mods of
        None \<Rightarrow> False
      | Some s \<Rightarrow> list_ex (\<lambda>l. let fs = Fields l in fs \<noteq> [] \<and> hd fs = name) (scan_lines s))"

definition scrapeDriverStatus :: "scrape_env \<Rightarrow> exporter \<Rightarrow> registry \<Rightarrow> registry" where
  "scrapeDriverStatus v e g =
     foldl (\<lambda>g m. g\<lparr>g_loaded := (g_loaded g)((mc_node (ex_config e), m) \<mapsto>
                     (if exporter_isModuleLoaded (sv_modules v) m then 1 else 0))\<rparr>) g driver_modules"

definition set_handler :: "scrape_state \<Rightarrow> RetryHandlerStatus \<Rightarrow> scrape_state" where
  "set_handler = (\<lambda>(e, g) s.
     let l = (rs_device s, mc_node (ex_config e));
         g1 = g\<lparr>g_running := (g_running g)(l \<mapsto> (if rs_running s then 1 else 0))\<rparr>;
         g2 = (case ex_last e (rs_device s) of
                 Some c \<Rightarrow> if c < rs_restarts s
                           then g1\<lparr>c_restarts := counter_add (c_restarts g1) l (rs_restarts s - c)\<rparr>
                           else g1
               | None \<Rightarrow> g1)
     in (e\<lparr>ex_last := (ex_last e)(rs_device s \<mapsto> rs_restarts s)\<rparr>, g2))"

definition client_status :: "scrape_env \<Rightarrow> rh_client \<Rightarrow> string + RetryHandlerStatus list" where
  "client_status v c =
     (case c of OtherClient \<Rightarrow> sv_other v | HttpClient url \<Rightarrow> GetStatus_http (sv_get v (url @ ''/status'')))"

definition scrapeRetryHandlerStatus :: "scrape_env \<Rightarrow> scrape_state \<Rightarrow> scrape_state" where
  "scrapeRetryHandlerStatus v = (\<lambda>(e0, g).
     let e = (if ex_client e0 = None \<and> mc_url (ex_config e0) \<noteq> ''''
              then e0\<lparr>ex_client := Some (HttpClient (mc_url (ex_config e0)))\<rparr> else e0)
     in case ex_client e of
          None \<Rightarrow> (e, g)
        | Some c \<Rightarrow>
            (case client_status v c of
               Inl _ \<Rightarrow> (e, g\<lparr>c_errors := counter_add (c_errors g) (mc_node (ex_config e), ''retry_handler'') 1\<rparr>)
             | Inr ss \<Rightarrow> foldl set_handler (e, g) ss))"

definition scrape :: "scrape_env \<Rightarrow> scrape_state \<Rightarrow> scrape_state" where
  "scrape v = (\<lambda>(e, g).
     let (e', g') = scrapeRetryHandlerStatus v (e, scrapeDriverStatus v e (scrapeDevices v e g))
     in (e', g'\<lparr>g_scraped := (g_scraped g')(mc_node (ex_config e) \<mapsto> sv_now v)\<rparr>))"

section \<open>What a scrape leaves\<close>

text \<open>The parts of the registry a step does not write.\<close>

lemma set_devices_frame [simp]:
  "g_count (foldl (set_device n) g ds) = g_count g" "g_running (foldl (set_device n) g ds) = g_running g"
  "c_restarts (foldl (set_device n) g ds) = c_restarts g" "g_loaded (foldl (set_device n) g ds) = g_loaded g"
  "c_errors (foldl (set_device n) g ds) = c_errors g" "g_scraped (foldl (set_device n) g ds) = g_scraped g"
  by (induction ds arbitrary: g) (simp_all add: set_device_def)

lemma set_devices_other:
  "l \<notin> {(cd_name d, n, cd_pci d) |d. d \<in> set ds} \<Longrightarrow>
     g_link (foldl (set_device n) g ds) l = g_link g l \<and> g_numa (foldl (set_device n) g ds) l = g_numa g l"
  by (induction ds arbitrary: g) (auto simp: set_device_def)

lemma set_devices_at:
  assumes "distinct (map cd_name ds)" and "d \<in> set ds"
  shows "g_link (foldl (set_device n) g ds) (cd_name d, n, cd_pci d) = Some (link_value (cd_link d)) \<and>
    g_numa (foldl (set_device n) g ds) (cd_name d, n, cd_pci d) = Some (cd_numa d)"
proof -
  obtain a b where ds: "ds = a @ d # b" using assms(2) by (meson split_list)
  with assms(1) have "(cd_name d, n, cd_pci d) \<notin> {(cd_name x, n, cd_pci x) |x. x \<in> set b}"
    by (auto simp: image_iff)
  from set_devices_other [OF this] show ?thesis by (simp add: ds set_device_def)
qed

lemma scrapeDriverStatus_frame [simp]:
  "g_link (scrapeDriverStatus v e g) = g_link g" "g_numa (scrapeDriverStatus v e g) = g_numa g"
  "g_count (scrapeDriverStatus v e g) = g_count g" "g_running (scrapeDriverStatus v e g) = g_running g"
  "c_restarts (scrapeDriverStatus v e g) = c_restarts g" "c_errors (scrapeDriverStatus v e g) = c_errors g"
  by (simp_all add: scrapeDriverStatus_def driver_modules_def)

lemma scrapeDriverStatus_at:
  "m \<in> set driver_modules \<Longrightarrow> g_loaded (scrapeDriverStatus v e g) (mc_node (ex_config e), m) =
     Some (if exporter_isModuleLoaded (sv_modules v) m then 1 else 0)"
  by (auto simp: scrapeDriverStatus_def driver_modules_def)

lemma exporter_copy_agrees: "exporter_isModuleLoaded = isModuleLoaded"
  unfolding exporter_isModuleLoaded_def isModuleLoaded_def line_names_def by (rule refl)

lemma set_handler_frame [simp]:
  "ex_config (fst (set_handler st s)) = ex_config (fst st)" "ex_client (fst (set_handler st s)) = ex_client (fst st)"
  "g_link (snd (set_handler st s)) = g_link (snd st)" "g_numa (snd (set_handler st s)) = g_numa (snd st)"
  "g_count (snd (set_handler st s)) = g_count (snd st)" "g_loaded (snd (set_handler st s)) = g_loaded (snd st)"
  by (auto simp: set_handler_def Let_def split: prod.splits option.splits)

lemma set_handlers_frame [simp]:
  "ex_config (fst (foldl set_handler st ss)) = ex_config (fst st)"
  "ex_client (fst (foldl set_handler st ss)) = ex_client (fst st)"
  "g_link (snd (foldl set_handler st ss)) = g_link (snd st)"
  "g_numa (snd (foldl set_handler st ss)) = g_numa (snd st)"
  "g_count (snd (foldl set_handler st ss)) = g_count (snd st)"
  "g_loaded (snd (foldl set_handler st ss)) = g_loaded (snd st)"
  by (induction ss arbitrary: st) simp_all

lemma scrapeRetryHandlerStatus_frame [simp]:
  "ex_config (fst (scrapeRetryHandlerStatus v st)) = ex_config (fst st)"
  "g_link (snd (scrapeRetryHandlerStatus v st)) = g_link (snd st)"
  "g_numa (snd (scrapeRetryHandlerStatus v st)) = g_numa (snd st)"
  "g_count (snd (scrapeRetryHandlerStatus v st)) = g_count (snd st)"
  "g_loaded (snd (scrapeRetryHandlerStatus v st)) = g_loaded (snd st)"
  by (simp_all add: scrapeRetryHandlerStatus_def Let_def split: prod.splits option.splits sum.splits)

text \<open>The parts of a scrape, with the exporter's node.\<close>

lemma scrape_snd:
  "snd (scrape v st) =
     (let g = snd (scrapeRetryHandlerStatus v (fst st, scrapeDriverStatus v (fst st) (scrapeDevices v (fst st) (snd st))))
      in g\<lparr>g_scraped := (g_scraped g)(mc_node (ex_config (fst st)) \<mapsto> sv_now v)\<rparr>)"
  by (simp add: scrape_def Let_def split: prod.splits)

lemma scrape_fst:
  "fst (scrape v st) =
     fst (scrapeRetryHandlerStatus v (fst st, scrapeDriverStatus v (fst st) (scrapeDevices v (fst st) (snd st))))"
  by (simp add: scrape_def Let_def split: prod.splits)

text \<open>
  C32: A scrape reports the host as it is, and forgets nothing. After a scrape whose discovery
  answered, the count and each device's link state and NUMA node are those found, and each driver
  module is reported loaded exactly if \<open>/proc/modules\<close> lists it; but the series of a device that
  is gone keep their last values. A discovery that fails leaves every device series and the
  module report is still made.
\<close>

theorem scrape_reports_host:
  assumes "module_lines_ok ms" and "sv_modules v = Some (proc_modules ms)"
  shows "(\<forall>devs. DiscoverDevices (sv_sysfs v) = Inr devs \<and> distinct (map cd_name devs) \<longrightarrow>
      g_count (snd (scrape v (e, g))) (mc_node (ex_config e)) = Some (int (length devs)) \<and>
      (\<forall>d\<in>set devs. g_link (snd (scrape v (e, g))) (cd_name d, mc_node (ex_config e), cd_pci d) =
           Some (link_value (cd_link d)) \<and>
         g_numa (snd (scrape v (e, g))) (cd_name d, mc_node (ex_config e), cd_pci d) = Some (cd_numa d)) \<and>
      (\<forall>n p. n \<notin> cd_name ` set devs \<longrightarrow>
         g_link (snd (scrape v (e, g))) (n, mc_node (ex_config e), p) = g_link g (n, mc_node (ex_config e), p))) \<and>
    (\<forall>err. DiscoverDevices (sv_sysfs v) = Inl err \<longrightarrow>
      g_link (snd (scrape v (e, g))) = g_link g \<and> g_count (snd (scrape v (e, g))) = g_count g) \<and>
    (\<forall>m\<in>set driver_modules. g_loaded (snd (scrape v (e, g))) (mc_node (ex_config e), m) =
       Some (if m \<in> fst ` set ms then 1 else 0))"
proof (intro conjI allI impI ballI)
  fix devs
  assume "DiscoverDevices (sv_sysfs v) = Inr devs \<and> distinct (map cd_name devs)"
  then have devs: "scrapeDevices v e g = foldl (set_device (mc_node (ex_config e)))
      (g\<lparr>g_count := (g_count g)(mc_node (ex_config e) \<mapsto> int (length devs))\<rparr>) devs"
    and dist: "distinct (map cd_name devs)" by (simp_all add: scrapeDevices_def Let_def)
  show "g_count (snd (scrape v (e, g))) (mc_node (ex_config e)) = Some (int (length devs))"
    by (simp add: scrape_snd Let_def devs)
  show "g_link (snd (scrape v (e, g))) (cd_name d, mc_node (ex_config e), cd_pci d) = Some (link_value (cd_link d))"
    "g_numa (snd (scrape v (e, g))) (cd_name d, mc_node (ex_config e), cd_pci d) = Some (cd_numa d)"
    if "d \<in> set devs" for d
    using set_devices_at [OF dist that] by (simp_all add: scrape_snd Let_def devs)
  show "g_link (snd (scrape v (e, g))) (n, mc_node (ex_config e), p) = g_link g (n, mc_node (ex_config e), p)"
    if "n \<notin> cd_name ` set devs" for n p
    using set_devices_other [of "(n, mc_node (ex_config e), p)" "mc_node (ex_config e)" devs] that
    by (force simp add: scrape_snd Let_def devs)
next
  fix err
  assume "DiscoverDevices (sv_sysfs v) = Inl err"
  then show "g_link (snd (scrape v (e, g))) = g_link g" "g_count (snd (scrape v (e, g))) = g_count g"
    by (simp_all add: scrape_snd Let_def scrapeDevices_def)
next
  fix m
  assume "m \<in> set driver_modules"
  from scrapeDriverStatus_at [OF this] show "g_loaded (snd (scrape v (e, g))) (mc_node (ex_config e), m) =
       Some (if m \<in> fst ` set ms then 1 else 0)"
    using assms by (simp add: scrape_snd Let_def exporter_copy_agrees isModuleLoaded_exact)
qed

definition sample_exporter :: exporter where
  "sample_exporter =
     NewExporter \<lparr>mc_node = ''n1'', mc_port = 0, mc_interval = 0, mc_url = ''http://localhost:8080''\<rparr>"

definition empty_registry :: registry where
  "empty_registry =
     \<lparr>g_link = Map.empty, g_numa = Map.empty, g_count = Map.empty, g_running = Map.empty,
      c_restarts = Map.empty, g_loaded = Map.empty, c_errors = Map.empty, g_scraped = Map.empty\<rparr>"

definition sample_scrape :: scrape_env where
  "sample_scrape =
     \<lparr>sv_sysfs = \<lparr>sf_class = DirNotExist, sf_readlink = Map.empty, sf_readfile = Map.empty\<rparr>,
      sv_modules = Some (proc_modules [(''cxi_ss1'', ''1048576 2 - Live'')]),
      sv_get = (\<lambda>url. HttpFailed ''connection refused''), sv_other = Inr [], sv_now = 0\<rparr>"

theorem scrape_reports_host_witness:
  "g_count (snd (scrape sample_scrape (sample_exporter, empty_registry))) ''n1'' = Some 0 \<and>
   g_loaded (snd (scrape sample_scrape (sample_exporter, empty_registry))) (''n1'', ''cxi_ss1'') = Some 1"
proof -
  have "module_lines_ok [(''cxi_ss1'', ''1048576 2 - Live'')]"
    by (simp add: module_lines_ok_def is_space_def)
  from scrape_reports_host [OF this, of sample_scrape sample_exporter empty_registry] show ?thesis
    by (simp add: sample_scrape_def DiscoverDevices_def sample_exporter_def NewExporter_def Let_def
        driver_modules_def)
qed

section \<open>The restart counter\<close>

definition counter_value :: "('l \<rightharpoonup> int) \<Rightarrow> 'l \<Rightarrow> int" where
  "counter_value m l = (case m l of None \<Rightarrow> 0 | Some y \<Rightarrow> y)"

lemma counter_value_add [simp]:
  "counter_value (counter_add m l x) k = counter_value m k + (if k = l then x else 0)"
  by (simp add: counter_value_def counter_add_def)

text \<open>
  The sum of the positive differences of the successive counts; the first count of all only sets
  the point of comparison.
\<close>

fun increments :: "int option \<Rightarrow> int list \<Rightarrow> int" where
  "increments c [] = 0"
| "increments None (x # xs) = increments (Some x) xs"
| "increments (Some c) (x # xs) = max 0 (x - c) + increments (Some x) xs"

lemma set_handlers_other:
  "d \<notin> rs_device ` set ss \<Longrightarrow>
     ex_last (fst (foldl set_handler st ss)) d = ex_last (fst st) d \<and>
     counter_value (c_restarts (snd (foldl set_handler st ss))) (d, n) = counter_value (c_restarts (snd st)) (d, n) \<and>
     g_running (snd (foldl set_handler st ss)) (d, n) = g_running (snd st) (d, n)"
proof (induction ss arbitrary: st)
  case (Cons s ss)
  have "ex_last (fst (set_handler st s)) d = ex_last (fst st) d \<and>
      counter_value (c_restarts (snd (set_handler st s))) (d, n) = counter_value (c_restarts (snd st)) (d, n) \<and>
      g_running (snd (set_handler st s)) (d, n) = g_running (snd st) (d, n)"
    using Cons.prems by (auto simp: set_handler_def Let_def split: prod.splits option.splits)
  with Cons show ?case by simp
qed simp

lemma set_handler_at:
  "ex_last (fst (set_handler st s)) (rs_device s) = Some (rs_restarts s) \<and>
   counter_value (c_restarts (snd (set_handler st s))) (rs_device s, mc_node (ex_config (fst st))) =
     counter_value (c_restarts (snd st)) (rs_device s, mc_node (ex_config (fst st))) +
     increments (ex_last (fst st) (rs_device s)) [rs_restarts s] \<and>
   g_running (snd (set_handler st s)) (rs_device s, mc_node (ex_config (fst st))) =
     Some (if rs_running s then 1 else 0)"
  by (auto simp: set_handler_def Let_def split: prod.splits option.splits)

lemma set_handlers_at:
  assumes "distinct (map rs_device ss)" and "s \<in> set ss"
  shows "ex_last (fst (foldl set_handler st ss)) (rs_device s) = Some (rs_restarts s) \<and>
    counter_value (c_restarts (snd (foldl set_handler st ss))) (rs_device s, mc_node (ex_config (fst st))) =
      counter_value (c_restarts (snd st)) (rs_device s, mc_node (ex_config (fst st))) +
      increments (ex_last (fst st) (rs_device s)) [rs_restarts s] \<and>
    g_running (snd (foldl set_handler st ss)) (rs_device s, mc_node (ex_config (fst st))) =
      Some (if rs_running s then 1 else 0)"
proof -
  obtain a b where ss: "ss = a @ s # b" using assms(2) by (meson split_list)
  with assms(1) have "rs_device s \<notin> rs_device ` set a" "rs_device s \<notin> rs_device ` set b" by auto
  then show ?thesis
    using set_handler_at [of "foldl set_handler st a" s] set_handlers_other [of "rs_device s" a st]
      set_handlers_other [of "rs_device s" b] by (simp add: ss)
qed

text \<open>The client a scrape uses, and what it answers.\<close>

definition scrape_client :: "exporter \<Rightarrow> rh_client option" where
  "scrape_client e =
     (if ex_client e = None \<and> mc_url (ex_config e) \<noteq> '''' then Some (HttpClient (mc_url (ex_config e)))
      else ex_client e)"

lemma scrape_handlers:
  assumes "scrape_client (fst st) = Some c" and "client_status v c = Inr ss"
  shows "\<exists>e g. scrape_client e = Some c \<and> ex_config e = ex_config (fst st) \<and> ex_last e = ex_last (fst st) \<and>
    c_restarts g = c_restarts (snd st) \<and> g_running g = g_running (snd st) \<and>
    fst (scrape v st) = fst (foldl set_handler (e, g) ss) \<and>
    c_restarts (snd (scrape v st)) = c_restarts (snd (foldl set_handler (e, g) ss)) \<and>
    g_running (snd (scrape v st)) = g_running (snd (foldl set_handler (e, g) ss))"
proof -
  define e where "e = (fst st)\<lparr>ex_client := Some c\<rparr>"
  define g where "g = scrapeDriverStatus v (fst st) (scrapeDevices v (fst st) (snd st))"
  have c: "(if ex_client (fst st) = None \<and> mc_url (ex_config (fst st)) \<noteq> ''''
      then (fst st)\<lparr>ex_client := Some (HttpClient (mc_url (ex_config (fst st))))\<rparr> else fst st) = e"
    using assms(1) by (auto simp: e_def scrape_client_def split: if_splits)
  have "scrapeRetryHandlerStatus v (fst st, g) = foldl set_handler (e, g) ss"
    using assms(2) by (simp add: scrapeRetryHandlerStatus_def c) (simp add: e_def)
  moreover have "c_restarts g = c_restarts (snd st)" "g_running g = g_running (snd st)"
    by (simp_all add: g_def scrapeDevices_def Let_def split: sum.splits)
  ultimately show ?thesis
    by (intro exI [of _ e] exI [of _ g])
       (simp add: scrape_snd scrape_fst Let_def g_def [symmetric], simp add: e_def scrape_client_def)
qed

definition scrapes :: "scrape_env list \<Rightarrow> scrape_state \<Rightarrow> scrape_state" where
  "scrapes vs st = foldl (\<lambda>st v. scrape v st) st vs"

lemma scrape_client_frame:
  assumes "scrape_client (fst st) = Some c" and "client_status v c = Inr ss"
  shows "scrape_client (fst (scrape v st)) = Some c \<and> ex_config (fst (scrape v st)) = ex_config (fst st)"
  using scrape_handlers [OF assms] by (auto simp: scrape_client_def)

text \<open>
  C33: The restart counter adds up. Over any number of scrapes that reach the supervisor, each of
  which reports the device once, the counter of the device grows by the sum of the increases from
  one report to the next; so while the supervisor's count does not fall, it grows by exactly the
  difference between the last count and the first one known. Restarts before the first report,
  and those a restarted supervisor made before it passed its old count, are not counted.
\<close>

theorem restart_counter_exact:
  assumes "scrape_client (fst st) = Some c"
    and "\<forall>v\<in>set vs. \<exists>ss. client_status v c = Inr ss \<and> distinct (map rs_device ss) \<and>
      (\<exists>s\<in>set ss. rs_device s = d \<and> rs_restarts s = cnt v)"
  shows "counter_value (c_restarts (snd (scrapes vs st))) (d, mc_node (ex_config (fst st))) =
      counter_value (c_restarts (snd st)) (d, mc_node (ex_config (fst st))) +
      increments (ex_last (fst st) d) (map cnt vs) \<and>
    (\<forall>c0. ex_last (fst st) d = Some c0 \<and> sorted (c0 # map cnt vs) \<longrightarrow>
      increments (ex_last (fst st) d) (map cnt vs) = last (c0 # map cnt vs) - c0)"
proof
  show "counter_value (c_restarts (snd (scrapes vs st))) (d, mc_node (ex_config (fst st))) =
      counter_value (c_restarts (snd st)) (d, mc_node (ex_config (fst st))) +
      increments (ex_last (fst st) d) (map cnt vs)"
    using assms
  proof (induction vs arbitrary: st)
    case (Cons v vs)
    from Cons.prems(2) obtain ss s where ss: "client_status v c = Inr ss" "distinct (map rs_device ss)"
      "s \<in> set ss" "rs_device s = d" "rs_restarts s = cnt v" by auto
    from scrape_handlers [OF Cons.prems(1) ss(1)] set_handlers_at [OF ss(2,3)] ss(4,5)
    have step: "ex_last (fst (scrape v st)) d = Some (cnt v)"
      "counter_value (c_restarts (snd (scrape v st))) (d, mc_node (ex_config (fst st))) =
        counter_value (c_restarts (snd st)) (d, mc_node (ex_config (fst st))) +
        increments (ex_last (fst st) d) [cnt v]"
      by (metis fst_conv snd_conv)+
    have "increments (ex_last (fst st) d) (map cnt (v # vs)) =
        increments (ex_last (fst st) d) [cnt v] + increments (Some (cnt v)) (map cnt vs)"
      by (cases "ex_last (fst st) d") simp_all
    with Cons.IH [of "scrape v st"] Cons.prems scrape_client_frame [OF Cons.prems(1) ss(1)] step
    show ?case by (simp add: scrapes_def)
  qed (simp add: scrapes_def)
  have "sorted (c0 # xs) \<Longrightarrow> increments (Some c0) xs = last (c0 # xs) - c0" for c0 xs
    by (induction xs arbitrary: c0) auto
  then show "\<forall>c0. ex_last (fst st) d = Some c0 \<and> sorted (c0 # map cnt vs) \<longrightarrow>
      increments (ex_last (fst st) d) (map cnt vs) = last (c0 # map cnt vs) - c0"
    by simp
qed

definition sample_report :: "int \<Rightarrow> scrape_env" where
  "sample_report n = sample_scrape\<lparr>sv_get := (\<lambda>url. HttpResponse 200 (status_body
     [\<lparr>hs_device = ''cxi0'', hs_running = True, hs_pid = 7, hs_restarts = n, hs_error = ''''\<rparr>] True))\<rparr>"

lemma client_status_sample:
  "int64 n \<Longrightarrow> client_status (sample_report n) (HttpClient u) =
     Inr [\<lparr>rs_device = ''cxi0'', rs_running = True, rs_restarts = n\<rparr>]"
  using decode_status_body [of "[\<lparr>hs_device = ''cxi0'', hs_running = True, hs_pid = 7, hs_restarts = n, hs_error = ''''\<rparr>]" True]
  by (simp add: client_status_def sample_report_def GetStatus_http_def wire_ok_def json_safe_def int64_def)

theorem restart_counter_exact_witness:
  "counter_value (c_restarts (snd (scrapes [sample_report 2, sample_report 5, sample_report 6]
     (sample_exporter, empty_registry)))) (''cxi0'', ''n1'') = 4"
proof -
  let ?cnt = "\<lambda>v. (case client_status v (HttpClient '''') of Inr ss \<Rightarrow> rs_restarts (hd ss) | Inl _ \<Rightarrow> 0)"
  have "scrape_client (fst (sample_exporter, empty_registry)) = Some (HttpClient ''http://localhost:8080'')"
    by (simp add: scrape_client_def sample_exporter_def NewExporter_def Let_def)
  from restart_counter_exact [OF this, of "[sample_report 2, sample_report 5, sample_report 6]" "''cxi0''" ?cnt]
  show ?thesis
    by (simp add: client_status_sample int64_def sample_exporter_def NewExporter_def Let_def
        empty_registry_def counter_value_def)
qed

section \<open>The supervisor seen through the exporter\<close>

text \<open>
  C34: The exporter shows the supervisor's state. If the exporter scrapes a supervisor in a
  reachable state over its status endpoint, then for every device the supervisor handles the
  running gauge is one exactly if the handler is marked running, the count remembered is the
  handler's, and the devices are those the supervisor found at its start.
\<close>

theorem metrics_reflect_supervisor:
  assumes "sup_reach devs s" and "wire_ok (GetStatus s)"
    and "scrape_client (fst st) = Some (HttpClient url)"
    and "sv_get v (url @ ''/status'') = HttpResponse 200 (status_body (GetStatus s) (IsHealthy s))"
  shows "fst ` set (su_handlers s) = cd_name ` set devs \<and>
    (\<forall>(d, h)\<in>set (su_handlers s).
       g_running (snd (scrape v st)) (d, mc_node (ex_config (fst st))) = Some (if h_running h then 1 else 0) \<and>
       ex_last (fst (scrape v st)) d = Some (h_restarts h))"
proof
  show "fst ` set (su_handlers s) = cd_name ` set devs" using sup_reach_keys [OF assms(1)] by blast
  define ss where "ss = map (\<lambda>(d, h). \<lparr>rs_device = h_device h, rs_running = h_running h,
      rs_restarts = h_restarts h\<rparr>) (su_handlers s)"
  have "client_status v (HttpClient url) = Inr ss"
    using decode_status_body [OF assms(2), of "IsHealthy s"] assms(4)
    by (simp add: client_status_def GetStatus_http_def GetStatus_def ss_def o_def case_prod_beta)
  from scrape_handlers [OF assms(3) this] obtain e g where eg: "ex_config e = ex_config (fst st)"
    "fst (scrape v st) = fst (foldl set_handler (e, g) ss)"
    "g_running (snd (scrape v st)) = g_running (snd (foldl set_handler (e, g) ss))" by blast
  have device: "h_device h = d" if "(d, h) \<in> set (su_handlers s)" for d h
    using sup_reach_device [OF assms(1) that] .
  have "map rs_device ss = map fst (su_handlers s)"
    unfolding ss_def using device by auto
  then have dist: "distinct (map rs_device ss)" using sup_reach_keys [OF assms(1)] by simp
  show "\<forall>(d, h)\<in>set (su_handlers s).
       g_running (snd (scrape v st)) (d, mc_node (ex_config (fst st))) = Some (if h_running h then 1 else 0) \<and>
       ex_last (fst (scrape v st)) d = Some (h_restarts h)"
  proof (clarify, intro conjI)
    fix d h
    assume dh: "(d, h) \<in> set (su_handlers s)"
    let ?x = "\<lparr>rs_device = h_device h, rs_running = h_running h, rs_restarts = h_restarts h\<rparr>"
    have "?x \<in> set ss" using dh by (force simp: ss_def)
    from set_handlers_at [OF dist this, of "(e, g)"] device [OF dh] eg
    show "g_running (snd (scrape v st)) (d, mc_node (ex_config (fst st))) = Some (if h_running h then 1 else 0)"
      "ex_last (fst (scrape v st)) d = Some (h_restarts h)" by simp_all
  qed
qed

definition sample_supervisor :: supervisor where
  "sample_supervisor = fst (Start_supervisor (Inr [\<lparr>cd_name = ''cxi0'', cd_path = '''', cd_pci = '''',
     cd_numa = 0, cd_nid = 1, cd_link = ''1''\<rparr>]) (NewSupervisor '''' 0))"

theorem metrics_reflect_supervisor_witness:
  "ex_last (fst (scrape (sample_scrape\<lparr>sv_get := (\<lambda>u. HttpResponse 200
     (status_body (GetStatus sample_supervisor) (IsHealthy sample_supervisor)))\<rparr>)
     (sample_exporter, empty_registry))) ''cxi0'' = Some 0"
proof -
  have handlers: "su_handlers sample_supervisor = [(''cxi0'', new_handler ''cxi0'')]"
    by (simp add: sample_supervisor_def Start_supervisor_def startHandler_def NewSupervisor_def)
  have "sup_reach [\<lparr>cd_name = ''cxi0'', cd_path = '''', cd_pci = '''', cd_numa = 0, cd_nid = 1, cd_link = ''1''\<rparr>]
      sample_supervisor"
    unfolding sample_supervisor_def by (rule reach_start)
  moreover have "wire_ok (GetStatus sample_supervisor)"
    by (simp add: GetStatus_def handlers new_handler_def wire_ok_def json_safe_def int64_def)
  moreover have "scrape_client (fst (sample_exporter, empty_registry)) = Some (HttpClient ''http://localhost:8080'')"
    by (simp add: scrape_client_def sample_exporter_def NewExporter_def Let_def)
  ultimately show ?thesis
    using metrics_reflect_supervisor [of _ sample_supervisor "(sample_exporter, empty_registry)"
        "''http://localhost:8080''" "sample_scrape\<lparr>sv_get := (\<lambda>u. HttpResponse 200
     (status_body (GetStatus sample_supervisor) (IsHealthy sample_supervisor)))\<rparr>"]
    by (simp add: handlers) (simp add: new_handler_def)
qed

end
