(* ===== verification/NodeReport.thy ===== *)
theory NodeReport
  imports DriverAgent KubeApi Metrics "HOL-Library.AList"
begin

text \<open>
  What the driver agent reports to the cluster (\<open>pkg/driveragent/agent.go\<close>): a \<open>CXIDevice\<close> object per
  device, the topology labels of its node, and its own readiness. The client of the API server is
  a parameter, with the laws of \<open>KubeApi\<close>'s reads and writes for the two kinds of object used here.
\<close>

section \<open>The interface\<close>

text \<open>
  A node, as far as the agent sees it; its labels are an association list, as the code ranges
  over them.
\<close>

record Node =
  nd_name :: string
  nd_labels :: "(string \<times> string) list"
  nd_rest :: string

record node_cluster =
  nc_devices :: "string \<rightharpoonup> CXIDeviceObject"
  nc_nodes :: "string \<rightharpoonup> Node"

abbreviation dev_name :: "CXIDeviceObject \<Rightarrow> string" where
  "dev_name d \<equiv> om_name (dev_meta d)"

record 'w node_k8s =
  nk_get_device :: "string \<Rightarrow> ('w, CXIDeviceObject) reader"
  nk_create_device :: "CXIDeviceObject \<Rightarrow> 'w writer"
  nk_update_status :: "CXIDeviceObject \<Rightarrow> 'w writer"
  nk_get_node :: "string \<Rightarrow> ('w, Node) reader"
  nk_update_node :: "Node \<Rightarrow> 'w writer"

definition eff_create_device :: "CXIDeviceObject \<Rightarrow> node_cluster \<Rightarrow> node_cluster" where
  "eff_create_device d c = c\<lparr>nc_devices := (nc_devices c)(dev_name d \<mapsto> d)\<rparr>"

definition eff_device_status :: "CXIDeviceObject \<Rightarrow> node_cluster \<Rightarrow> node_cluster" where
  "eff_device_status d c =
     (case nc_devices c (dev_name d) of
        None \<Rightarrow> c
      | Some old \<Rightarrow> c\<lparr>nc_devices := (nc_devices c)(dev_name d \<mapsto> old\<lparr>dev_status := dev_status d\<rparr>)\<rparr>)"

definition eff_update_node :: "Node \<Rightarrow> node_cluster \<Rightarrow> node_cluster" where
  "eff_update_node n c = c\<lparr>nc_nodes := (nc_nodes c)(nd_name n \<mapsto> n)\<rparr>"

locale node_api =
  fixes K :: "'w node_k8s" and view :: "'w \<Rightarrow> node_cluster"
  assumes get_device: "reads view (\<lambda>c. nc_devices c n) (nk_get_device K n)"
    and create_device:
      "writes view (\<lambda>c. nc_devices c (dev_name d) = None) (eff_create_device d) (nk_create_device K d)"
    and update_status:
      "writes view (\<lambda>c. nc_devices c (dev_name d) \<noteq> None) (eff_device_status d) (nk_update_status K d)"
    and get_node: "reads view (\<lambda>c. nc_nodes c n) (nk_get_node K n)"
    and update_node: "writes view (\<lambda>c. nc_nodes c (nd_name m) \<noteq> None) (eff_update_node m) (nk_update_node K m)"

text \<open>The reference server of \<open>KubeApi\<close>, with its scheduled failures, satisfies the laws.\<close>

definition ref_node :: "node_cluster ref_state node_k8s" where
  "ref_node =
     \<lparr>nk_get_device = (\<lambda>n. ref_read (\<lambda>c. nc_devices c n)),
      nk_create_device = (\<lambda>d.
        ref_write AlreadyExists (\<lambda>c. nc_devices c (dev_name d) = None) (eff_create_device d)),
      nk_update_status = (\<lambda>d.
        ref_write NotFound (\<lambda>c. nc_devices c (dev_name d) \<noteq> None) (eff_device_status d)),
      nk_get_node = (\<lambda>n. ref_read (\<lambda>c. nc_nodes c n)),
      nk_update_node = (\<lambda>m. ref_write NotFound (\<lambda>c. nc_nodes c (nd_name m) \<noteq> None) (eff_update_node m))\<rparr>"

interpretation ref_node: node_api ref_node fst
  by unfold_locales (simp_all add: ref_node_def reads_ref_read writes_ref_write)

section \<open>Device objects\<close>

definition link_state :: "string \<Rightarrow> LinkState" where
  "link_state s =
     (if s = ''1'' \<or> s = ''up'' then LinkStateUp
      else if s = ''0'' \<or> s = ''down'' then LinkStateDown else LinkStateUnknown)"

definition health_status :: "LinkState \<Rightarrow> HealthStatus" where
  "health_status l =
     (if l = LinkStateDown then HealthStatusUnhealthy
      else if l = LinkStateUnknown then HealthStatusUnknown else HealthStatusHealthy)"

text \<open>The version file of the module; what is read from the host and the clock in one poll.\<close>

record poll_env =
  pv_sysfs :: sysfs
  pv_version_file :: "string option"
  pv_now :: int

definition getDriverVersion :: "poll_env \<Rightarrow> string" where
  "getDriverVersion v = (case pv_version_file v of None \<Rightarrow> ''unknown'' | Some s \<Rightarrow> s)"

definition no_retry_handler :: DeviceRetryHandlerStatus where
  "no_retry_handler =
     \<lparr>drh_enabled = False, drh_policy = '''',
      drh_stats = \<lparr>rhs_total = 0, rhs_timeout = 0, rhs_nack = 0, rhs_pending = 0\<rparr>\<rparr>"

definition device_status :: "AgentConfig \<Rightarrow> poll_env \<Rightarrow> CXIDevice \<Rightarrow> CXIDeviceStatus" where
  "device_status c v d =
     \<lparr>cds_node = ag_node c, cds_device = cd_name d, cds_type = CXIDeviceTypePF,
      cds_pci_address = cd_pci d, cds_numa_node = word_of_int (cd_numa d), cds_nid = cd_nid d,
      cds_switch_id = (if cd_nid d \<noteq> InvalidNID then word_of_int (SwitchID d (ag_mask c)) else -1),
      cds_link_speed = '''', cds_link_state = link_state (cd_link d),
      cds_driver_version = TrimSpace (getDriverVersion v), cds_cassini_generation = 0,
      cds_retry_handler = no_retry_handler,
      cds_health = \<lparr>dh_status = health_status (link_state (cd_link d)), dh_last_check = Some (pv_now v),
                    dh_message = ''''\<rparr>,
      cds_conditions = []\<rparr>"

definition empty_device_status :: CXIDeviceStatus where
  "empty_device_status =
     \<lparr>cds_node = '''', cds_device = '''', cds_type = '''', cds_pci_address = '''', cds_numa_node = 0,
      cds_nid = 0, cds_switch_id = 0, cds_link_speed = '''', cds_link_state = '''', cds_driver_version = '''',
      cds_cassini_generation = 0, cds_retry_handler = no_retry_handler,
      cds_health = \<lparr>dh_status = '''', dh_last_check = None, dh_message = ''''\<rparr>, cds_conditions = []\<rparr>"

definition device_object_name :: "AgentConfig \<Rightarrow> CXIDevice \<Rightarrow> string" where
  "device_object_name c d = ag_node c @ ''-'' @ cd_name d"

definition new_device_object :: "AgentConfig \<Rightarrow> CXIDevice \<Rightarrow> CXIDeviceObject" where
  "new_device_object c d =
     \<lparr>dev_meta = new_meta (device_object_name c d) ''''
        [''slingshot.hpe.com/node'' \<mapsto> ag_node c, ''slingshot.hpe.com/device'' \<mapsto> cd_name d],
      dev_status = empty_device_status\<rparr>"

definition put_device_status ::
  "'w node_k8s \<Rightarrow> AgentConfig \<Rightarrow> poll_env \<Rightarrow> CXIDevice \<Rightarrow> CXIDeviceObject \<Rightarrow> 'w writer" where
  "put_device_status K c v d x w =
     (case nk_update_status K (x\<lparr>dev_status := device_status c v d\<rparr>) w of
        (w', Some e) \<Rightarrow> (w', Some (wrapf ''failed to update CXIDevice status'' e))
      | (w', None) \<Rightarrow> (w', None))"

definition updateCXIDeviceStatus ::
  "'w node_k8s \<Rightarrow> AgentConfig \<Rightarrow> poll_env \<Rightarrow> CXIDevice \<Rightarrow> 'w writer" where
  "updateCXIDeviceStatus K c v d w =
     (case nk_get_device K (device_object_name c d) w of
        (w1, Inr x) \<Rightarrow> put_device_status K c v d x w1
      | (w1, Inl e) \<Rightarrow>
          if \<not> IsNotFound e then (w1, Some (wrapf ''failed to get CXIDevice'' e))
          else (case nk_create_device K (new_device_object c d) w1 of
                  (w2, Some e2) \<Rightarrow> (w2, Some (wrapf ''failed to create CXIDevice'' e2))
                | (w2, None) \<Rightarrow> put_device_status K c v d (new_device_object c d) w2))"

section \<open>Labels of the node\<close>

abbreviation LabelCXIPresent :: string where "LabelCXIPresent \<equiv> ''slingshot.hpe.com/cxi-present''"
abbreviation LabelDeviceCount :: string where "LabelDeviceCount \<equiv> ''slingshot.hpe.com/device-count''"
abbreviation LabelSwitchIDPrefix :: string where "LabelSwitchIDPrefix \<equiv> ''slingshot.hpe.com/''"
abbreviation LabelSwitchIDSuffix :: string where "LabelSwitchIDSuffix \<equiv> ''-switch-id''"

type_synonym label_state = "(string \<times> string) list \<times> bool"

definition label_at :: "(string \<times> string) list \<Rightarrow> string \<Rightarrow> string" where
  "label_at L k = (case map_of L k of None \<Rightarrow> '''' | Some v \<Rightarrow> v)"

definition set_label :: "string \<Rightarrow> string \<Rightarrow> label_state \<Rightarrow> label_state" where
  "set_label k v = (\<lambda>(L, changed). if label_at L k \<noteq> v then (AList.update k v L, True) else (L, changed))"

definition remove_label :: "string \<Rightarrow> label_state \<Rightarrow> label_state" where
  "remove_label k = (\<lambda>(L, changed). if map_of L k \<noteq> None then (AList.delete k L, True) else (L, changed))"

definition switch_label :: "CXIDevice \<Rightarrow> string" where
  "switch_label d = LabelSwitchIDPrefix @ cd_name d @ LabelSwitchIDSuffix"

definition is_switch_label :: "string \<Rightarrow> bool" where
  "is_switch_label k \<longleftrightarrow> HasPrefix k LabelSwitchIDPrefix \<and> HasSuffix k LabelSwitchIDSuffix"

definition device_label :: "AgentConfig \<Rightarrow> label_state \<Rightarrow> CXIDevice \<Rightarrow> label_state" where
  "device_label c st d =
     (if cd_nid d \<noteq> InvalidNID
      then (let sid = SwitchID d (ag_mask c) in if 0 \<le> sid then set_label (switch_label d) (Itoa sid) st else st)
      else remove_label (switch_label d) st)"

definition remove_stale :: "string list \<Rightarrow> label_state \<Rightarrow> label_state" where
  "remove_stale keys = (\<lambda>(L, changed).
     (filter (\<lambda>(k, _). \<not> (is_switch_label k \<and> k \<notin> set keys)) L,
      changed \<or> list_ex (\<lambda>(k, _). is_switch_label k \<and> k \<notin> set keys) L))"

definition topology_labels :: "AgentConfig \<Rightarrow> CXIDevice list \<Rightarrow> (string \<times> string) list \<Rightarrow> label_state" where
  "topology_labels c devs L =
     remove_stale (map switch_label devs)
       (foldl (device_label c)
          (set_label LabelDeviceCount (Itoa (int (length devs)))
            (set_label LabelCXIPresent (if devs = [] then ''false'' else ''true'') (L, False)))
          devs)"

definition updateNodeLabels :: "'w node_k8s \<Rightarrow> AgentConfig \<Rightarrow> CXIDevice list \<Rightarrow> 'w writer" where
  "updateNodeLabels K c devs w =
     (case nk_get_node K (ag_node c) w of
        (w1, Inl e) \<Rightarrow> (w1, Some (wrapf ''failed to get node'' e))
      | (w1, Inr n) \<Rightarrow>
          (case topology_labels c devs (nd_labels n) of
             (L, changed) \<Rightarrow>
               if \<not> changed then (w1, None)
               else (case nk_update_node K (n\<lparr>nd_labels := L\<rparr>) w1 of
                       (w2, Some e) \<Rightarrow> (w2, Some (wrapf ''failed to update node labels'' e))
                     | (w2, None) \<Rightarrow> (w2, None))))"

section \<open>Polling\<close>

text \<open>\<open>updateDevices\<close>: errors of the reports are logged only.\<close>

definition updateDevices :: "'w node_k8s \<Rightarrow> poll_env \<Rightarrow> agent \<times> 'w \<Rightarrow> agent \<times> 'w" where
  "updateDevices K v = (\<lambda>(a, w).
     case DiscoverDevices (pv_sysfs v) of
       Inl e \<Rightarrow> (setError a (Some e), w)
     | Inr devs \<Rightarrow>
         let a' = a\<lparr>ga_devices := devs\<rparr>;
             w1 = foldl (\<lambda>w d. fst (updateCXIDeviceStatus K (ga_config a) v d w)) w devs;
             w2 = (if ag_no_labels (ga_config a) then w1
                   else fst (updateNodeLabels K (ga_config a) devs w1))
         in (a', w2))"

text \<open>The watcher polls at its start and at every tick until it is stopped.\<close>

definition runDeviceWatcher :: "'w node_k8s \<Rightarrow> poll_env list \<Rightarrow> agent \<times> 'w \<Rightarrow> agent \<times> 'w" where
  "runDeviceWatcher K vs st = foldl (\<lambda>st v. updateDevices K v st) st vs"

definition IsReady :: "agent \<Rightarrow> bool" where
  "IsReady a = ga_ready a"

definition GetDevices :: "agent \<Rightarrow> CXIDevice list" where
  "GetDevices a = ga_devices a"

text \<open>The answers of the health server: status code and body.\<close>

definition agent_healthz :: "agent \<Rightarrow> int \<times> string" where
  "agent_healthz a = (200, ''ok'' @ [CHR 0x0A])"

definition agent_readyz :: "agent \<Rightarrow> int \<times> string" where
  "agent_readyz a =
     (if IsReady a then (200, ''ready'' @ [CHR 0x0A])
      else (503, ''not ready: '' @ ga_error a @ [CHR 0x0A]))"

section \<open>Readiness\<close>

text \<open>The document of \<open>/status\<close>.\<close>

definition agent_device_entry :: "CXIDevice \<Rightarrow> string" where
  "agent_device_entry d =
     ''    {'' @ quote ''name'' @ '': '' @ quote (cd_name d) @ '', '' @ quote ''pci'' @ '': '' @ quote (cd_pci d) @
     '', '' @ quote ''numa'' @ '': '' @ Itoa (cd_numa d) @ '', '' @ quote ''link'' @ '': '' @ quote (cd_link d) @ ''}''"

fun agent_device_entries :: "CXIDevice list \<Rightarrow> string" where
  "agent_device_entries [] = []"
| "agent_device_entries (d # ds) =
     agent_device_entry d @ (if ds = [] then [] else '','') @ [CHR 0x0A] @ agent_device_entries ds"

definition agent_status_body :: "agent \<Rightarrow> string" where
  "agent_status_body a =
     ''{'' @ [CHR 0x0A] @ ''  '' @ quote ''node'' @ '': '' @ quote (ag_node (ga_config a)) @ '','' @ [CHR 0x0A] @
     ''  '' @ quote ''driverReady'' @ '': '' @ show_bool (ga_ready a) @ '','' @ [CHR 0x0A] @
     (if ga_error a = '''' then []
      else ''  '' @ quote ''lastError'' @ '': '' @ quote (ga_error a) @ '','' @ [CHR 0x0A]) @
     ''  '' @ quote ''devices'' @ '': ['' @ [CHR 0x0A] @ agent_device_entries (ga_devices a) @
     ''  ]'' @ [CHR 0x0A] @ ''}'' @ [CHR 0x0A]"

lemma updateDevices_agent:
  "fst (updateDevices K v st) =
     (case DiscoverDevices (pv_sysfs v) of
        Inl e \<Rightarrow> setError (fst st) (Some e) | Inr devs \<Rightarrow> (fst st)\<lparr>ga_devices := devs\<rparr>)"
  by (simp add: updateDevices_def Let_def split: prod.splits sum.splits)

text \<open>The error left by polls: the last failure of the discovery; a success does not clear it.\<close>

definition error_after :: "string \<Rightarrow> poll_env list \<Rightarrow> string" where
  "error_after e vs = foldl (\<lambda>e v. case DiscoverDevices (pv_sysfs v) of Inl x \<Rightarrow> x | Inr _ \<Rightarrow> e) e vs"

text \<open>
  Readiness is decided once. The agent is ready exactly if the set-up of the driver succeeded:
  no poll, whatever it finds, changes that, so after a failed set-up the agent answers 503 until
  it is restarted, although its liveness endpoint always answers 200. The error it shows is that
  of the set-up or of the last discovery that failed, also after later ones succeeded.
\<close>

lemma readiness_is_decided_once:
  "let setup = setup_driver (NewAgent c) H t;
       a = fst (runDeviceWatcher K vs (fst setup, w));
       ok = is_ok (fst (ensureDriver (ga_config (NewAgent c)) H t))
   in IsReady a = ok \<and> fst (agent_readyz a) = (if ok then 200 else 503) \<and> fst (agent_healthz a) = 200 \<and>
      ga_error a = error_after (ga_error (fst setup)) vs"
proof -
  have poll: "ga_ready (fst (runDeviceWatcher K vs st)) = ga_ready (fst st) \<and>
      ga_error (fst (runDeviceWatcher K vs st)) = error_after (ga_error (fst st)) vs" for st
  proof (induction vs arbitrary: st)
    case (Cons v vs)
    then show ?case
      by (simp add: runDeviceWatcher_def error_after_def updateDevices_agent setError_def split: sum.splits)
  qed (simp add: runDeviceWatcher_def error_after_def)
  have set_up: "ga_ready (fst (setup_driver a H t)) = is_ok (fst (ensureDriver (ga_config a) H t))" if "\<not> ga_ready a" for a
    using that by (cases "ensureDriver (ga_config a) H t")
      (auto simp: setup_driver_def setDriverReady_def setError_def is_ok_def split: sum.splits)
  have "\<not> ga_ready (NewAgent c)" by (simp add: NewAgent_def Let_def)
  note ready = set_up [OF this]
  show ?thesis
    unfolding Let_def IsReady_def agent_readyz_def agent_healthz_def
    using poll [of "(fst (setup_driver (NewAgent c) H t), w)"] by (simp only: ready fst_conv if_distrib) simp
qed

section \<open>The labels are those of the topology\<close>

text \<open>
  The labels a node should have: presence, count, and a switch for each device with a node
  identifier; no other switch labels; every other label as it was.
\<close>

definition wanted_labels :: "AgentConfig \<Rightarrow> CXIDevice list \<Rightarrow> (string \<rightharpoonup> string) \<Rightarrow> (string \<rightharpoonup> string)" where
  "wanted_labels c devs m k =
     (if k = LabelCXIPresent then Some (if devs = [] then ''false'' else ''true'')
      else if k = LabelDeviceCount then Some (Itoa (int (length devs)))
      else if is_switch_label k then
        (case find (\<lambda>d. switch_label d = k) devs of
           None \<Rightarrow> None
         | Some d \<Rightarrow> if cd_nid d = InvalidNID then None else Some (Itoa (SwitchID d (ag_mask c))))
      else m k)"

text \<open>
  A step towards the labels \<open>E\<close>: at some keys the value becomes that of \<open>E\<close>, and the flag is raised
  exactly if this is a change. Such steps compose.
\<close>

definition moves :: "(string \<rightharpoonup> string) \<Rightarrow> string set \<Rightarrow> label_state \<Rightarrow> label_state \<Rightarrow> bool" where
  "moves E S st st' \<longleftrightarrow>
     (\<forall>k. map_of (fst st') k = (if k \<in> S then E k else map_of (fst st) k)) \<and>
     (snd st' \<longleftrightarrow> snd st \<or> (\<exists>k\<in>S. map_of (fst st) k \<noteq> E k))"

lemma moves_trans: "moves E S a b \<Longrightarrow> moves E S' b d \<Longrightarrow> moves E (S \<union> S') a d"
  unfolding moves_def by (intro conjI allI) (auto split: if_splits)

lemma moves_set_label: "v \<noteq> '''' \<Longrightarrow> E k = Some v \<Longrightarrow> moves E {k} st (set_label k v st)"
  by (auto simp: moves_def set_label_def label_at_def update_conv' split: prod.splits option.splits)

lemma moves_remove_label: "E k = None \<Longrightarrow> moves E {k} st (remove_label k st)"
  by (auto simp: moves_def remove_label_def delete_conv' split: prod.splits)

lemma map_of_filter_keys: "map_of (filter (\<lambda>(k, v). P k) L) k = (if P k then map_of L k else None)"
  by (induction L) auto

lemma moves_remove_stale:
  assumes "\<And>k. is_switch_label k \<Longrightarrow> k \<notin> set ks \<Longrightarrow> E k = None"
  shows "moves E {k. is_switch_label k \<and> k \<notin> set ks} st (remove_stale ks st)"
proof -
  obtain L b where st: "st = (L, b)" by (cases st)
  have "list_ex (\<lambda>(k, _). is_switch_label k \<and> k \<notin> set ks) L \<longleftrightarrow>
      (\<exists>k. is_switch_label k \<and> k \<notin> set ks \<and> map_of L k \<noteq> None)"
    by (force simp: list_ex_iff map_of_eq_None_iff)
  then show ?thesis
    using assms by (auto simp: moves_def remove_stale_def st map_of_filter_keys)
qed

lemma is_switch_label_switch [simp]: "is_switch_label (switch_label d)"
  using HasSuffix_append [of "LabelSwitchIDPrefix @ cd_name d" LabelSwitchIDSuffix]
  by (simp add: is_switch_label_def switch_label_def)

lemma not_switch_label [simp]: "\<not> is_switch_label LabelCXIPresent" "\<not> is_switch_label LabelDeviceCount"
  by (simp_all add: is_switch_label_def HasSuffix_def suffix_def Cons_eq_append_conv)

lemma switch_label_inject: "switch_label d = switch_label d' \<longleftrightarrow> cd_name d = cd_name d'"
  by (simp add: switch_label_def)

lemma wanted_switch:
  assumes "distinct (map cd_name devs)" and "d \<in> set devs"
  shows "wanted_labels c devs m (switch_label d) =
    (if cd_nid d = InvalidNID then None else Some (Itoa (SwitchID d (ag_mask c))))"
proof -
  have "switch_label d \<noteq> LabelCXIPresent" "switch_label d \<noteq> LabelDeviceCount"
    using is_switch_label_switch [of d] not_switch_label by metis+
  moreover have "find (\<lambda>x. switch_label x = switch_label d) devs = Some d"
    using assms by (induction devs) (auto simp: switch_label_inject)
  ultimately show ?thesis by (simp add: wanted_labels_def)
qed

lemma moves_device_label:
  assumes "E (switch_label d) = (if cd_nid d = InvalidNID then None else Some (Itoa (SwitchID d (ag_mask c))))"
  shows "moves E {switch_label d} st (device_label c st d)"
  using assms Itoa_no_space(2) moves_set_label [of _ E "switch_label d"] moves_remove_label [of E "switch_label d"]
  by (auto simp: device_label_def Let_def SwitchID_def)

lemma moves_devices:
  assumes "\<And>d. d \<in> set ds \<Longrightarrow>
      E (switch_label d) = (if cd_nid d = InvalidNID then None else Some (Itoa (SwitchID d (ag_mask c))))"
  shows "moves E (switch_label ` set ds) st (foldl (device_label c) st ds)"
  using assms
proof (induction ds arbitrary: st)
  case (Cons d ds)
  then have "moves E ({switch_label d} \<union> switch_label ` set ds) st (foldl (device_label c) (device_label c st d) ds)"
    using moves_trans [OF moves_device_label [of E d c st]] by simp
  then show ?case by simp
qed (simp add: moves_def)

lemma topology_labels_moves:
  assumes "distinct (map cd_name devs)"
  shows "moves (wanted_labels c devs (map_of L))
    ({LabelCXIPresent, LabelDeviceCount} \<union> {k. is_switch_label k}) (L, False) (topology_labels c devs L)"
proof -
  let ?E = "wanted_labels c devs (map_of L)"
  let ?s1 = "set_label LabelCXIPresent (if devs = [] then ''false'' else ''true'') (L, False)"
  let ?s2 = "set_label LabelDeviceCount (Itoa (int (length devs))) ?s1"
  have 1: "moves ?E {LabelCXIPresent} (L, False) ?s1"
    by (intro moves_set_label) (simp_all add: wanted_labels_def)
  have 2: "moves ?E {LabelDeviceCount} ?s1 ?s2"
    using Itoa_no_space(2) by (intro moves_set_label) (simp_all add: wanted_labels_def)
  have 3: "moves ?E (switch_label ` set devs) ?s2 (foldl (device_label c) ?s2 devs)"
    by (rule moves_devices) (simp add: wanted_switch [OF assms])
  have "?E k = None" if "is_switch_label k" "k \<notin> set (map switch_label devs)" for k
  proof -
    have "find (\<lambda>d. switch_label d = k) devs = None" using that by (auto simp: find_None_iff)
    with that(1) show ?thesis using not_switch_label by (auto simp: wanted_labels_def)
  qed
  then have 4: "moves ?E {k. is_switch_label k \<and> k \<notin> set (map switch_label devs)}
      (foldl (device_label c) ?s2 devs) (topology_labels c devs L)"
    unfolding topology_labels_def by (rule moves_remove_stale)
  have keys: "{LabelCXIPresent} \<union> {LabelDeviceCount} \<union> switch_label ` set devs \<union>
      {k. is_switch_label k \<and> k \<notin> set (map switch_label devs)} =
      {LabelCXIPresent, LabelDeviceCount} \<union> {k. is_switch_label k}"
    by auto
  from moves_trans [OF moves_trans [OF moves_trans [OF 1 2] 3] 4] show ?thesis
    unfolding keys .
qed

lemma topology_labels_exact:
  assumes "distinct (map cd_name devs)"
  shows "map_of (fst (topology_labels c devs L)) = wanted_labels c devs (map_of L)"
    and "snd (topology_labels c devs L) \<longleftrightarrow> wanted_labels c devs (map_of L) \<noteq> map_of L"
proof -
  define E where "E = wanted_labels c devs (map_of L)"
  define S where "S = {LabelCXIPresent, LabelDeviceCount} \<union> {k. is_switch_label k}"
  define T where "T = topology_labels c devs L"
  have other: "E k = map_of L k" if "k \<notin> S" for k
    using that unfolding S_def E_def by (simp add: wanted_labels_def)
  have T: "\<And>k. map_of (fst T) k = (if k \<in> S then E k else map_of L k)" "snd T \<longleftrightarrow> (\<exists>k\<in>S. map_of L k \<noteq> E k)"
    using topology_labels_moves [OF assms, of c L] unfolding moves_def E_def [symmetric] S_def [symmetric] T_def [symmetric]
    by simp_all
  have "map_of (fst T) k = E k" for k using T(1) other by (cases "k \<in> S") simp_all
  then show "map_of (fst (topology_labels c devs L)) = wanted_labels c devs (map_of L)"
    unfolding E_def T_def by (rule ext)
  have "snd T \<longleftrightarrow> E \<noteq> map_of L" using T(2) other by (metis ext)
  then show "snd (topology_labels c devs L) \<longleftrightarrow> wanted_labels c devs (map_of L) \<noteq> map_of L"
    unfolding E_def T_def .
qed

lemma wanted_labels_twice: "wanted_labels c devs (wanted_labels c devs m) = wanted_labels c devs m"
  by (auto simp: wanted_labels_def fun_eq_iff)
section \<open>Reports through the client\<close>

text \<open>The objects are stored under their names.\<close>

definition named :: "node_cluster \<Rightarrow> bool" where
  "named c \<longleftrightarrow> (\<forall>k n. nc_nodes c k = Some n \<longrightarrow> nd_name n = k) \<and>
     (\<forall>k d. nc_devices c k = Some d \<longrightarrow> dev_name d = k)"

lemma reads_ok: "reads view look g \<Longrightarrow> g w = (w', Inr x) \<Longrightarrow> view w' = view w \<and> look (view w) = Some x"
  by (fastforce simp: reads_def)

lemma reads_not_found:
  "reads view look g \<Longrightarrow> g w = (w', Inl e) \<Longrightarrow> IsNotFound e \<Longrightarrow> view w' = view w \<and> look (view w) = None"
  by (fastforce simp: reads_def)

lemma writes_ok: "writes view pre eff g \<Longrightarrow> g w = (w', None) \<Longrightarrow> pre (view w) \<and> view w' = eff (view w)"
  by (fastforce simp: writes_def)

context node_api
begin

lemma updateNodeLabels_ok:
  assumes "updateNodeLabels K c devs w = (w', None)" and "named (view w)"
  shows "\<exists>n L. nc_nodes (view w) (ag_node c) = Some n \<and>
    view w' = (view w)\<lparr>nc_nodes := (nc_nodes (view w))(ag_node c \<mapsto> n\<lparr>nd_labels := L\<rparr>)\<rparr> \<and>
    L = (if snd (topology_labels c devs (nd_labels n)) then fst (topology_labels c devs (nd_labels n)) else nd_labels n)"
proof -
  obtain w1 n where get: "nk_get_node K (ag_node c) w = (w1, Inr n)"
    using assms(1) by (auto simp: updateNodeLabels_def split: prod.splits sum.splits)
  from reads_ok [OF get_node get] have n: "view w1 = view w" "nc_nodes (view w) (ag_node c) = Some n" by simp_all
  with assms(2) have name: "nd_name n = ag_node c" by (simp add: named_def)
  obtain L changed where T: "topology_labels c devs (nd_labels n) = (L, changed)" by (cases "topology_labels c devs (nd_labels n)")
  show ?thesis
  proof (cases changed)
    case True
    then have "nk_update_node K (n\<lparr>nd_labels := L\<rparr>) w1 = (w', None)"
      using assms(1) by (simp add: updateNodeLabels_def get T split: prod.splits option.splits)
    from writes_ok [OF update_node this] have "view w' = eff_update_node (n\<lparr>nd_labels := L\<rparr>) (view w)"
      using n by simp
    with True n T name show ?thesis by (simp add: eff_update_node_def)
  next
    case False
    then have "w' = w1" using assms(1) by (simp add: updateNodeLabels_def get T)
    with False n T show ?thesis by (simp add: fun_upd_idem)
  qed
qed

lemma put_device_status_ok:
  assumes "put_device_status K c v d x w = (w', None)"
  shows "\<exists>old. nc_devices (view w) (dev_name x) = Some old \<and>
    view w' = (view w)\<lparr>nc_devices := (nc_devices (view w))(dev_name x \<mapsto> old\<lparr>dev_status := device_status c v d\<rparr>)\<rparr>"
proof -
  have "nk_update_status K (x\<lparr>dev_status := device_status c v d\<rparr>) w = (w', None)"
    using assms by (simp add: put_device_status_def split: prod.splits option.splits)
  from writes_ok [OF update_status this] show ?thesis
    by (auto simp: eff_device_status_def)
qed

lemma updateCXIDeviceStatus_ok:
  assumes "updateCXIDeviceStatus K c v d w = (w', None)" and "named (view w)"
  shows "view w' = (view w)\<lparr>nc_devices := (nc_devices (view w))(device_object_name c d \<mapsto>
    (case nc_devices (view w) (device_object_name c d) of None \<Rightarrow> new_device_object c d | Some old \<Rightarrow> old)
      \<lparr>dev_status := device_status c v d\<rparr>)\<rparr>"
proof (cases "nk_get_device K (device_object_name c d) w")
  case (Pair w1 r)
  show ?thesis
  proof (cases r)
    case (Inr x)
    with reads_ok [OF get_device] Pair
    have x: "view w1 = view w" "nc_devices (view w) (device_object_name c d) = Some x" by blast+
    with assms(2) have name: "dev_name x = device_object_name c d" by (simp add: named_def)
    have "put_device_status K c v d x w1 = (w', None)"
      using assms(1) Pair Inr by (simp add: updateCXIDeviceStatus_def)
    from put_device_status_ok [OF this] x name show ?thesis by auto
  next
    case (Inl e)
    then have e: "IsNotFound e" using assms(1) Pair by (auto simp: updateCXIDeviceStatus_def split: if_splits)
    with reads_not_found [OF get_device] Pair Inl
    have none: "view w1 = view w" "nc_devices (view w) (device_object_name c d) = None" by blast+
    obtain w2 where create: "nk_create_device K (new_device_object c d) w1 = (w2, None)"
      and put: "put_device_status K c v d (new_device_object c d) w2 = (w', None)"
      using assms(1) Pair Inl e by (auto simp: updateCXIDeviceStatus_def split: prod.splits option.splits)
    from writes_ok [OF create_device create] have "view w2 = eff_create_device (new_device_object c d) (view w)"
      using none by simp
    with put_device_status_ok [OF put] none show ?thesis
      by (auto simp: eff_create_device_def new_device_object_def)
  qed
qed

end

text \<open>
  C37: The node carries exactly the labels of its topology. When the labels were updated without
  an error, the node is stored with the labels wanted for the devices found and is otherwise
  unchanged, as is everything else; the request is only made if a label changes, and a second
  update with the same devices finds nothing to do.
\<close>

theorem node_labels_are_exact:
  assumes "node_api K view" and "named (view w)" and "distinct (map cd_name devs)"
    and "updateNodeLabels K c devs w = (w', None)"
  shows "\<exists>n L. nc_nodes (view w) (ag_node c) = Some n \<and>
    view w' = (view w)\<lparr>nc_nodes := (nc_nodes (view w))(ag_node c \<mapsto> n\<lparr>nd_labels := L\<rparr>)\<rparr> \<and>
    map_of L = wanted_labels c devs (map_of (nd_labels n)) \<and>
    (snd (topology_labels c devs (nd_labels n)) \<longleftrightarrow> map_of L \<noteq> map_of (nd_labels n)) \<and>
    \<not> snd (topology_labels c devs L)"
proof -
  obtain n L where nL: "nc_nodes (view w) (ag_node c) = Some n"
    "view w' = (view w)\<lparr>nc_nodes := (nc_nodes (view w))(ag_node c \<mapsto> n\<lparr>nd_labels := L\<rparr>)\<rparr>"
    "L = (if snd (topology_labels c devs (nd_labels n)) then fst (topology_labels c devs (nd_labels n)) else nd_labels n)"
    using node_api.updateNodeLabels_ok [OF assms(1,4,2)] by blast
  have L: "map_of L = wanted_labels c devs (map_of (nd_labels n))"
    using nL(3) topology_labels_exact [OF assms(3), of c "nd_labels n"] by auto
  with nL(1,2) topology_labels_exact(2) [OF assms(3), of c] wanted_labels_twice [of c devs]
  show ?thesis by (metis (no_types, lifting))
qed

definition agent_config :: AgentConfig where
  "agent_config = ga_config (NewAgent (sample_agent_config DriverSource_preinstalled))"

definition sample_cluster :: node_cluster where
  "sample_cluster =
     \<lparr>nc_devices = Map.empty,
      nc_nodes = [''n1'' \<mapsto> \<lparr>nd_name = ''n1'', nd_labels = [(''kubernetes.io/os'', ''linux''),
        (''slingshot.hpe.com/cxi9-switch-id'', ''64'')], nd_rest = ''''\<rparr>]\<rparr>"

lemma sample_named: "named sample_cluster"
  by (simp add: named_def sample_cluster_def)

theorem node_labels_are_exact_witness:
  "\<exists>n L. nc_nodes (fst (fst (updateNodeLabels ref_node agent_config [sample_device ''cxi0'' ''0000:41:00.0'']
       (sample_cluster, [])))) ''n1'' = Some (n\<lparr>nd_labels := L\<rparr>) \<and>
     map_of L = wanted_labels agent_config [sample_device ''cxi0'' ''0000:41:00.0''] (map_of (nd_labels n))"
proof -
  let ?w = "(sample_cluster, [])" and ?d = "[sample_device ''cxi0'' ''0000:41:00.0'']"
  have node: "ag_node agent_config = ''n1''"
    by (simp add: agent_config_def NewAgent_def sample_agent_config_def Let_def)
  have "snd (updateNodeLabels ref_node agent_config ?d ?w) = None"
    by (simp add: updateNodeLabels_def ref_node_def ref_read_def ref_write_def next_fault_def node
        sample_cluster_def split: prod.splits)
  then obtain w' where w': "updateNodeLabels ref_node agent_config ?d ?w = (w', None)"
    by (metis prod.collapse)
  have "node_api ref_node fst" by (rule ref_node.node_api_axioms)
  moreover have "distinct (map cd_name ?d)" by simp
  ultimately obtain n L where "fst w' = sample_cluster\<lparr>nc_nodes := (nc_nodes sample_cluster)(''n1'' \<mapsto> n\<lparr>nd_labels := L\<rparr>)\<rparr>"
    "map_of L = wanted_labels agent_config ?d (map_of (nd_labels n))"
    using node_labels_are_exact [OF _ _ _ w'] sample_named node by fastforce
  then show ?thesis by (intro exI [of _ n] exI [of _ L]) (simp add: w')
qed

text \<open>
  C38: The device object reports what was found. When the status of a device was updated without an
  error, its object exists, newly made with its labels if there was none, and its status is the
  one computed from the scan; nothing else changed. The health is unhealthy, unknown or healthy
  exactly where the metrics exporter shows the link as down, unknown or up.
\<close>

theorem device_object_reports_scan:
  assumes "node_api K view" and "named (view w)" and "updateCXIDeviceStatus K c v d w = (w', None)"
  shows "view w' = (view w)\<lparr>nc_devices := (nc_devices (view w))(device_object_name c d \<mapsto>
      (case nc_devices (view w) (device_object_name c d) of None \<Rightarrow> new_device_object c d | Some old \<Rightarrow> old)
        \<lparr>dev_status := device_status c v d\<rparr>)\<rparr> \<and>
    named (view w') \<and>
    (dh_status (cds_health (device_status c v d)) = HealthStatusUnhealthy \<longleftrightarrow> link_value (cd_link d) = 0) \<and>
    (dh_status (cds_health (device_status c v d)) = HealthStatusUnknown \<longleftrightarrow> link_value (cd_link d) = -1) \<and>
    (dh_status (cds_health (device_status c v d)) = HealthStatusHealthy \<longleftrightarrow> link_value (cd_link d) = 1)"
proof -
  have stored: "view w' = (view w)\<lparr>nc_devices := (nc_devices (view w))(device_object_name c d \<mapsto>
      (case nc_devices (view w) (device_object_name c d) of None \<Rightarrow> new_device_object c d | Some old \<Rightarrow> old)
        \<lparr>dev_status := device_status c v d\<rparr>)\<rparr>"
    by (rule node_api.updateCXIDeviceStatus_ok [OF assms(1,3,2)])
  moreover have "named (view w')"
    unfolding stored using assms(2)
    by (auto simp: named_def new_device_object_def split: option.splits)
  ultimately show ?thesis
    by (auto simp: device_status_def health_status_def link_state_def link_value_def)
qed

definition sample_poll :: poll_env where
  "sample_poll = \<lparr>pv_sysfs = \<lparr>sf_class = DirNotExist, sf_readlink = Map.empty, sf_readfile = Map.empty\<rparr>,
     pv_version_file = Some ''1.0'', pv_now = 0\<rparr>"

theorem device_object_reports_scan_witness:
  "nc_devices (fst (fst (updateCXIDeviceStatus ref_node agent_config sample_poll
       (sample_device ''cxi0'' ''0000:41:00.0'') (sample_cluster, [])))) ''n1-cxi0'' \<noteq> None"
proof -
  let ?w = "(sample_cluster, [])" and ?d = "sample_device ''cxi0'' ''0000:41:00.0''"
  have name: "device_object_name agent_config ?d = ''n1-cxi0''"
    by (simp add: device_object_name_def agent_config_def NewAgent_def sample_agent_config_def Let_def sample_device_def)
  have "snd (updateCXIDeviceStatus ref_node agent_config sample_poll ?d ?w) = None"
    by (simp add: updateCXIDeviceStatus_def put_device_status_def ref_node_def ref_read_def ref_write_def
        next_fault_def name sample_cluster_def server_error_def IsNotFound_def new_device_object_def
        eff_create_device_def)
  then obtain w' where w': "updateCXIDeviceStatus ref_node agent_config sample_poll ?d ?w = (w', None)"
    by (metis prod.collapse)
  have "node_api ref_node fst" by (rule ref_node.node_api_axioms)
  from device_object_reports_scan [OF this _ w'] sample_named show ?thesis
    by (simp add: w' name)
qed

section \<open>Labels across nodes\<close>

lemma labels_after_update:
  assumes "node_api K view" and "named (view w)" and "distinct (map cd_name devs)"
    and "updateNodeLabels K c devs w = (w', None)"
  obtains n m where "nc_nodes (view w') = (nc_nodes (view w))(ag_node c \<mapsto> n)" and "named (view w')"
    and "map_of (nd_labels n) = wanted_labels c devs m"
proof -
  obtain n L where nL: "nc_nodes (view w) (ag_node c) = Some n"
    "view w' = (view w)\<lparr>nc_nodes := (nc_nodes (view w))(ag_node c \<mapsto> n\<lparr>nd_labels := L\<rparr>)\<rparr>"
    "L = (if snd (topology_labels c devs (nd_labels n)) then fst (topology_labels c devs (nd_labels n)) else nd_labels n)"
    using node_api.updateNodeLabels_ok [OF assms(1,4,2)] by blast
  have "map_of L = wanted_labels c devs (map_of (nd_labels n))"
    using nL(3) topology_labels_exact [OF assms(3), of c "nd_labels n"] by auto
  moreover have "named (view w')" using assms(2) nL(1) unfolding nL(2) by (auto simp: named_def)
  ultimately show thesis using that [of "n\<lparr>nd_labels := L\<rparr>"] nL(2) by simp
qed

lemma SwitchID_nonneg: "cd_nid d \<noteq> InvalidNID \<Longrightarrow> 0 \<le> SwitchID d m"
  by (simp add: SwitchID_def)

lemma SwitchID_eq_iff:
  assumes "cd_nid d \<noteq> InvalidNID" and "cd_nid e \<noteq> InvalidNID"
  shows "SwitchID d DefaultSwitchIDMask = SwitchID e DefaultSwitchIDMask \<longleftrightarrow>
    (\<forall>i. 6 \<le> i \<and> i < 20 \<longrightarrow> bit (cd_nid d) i = bit (cd_nid e) i)"
  using assms same_switch_bits [of "cd_nid d" "cd_nid e"] by (simp add: SwitchID_def word_uint_eq_iff del: uint_and)

text \<open>
  C30: The labels of two nodes tell whether two of their devices share a switch. After an agent on
  each of the nodes has updated its labels, one after the other and both without an error, the
  node of each carries a switch label for its device (one with an identifier), and these labels are
  equal exactly if the identifiers agree in the bits that name the switch.
\<close>

theorem switch_labels_group_nodes:
  assumes "node_api K view" and "named (view w)" and "ag_node c \<noteq> ag_node c'"
    and "ag_mask c = DefaultSwitchIDMask" and "ag_mask c' = DefaultSwitchIDMask"
    and "distinct (map cd_name devs)" and "distinct (map cd_name devs')"
    and "updateNodeLabels K c devs w = (w1, None)" and "updateNodeLabels K c' devs' w1 = (w2, None)"
    and "d \<in> set devs" and "cd_nid d \<noteq> InvalidNID" and "e \<in> set devs'" and "cd_nid e \<noteq> InvalidNID"
  shows "\<exists>n n' s s'. nc_nodes (view w2) (ag_node c) = Some n \<and> nc_nodes (view w2) (ag_node c') = Some n' \<and>
    map_of (nd_labels n) (switch_label d) = Some s \<and> map_of (nd_labels n') (switch_label e) = Some s' \<and>
    (s = s' \<longleftrightarrow> (\<forall>i. 6 \<le> i \<and> i < 20 \<longrightarrow> bit (cd_nid d) i = bit (cd_nid e) i))"
proof -
  obtain n m where n: "nc_nodes (view w1) = (nc_nodes (view w))(ag_node c \<mapsto> n)" "named (view w1)"
    "map_of (nd_labels n) = wanted_labels c devs m"
    using labels_after_update [OF assms(1,2,6,8)] .
  obtain n' m' where n': "nc_nodes (view w2) = (nc_nodes (view w1))(ag_node c' \<mapsto> n')"
    "map_of (nd_labels n') = wanted_labels c' devs' m'"
    using labels_after_update [OF assms(1) n(2) assms(7,9)] by metis
  have "Itoa (SwitchID d DefaultSwitchIDMask) = Itoa (SwitchID e DefaultSwitchIDMask) \<longleftrightarrow>
      (\<forall>i. 6 \<le> i \<and> i < 20 \<longrightarrow> bit (cd_nid d) i = bit (cd_nid e) i)"
    using SwitchID_eq_iff [OF assms(11,13)] Itoa_nonneg_inject SwitchID_nonneg assms(11,13) by metis
  moreover have "map_of (nd_labels n) (switch_label d) = Some (Itoa (SwitchID d DefaultSwitchIDMask))"
    "map_of (nd_labels n') (switch_label e) = Some (Itoa (SwitchID e DefaultSwitchIDMask))"
    using wanted_switch [OF assms(6,10)] wanted_switch [OF assms(7,12)] n(3) n'(2) assms(4,5,11,13) by simp_all
  ultimately show ?thesis using n(1) n'(1) assms(3) by simp
qed

text \<open>On the reference server without failures, an update of a node that exists succeeds.\<close>

lemma ref_update_succeeds:
  assumes "nc_nodes cl (ag_node c) = Some n" and "nd_name n = ag_node c"
  shows "\<exists>cl'. updateNodeLabels ref_node c devs (cl, []) = ((cl', []), None)"
  using assms
  by (simp add: updateNodeLabels_def ref_node_def ref_read_def ref_write_def next_fault_def split: prod.splits)

definition two_nodes :: node_cluster where
  "two_nodes =
     \<lparr>nc_devices = Map.empty,
      nc_nodes = [''n1'' \<mapsto> \<lparr>nd_name = ''n1'', nd_labels = [], nd_rest = ''''\<rparr>,
        ''n2'' \<mapsto> \<lparr>nd_name = ''n2'', nd_labels = [], nd_rest = ''''\<rparr>]\<rparr>"

text \<open>Two nodes whose devices have the identifiers \<open>0x12345\<close> and \<open>0x1237F\<close>, behind one switch.\<close>

theorem switch_labels_group_nodes_witness:
  "\<exists>cl n n' s.
     fst (updateNodeLabels ref_node (agent_config\<lparr>ag_node := ''n2''\<rparr>)
       [(sample_device ''cxi0'' '''')\<lparr>cd_nid := 0x1237F\<rparr>]
       (fst (updateNodeLabels ref_node agent_config [(sample_device ''cxi0'' '''')\<lparr>cd_nid := 0x12345\<rparr>] (two_nodes, [])))) =
       (cl, []) \<and>
     nc_nodes cl ''n1'' = Some n \<and> nc_nodes cl ''n2'' = Some n' \<and>
     map_of (nd_labels n) ''slingshot.hpe.com/cxi0-switch-id'' = Some s \<and>
     map_of (nd_labels n') ''slingshot.hpe.com/cxi0-switch-id'' = Some s"
proof -
  let ?c = agent_config and ?c' = "agent_config\<lparr>ag_node := ''n2''\<rparr>"
  let ?d = "(sample_device ''cxi0'' '''')\<lparr>cd_nid := 0x12345\<rparr>" and ?e = "(sample_device ''cxi0'' '''')\<lparr>cd_nid := 0x1237F\<rparr>"
  have agents: "ag_node ?c = ''n1''" "ag_node ?c' = ''n2''"
    "ag_mask ?c = DefaultSwitchIDMask" "ag_mask ?c' = DefaultSwitchIDMask"
    by (simp_all add: agent_config_def NewAgent_def sample_agent_config_def Let_def)
  have api: "node_api ref_node fst" by (rule ref_node.node_api_axioms)
  have named: "named (fst (two_nodes, [] :: fault list))" by (simp add: named_def two_nodes_def)
  have names: "distinct (map cd_name [?d])" "distinct (map cd_name [?e])" by simp_all
  obtain cl1 where u1: "updateNodeLabels ref_node ?c [?d] (two_nodes, []) = ((cl1, []), None)"
    using ref_update_succeeds [of two_nodes ?c _ "[?d]"] agents(1) by (auto simp: two_nodes_def)
  from labels_after_update [OF api named names(1) u1]
  obtain n where "nc_nodes cl1 = (nc_nodes two_nodes)(''n1'' \<mapsto> n)" using agents(1) by auto
  then have "nc_nodes cl1 ''n2'' = Some \<lparr>nd_name = ''n2'', nd_labels = [], nd_rest = ''''\<rparr>"
    by (simp add: two_nodes_def)
  then obtain cl2 where u2: "updateNodeLabels ref_node ?c' [?e] (cl1, []) = ((cl2, []), None)"
    using ref_update_succeeds [of cl1 ?c' _ "[?e]"] agents(2) by fastforce
  have "(0x12345 :: u32) AND DefaultSwitchIDMask = 0x1237F AND DefaultSwitchIDMask" by simp
  then have bits: "\<forall>i. 6 \<le> i \<and> i < 20 \<longrightarrow> bit (cd_nid ?d) i = bit (cd_nid ?e) i"
    by (simp only: same_switch_bits) simp
  have label: "switch_label ?d = ''slingshot.hpe.com/cxi0-switch-id''" "switch_label ?e = ''slingshot.hpe.com/cxi0-switch-id''"
    by (simp_all add: switch_label_def sample_device_def)
  have ids: "cd_nid ?d \<noteq> InvalidNID" "cd_nid ?e \<noteq> InvalidNID" "ag_node ?c \<noteq> ag_node ?c'"
    by (simp_all add: agents)
  show ?thesis
    using switch_labels_group_nodes [OF api named ids(3) agents(3,4) names u1 u2 list.set_intros(1) ids(1)
        list.set_intros(1) ids(2)] bits unfolding agents label u1 u2 fst_conv by auto
qed

end
