(* ===== verification/Lifecycle.thy ===== *)
theory Lifecycle
  imports NodeReport
begin

text \<open>
  How the exporter and the driver agent run and stop: both start a goroutine that works once and
  then at every tick, one that serves HTTP, and one that shuts the server down when the stop channel
  is closed; \<open>Stop\<close> closes the channel and waits for the first two. The goroutines are one step
  relation, over the work of either program; a locale carries what is true of both.
\<close>

section \<open>Goroutines\<close>

datatype worker_pc = FirstWork | Selecting | WorkerDone
datatype server_pc = Serving | ServerDone
datatype helper_pc = AwaitingStop | ShuttingDown | HelperDone
datatype main_pc = NotStopped | AwaitingGroup | StopReturned

record 's service =
  sv_state :: 's
  sv_stop :: bool
  sv_worker :: worker_pc
  sv_server :: server_pc
  sv_helper :: helper_pc
  sv_main :: main_pc

text \<open>What \<open>Start\<close> leaves running.\<close>

definition start_service :: "'s \<Rightarrow> 's service" where
  "start_service x =
     \<lparr>sv_state = x, sv_stop = False, sv_worker = FirstWork, sv_server = Serving,
      sv_helper = AwaitingStop, sv_main = NotStopped\<rparr>"

text \<open>
  A tick is chosen like any other ready case of the \<open>select\<close>, also when the channel is closed. The
  server returns when \<open>Shutdown\<close> was called, or earlier when it cannot listen.
\<close>

datatype label = Tick | Internal

inductive service_step :: "('e \<Rightarrow> 's \<Rightarrow> 's) \<Rightarrow> label \<Rightarrow> 's service \<Rightarrow> 's service \<Rightarrow> bool"
  for work :: "'e \<Rightarrow> 's \<Rightarrow> 's" where
  first_work: "sv_worker s = FirstWork \<Longrightarrow>
    service_step work Internal s (s\<lparr>sv_state := work v (sv_state s), sv_worker := Selecting\<rparr>)"
| tick: "sv_worker s = Selecting \<Longrightarrow>
    service_step work Tick s (s\<lparr>sv_state := work v (sv_state s)\<rparr>)"
| worker_stops: "sv_worker s = Selecting \<Longrightarrow> sv_stop s \<Longrightarrow>
    service_step work Internal s (s\<lparr>sv_worker := WorkerDone\<rparr>)"
| server_fails: "sv_server s = Serving \<Longrightarrow> service_step work Internal s (s\<lparr>sv_server := ServerDone\<rparr>)"
| server_closed: "sv_server s = Serving \<Longrightarrow> sv_helper s \<noteq> AwaitingStop \<Longrightarrow>
    service_step work Internal s (s\<lparr>sv_server := ServerDone\<rparr>)"
| helper_wakes: "sv_helper s = AwaitingStop \<Longrightarrow> sv_stop s \<Longrightarrow>
    service_step work Internal s (s\<lparr>sv_helper := ShuttingDown\<rparr>)"
| helper_done: "sv_helper s = ShuttingDown \<Longrightarrow>
    service_step work Internal s (s\<lparr>sv_helper := HelperDone\<rparr>)"
| stop_called: "sv_main s = NotStopped \<Longrightarrow>
    service_step work Internal s (s\<lparr>sv_stop := True, sv_main := AwaitingGroup\<rparr>)"
| stop_returns: "sv_main s = AwaitingGroup \<Longrightarrow> sv_worker s = WorkerDone \<Longrightarrow> sv_server s = ServerDone \<Longrightarrow>
    service_step work Internal s (s\<lparr>sv_main := StopReturned\<rparr>)"

inductive_cases service_stepE: "service_step work l s s'"

inductive service_reach :: "('e \<Rightarrow> 's \<Rightarrow> 's) \<Rightarrow> 's \<Rightarrow> 's service \<Rightarrow> bool"
  for work :: "'e \<Rightarrow> 's \<Rightarrow> 's" and x :: 's where
  started: "service_reach work x (start_service x)"
| stepped: "service_reach work x s \<Longrightarrow> service_step work l s s' \<Longrightarrow> service_reach work x s'"

text \<open>The two programs: the exporter scrapes, the agent updates its devices.\<close>

abbreviation exporter_reach :: "scrape_state \<Rightarrow> scrape_state service \<Rightarrow> bool" where
  "exporter_reach \<equiv> service_reach scrape"

abbreviation agent_reach :: "'w node_k8s \<Rightarrow> agent \<times> 'w \<Rightarrow> (agent \<times> 'w) service \<Rightarrow> bool" where
  "agent_reach K \<equiv> service_reach (updateDevices K)"

section \<open>What is true of both\<close>

text \<open>The goroutines that \<open>Stop\<close> still has to wait for, and its own steps.\<close>

fun worker_rank :: "worker_pc \<Rightarrow> nat" where
  "worker_rank FirstWork = 2" | "worker_rank Selecting = 1" | "worker_rank WorkerDone = 0"

fun helper_rank :: "helper_pc \<Rightarrow> nat" where
  "helper_rank AwaitingStop = 2" | "helper_rank ShuttingDown = 1" | "helper_rank HelperDone = 0"

definition service_rank :: "'s service \<Rightarrow> nat" where
  "service_rank s =
     worker_rank (sv_worker s) + (if sv_server s = Serving then 1 else 0) + helper_rank (sv_helper s) +
     (if sv_main s = StopReturned then 0 else 1)"

definition service_inv :: "'s service \<Rightarrow> bool" where
  "service_inv s \<longleftrightarrow>
     (sv_stop s \<longleftrightarrow> sv_main s \<noteq> NotStopped) \<and> (sv_worker s = WorkerDone \<longrightarrow> sv_stop s) \<and>
     (sv_helper s \<noteq> AwaitingStop \<longrightarrow> sv_stop s) \<and>
     (sv_main s = StopReturned \<longrightarrow> sv_worker s = WorkerDone \<and> sv_server s = ServerDone)"

locale service_work =
  fixes work :: "'e \<Rightarrow> 's \<Rightarrow> 's" and keeps :: "'s \<Rightarrow> 's \<Rightarrow> bool"
  assumes keeps_refl: "keeps x x"
    and keeps_work: "keeps x y \<Longrightarrow> keeps x (work v y)"
begin

lemma reach_inv: "service_reach work x s \<Longrightarrow> service_inv s"
proof (induction rule: service_reach.induct)
  case started
  then show ?case by (simp add: service_inv_def start_service_def)
next
  case (stepped s l s')
  from stepped(2,3) show ?case by cases (auto simp: service_inv_def)
qed

text \<open>The state is that of some number of turns of work, one after the other.\<close>

lemma reach_work:
  "service_reach work x s \<Longrightarrow> \<exists>vs. sv_state s = foldl (\<lambda>y v. work v y) x vs \<and> (vs = [] \<longleftrightarrow> sv_worker s = FirstWork)"
proof (induction rule: service_reach.induct)
  case started
  then show ?case by (simp add: start_service_def)
next
  case (stepped s l s')
  then obtain vs where vs: "sv_state s = foldl (\<lambda>y v. work v y) x vs" "vs = [] \<longleftrightarrow> sv_worker s = FirstWork"
    by blast
  have turn: "\<exists>us. work v (sv_state s) = foldl (\<lambda>y v. work v y) x us \<and> us \<noteq> []" for v
    by (rule exI [of _ "vs @ [v]"]) (simp add: vs(1))
  from stepped(2) show ?case by cases (use vs turn in auto)
qed

lemma reach_keeps: "service_reach work x s \<Longrightarrow> keeps x (sv_state s)"
proof -
  have "keeps x (foldl (\<lambda>y v. work v y) y vs)" if "keeps x y" for y vs
    using that by (induction vs arbitrary: y) (simp_all add: keeps_work)
  then show "service_reach work x s \<Longrightarrow> keeps x (sv_state s)" using reach_work keeps_refl by metis
qed

text \<open>When \<open>Stop\<close> has returned, no work is done any more.\<close>

lemma stopped_is_final:
  assumes "service_reach work x s" and "sv_main s = StopReturned" and "service_step work l s s'"
  shows "sv_state s' = sv_state s \<and> sv_main s' = StopReturned"
  using assms(3) reach_inv [OF assms(1)] assms(2) by cases (auto simp: service_inv_def)

text \<open>\<open>Stop\<close> is never stuck, and every step but a tick brings it nearer to its return.\<close>

lemma stop_progress:
  assumes "service_reach work x s" and "sv_main s = AwaitingGroup"
  shows "\<exists>s'. service_step work Internal s s'"
proof -
  have stop: "sv_stop s" using reach_inv [OF assms(1)] assms(2) by (simp add: service_inv_def)
  show ?thesis
  proof (cases "sv_worker s")
    case FirstWork
    then show ?thesis by (blast intro: service_step.first_work)
  next
    case Selecting
    then show ?thesis using stop by (blast intro: service_step.worker_stops)
  next
    case WorkerDone
    then show ?thesis
      using assms(2) by (cases "sv_server s") (blast intro: service_step.server_fails service_step.stop_returns)+
  qed
qed

lemma stop_rank:
  assumes "service_step work l s s'" and "sv_main s \<noteq> NotStopped"
  shows "if l = Tick then service_rank s' = service_rank s else service_rank s' < service_rank s"
  using assms by cases (auto simp: service_rank_def)

lemma rank_bound: "service_rank s \<le> 6"
  by (cases "sv_worker s"; cases "sv_helper s") (simp_all add: service_rank_def)

end

section \<open>The two programs\<close>

interpretation scraper: service_work scrape "\<lambda>x y. ex_config (fst y) = ex_config (fst x)"
  by unfold_locales (simp_all add: scrape_fst)

interpretation watcher: service_work "updateDevices K"
    "\<lambda>x y. ga_ready (fst y) = ga_ready (fst x) \<and> ga_config (fst y) = ga_config (fst x)"
  by unfold_locales (auto simp: updateDevices_agent setError_def split: sum.split)

lemma exporter_runs_scrapes:
  "exporter_reach st s \<Longrightarrow> \<exists>vs. sv_state s = scrapes vs st"
  using scraper.reach_work by (metis scrapes_def)

lemma agent_runs_polls:
  "agent_reach K st s \<Longrightarrow> \<exists>vs. sv_state s = runDeviceWatcher K vs st"
  using watcher.reach_work by (metis runDeviceWatcher_def)



end
