(* ===== verification/AgentWire.thy ===== *)
theory AgentWire
  imports NodeReport
begin

text \<open>
  The status document of the driver agent (\<open>pkg/driveragent/agent.go\<close>), against the reader of
  \<open>GoJson\<close>: what a client of the agent learns after any polls, and when it learns nothing because
  the document is not JSON.
\<close>

section \<open>The document\<close>

definition device_safe :: "CXIDevice \<Rightarrow> bool" where
  "device_safe d \<longleftrightarrow>
     list_all json_safe (cd_name d) \<and> list_all json_safe (cd_pci d) \<and> list_all json_safe (cd_link d)"

definition device_json :: "CXIDevice \<Rightarrow> json" where
  "device_json d =
     JObj [(''name'', JStr (cd_name d)), (''pci'', JStr (cd_pci d)), (''numa'', JNum (Itoa (cd_numa d))),
           (''link'', JStr (cd_link d))]"

lemma agent_entries_lines: "agent_device_entries ds = array_lines agent_device_entry ds"
  by (induction ds) simp_all

lemma safe_keys:
  "list_all json_safe ''name''" "list_all json_safe ''pci''" "list_all json_safe ''numa''"
  "list_all json_safe ''link''" "list_all json_safe ''node''" "list_all json_safe ''driverReady''"
  "list_all json_safe ''lastError''" "list_all json_safe ''devices''"
  by (simp add: json_safe_def)+

lemma scan_device_entry:
  "scan_value (6 + n) (agent_device_entry d @ r) = (if device_safe d then Some (device_json d, r) else None)"
proof -
  let ?link = "quote ''link'' @ '': '' @ quote (cd_link d) @ CHR ''}'' # r"
  let ?numa = "quote ''numa'' @ '': '' @ Itoa (cd_numa d) @ CHR '','' # CHR '' '' # ?link"
  let ?pci = "quote ''pci'' @ '': '' @ quote (cd_pci d) @ CHR '','' # CHR '' '' # ?numa"
  let ?name = "quote ''name'' @ '': '' @ quote (cd_name d) @ CHR '','' # CHR '' '' # ?pci"
  have link: "scan_members (Suc (Suc m)) (CHR '' '' # ?link) =
      (if list_all json_safe (cd_link d) then Some ([(''link'', JStr (cd_link d))], r) else None)" for m
    by (subst scan_members_space, simp, rule scan_members_last_if [OF safe_keys(4) scan_value_string_exact]) simp
  have numa: "scan_members (Suc (Suc (Suc m))) (CHR '' '' # ?numa) =
      (if True \<and> list_all json_safe (cd_link d)
       then Some ((''numa'', JNum (Itoa (cd_numa d))) # [(''link'', JStr (cd_link d))], r) else None)" for m
    by (subst scan_members_space, simp, rule scan_members_more_if [OF safe_keys(3) _ link])
      (simp add: scan_value_number del: scan_value.simps)
  have pci: "scan_members (Suc (Suc (Suc (Suc m)))) (CHR '' '' # ?pci) =
      (if list_all json_safe (cd_pci d) \<and> (True \<and> list_all json_safe (cd_link d))
       then Some ((''pci'', JStr (cd_pci d)) # (''numa'', JNum (Itoa (cd_numa d))) # [(''link'', JStr (cd_link d))], r)
       else None)" for m
    by (subst scan_members_space, simp, rule scan_members_more_if [OF safe_keys(2) scan_value_string_exact numa])
  have name: "scan_members (Suc (Suc (Suc (Suc (Suc m))))) ?name =
      (if list_all json_safe (cd_name d) \<and> list_all json_safe (cd_pci d) \<and> True \<and> list_all json_safe (cd_link d)
       then Some ((''name'', JStr (cd_name d)) # (''pci'', JStr (cd_pci d)) # (''numa'', JNum (Itoa (cd_numa d))) #
         [(''link'', JStr (cd_link d))], r)
       else None)" for m
    by (rule scan_members_more_if [OF safe_keys(1) scan_value_string_exact pci])
  have "agent_device_entry d @ r = ''    '' @ CHR ''{'' # ?name"
    by (simp add: agent_device_entry_def)
  then show ?thesis
    using name [of n]
    by (simp add: scan_value_space scan_value_object device_safe_def device_json_def eval_nat_numeral
        del: scan_value.simps scan_members.simps)
qed

lemma scan_devices:
  "scan_value (Suc (length ds + 6 + n)) (''['' @ CHR 0x0A # agent_device_entries ds @ ''  ]'' @ r) =
     (if list_all device_safe ds then Some (JArr (map device_json ds), r) else None)"
  unfolding agent_entries_lines
  by (rule scan_value_lines [OF scan_device_entry]) (simp add: agent_device_entry_def)

text \<open>What the document says, and when it is JSON.\<close>

definition agent_json :: "agent \<Rightarrow> json" where
  "agent_json a =
     JObj ([(''node'', JStr (ag_node (ga_config a))), (''driverReady'', JBool (ga_ready a))] @
       (if ga_error a = '''' then [] else [(''lastError'', JStr (ga_error a))]) @
       [(''devices'', JArr (map device_json (ga_devices a)))])"

definition agent_safe :: "agent \<Rightarrow> bool" where
  "agent_safe a \<longleftrightarrow> list_all json_safe (ag_node (ga_config a)) \<and> list_all json_safe (ga_error a) \<and>
     list_all device_safe (ga_devices a)"

lemma length_agent_entries: "length ds \<le> length (agent_device_entries ds)"
  by (induction ds) (auto simp: agent_device_entry_def)

text \<open>The members of the document from \<open>lastError\<close> on.\<close>

definition next_line :: "string \<Rightarrow> string" where
  "next_line r = CHR 0x0A # CHR '' '' # CHR '' '' # r"

definition devices_text :: "CXIDevice list \<Rightarrow> string" where
  "devices_text ds = quote ''devices'' @ '': '' @
     (''['' @ CHR 0x0A # agent_device_entries ds @ ''  ]'' @ [CHR 0x0A] @ ''}'' @ [CHR 0x0A])"

definition error_text :: "string \<Rightarrow> string \<Rightarrow> string" where
  "error_text e r =
     (if e = '''' then r else quote ''lastError'' @ '': '' @ quote e @ CHR '','' # next_line r)"

lemma scan_next_line: "scan_members m (next_line r) = scan_members m r"
  by (simp add: next_line_def scan_members_space del: scan_members.simps)

lemma scan_devices_text:
  "scan_members (Suc (Suc (length ds + 6 + m))) (devices_text ds) =
     (if list_all device_safe ds then Some ([(''devices'', JArr (map device_json ds))], [CHR 0x0A]) else None)"
  unfolding devices_text_def by (rule scan_members_last_if [OF safe_keys(8) scan_devices]) simp

lemma scan_error_text:
  "scan_members (Suc (Suc (Suc (length ds + 6 + m)))) (error_text e (devices_text ds)) =
     (if list_all json_safe e \<and> list_all device_safe ds
      then Some ((if e = '''' then [] else [(''lastError'', JStr e)]) @
        [(''devices'', JArr (map device_json ds))], [CHR 0x0A])
      else None)"
proof (cases "e = ''''")
  case True
  then show ?thesis using scan_devices_text [of ds "Suc m"] by (simp add: error_text_def del: scan_members.simps)
next
  case False
  have "scan_members (Suc (Suc (Suc (length ds + 6 + m))))
      (quote ''lastError'' @ '': '' @ quote e @ CHR '','' # next_line (devices_text ds)) =
      (if list_all json_safe e \<and> list_all device_safe ds
       then Some ((''lastError'', JStr e) # [(''devices'', JArr (map device_json ds))], [CHR 0x0A]) else None)"
    by (rule scan_members_more_if [OF safe_keys(7) scan_value_string_exact])
      (simp only: scan_next_line scan_devices_text)
  with False show ?thesis by (simp add: error_text_def del: scan_members.simps)
qed

lemma parse_agent_status:
  "parse_json (agent_status_body a) = (if agent_safe a then Some (agent_json a) else None)"
proof -
  let ?ds = "ga_devices a" and ?e = "ga_error a" and ?node = "ag_node (ga_config a)"
  let ?tail = "(if ?e = '''' then [] else [(''lastError'', JStr ?e)]) @ [(''devices'', JArr (map device_json ?ds))]"
  let ?error = "error_text ?e (devices_text ?ds)"
  let ?ready = "quote ''driverReady'' @ '': '' @ show_bool (ga_ready a) @ CHR '','' # next_line ?error"
  let ?body = "quote ''node'' @ '': '' @ quote ?node @ CHR '','' # next_line ?ready"
  obtain n where n: "length (agent_status_body a) = Suc (Suc (Suc (Suc (Suc (length ?ds + 6 + n)))))"
    using le_Suc_ex [of "length ?ds + 11" "length (agent_status_body a)"] length_agent_entries [of ?ds]
    by (auto simp: agent_status_body_def quote_def)
  have "scan_members (Suc (Suc (Suc (Suc (length ?ds + 6 + m))))) (next_line ?ready) =
      (if True \<and> list_all json_safe ?e \<and> list_all device_safe ?ds
       then Some ((''driverReady'', JBool (ga_ready a)) # ?tail, [CHR 0x0A]) else None)" for m
    unfolding scan_next_line
    by (rule scan_members_more_if [OF safe_keys(6) _ trans [OF scan_next_line scan_error_text]])
      (simp only: scan_value_bool if_True)
  then have body: "scan_members (Suc (Suc (Suc (Suc (Suc (length ?ds + 6 + n)))))) ?body =
      (if list_all json_safe ?node \<and> True \<and> list_all json_safe ?e \<and> list_all device_safe ?ds
       then Some ((''node'', JStr ?node) # (''driverReady'', JBool (ga_ready a)) # ?tail, [CHR 0x0A]) else None)"
    by (rule scan_members_more_if [OF safe_keys(5) scan_value_string_exact])
  have "agent_status_body a = CHR ''{'' # CHR 0x0A # CHR '' '' # CHR '' '' # ?body"
    by (simp add: agent_status_body_def error_text_def devices_text_def next_line_def)
  then show ?thesis
    unfolding parse_json_def n by (simp only: scan_value_block body) (simp add: agent_safe_def agent_json_def)
qed

section \<open>After any polls\<close>

text \<open>The devices found by the last discovery that succeeded.\<close>

definition devices_after :: "CXIDevice list \<Rightarrow> poll_env list \<Rightarrow> CXIDevice list" where
  "devices_after ds vs =
     foldl (\<lambda>ds v. case DiscoverDevices (pv_sysfs v) of Inl _ \<Rightarrow> ds | Inr found \<Rightarrow> found) ds vs"

lemma polled_agent:
  "fst (runDeviceWatcher K vs st) =
     (fst st)\<lparr>ga_error := error_after (ga_error (fst st)) vs,
              ga_devices := devices_after (ga_devices (fst st)) vs\<rparr>"
proof (induction vs arbitrary: st)
  case (Cons v vs)
  then show ?case
    by (simp add: runDeviceWatcher_def error_after_def devices_after_def updateDevices_agent setError_def
        split: sum.splits)
qed (simp add: runDeviceWatcher_def error_after_def devices_after_def)

lemma set_up_agent:
  "fst (setup_driver (NewAgent c) H t) =
     (NewAgent c)\<lparr>ga_ready := is_ok (fst (ensureDriver (ga_config (NewAgent c)) H t)),
       ga_error := (case fst (ensureDriver (ga_config (NewAgent c)) H t) of Inl e \<Rightarrow> e | Inr _ \<Rightarrow> '''')\<rparr>"
  by (cases "ensureDriver (ga_config (NewAgent c)) H t")
    (simp add: setup_driver_def setDriverReady_def setError_def NewAgent_def Let_def is_ok_def split: sum.split)


end
