(* ===== verification/DevicePlugin.thy ===== *)
theory DevicePlugin
  imports Discovery
begin

text \<open>
  The Kubernetes device plugin (\<open>pkg/deviceplugin/plugin.go\<close>): the device list it advertises, the
  preferred allocation it proposes, what it hands to a container, the stream of health updates,
  and the order in which it starts. gRPC, sockets and the HTTP server are reduced to whether each
  call succeeds; \<open>fmt.Printf\<close> is left out.
\<close>

section \<open>Configuration and state\<close>

abbreviation devicePluginPath :: string where "devicePluginPath \<equiv> ''/var/lib/kubelet/device-plugins''"
abbreviation DefaultResourceName :: string where "DefaultResourceName \<equiv> ''hpe.com/cxi''"
abbreviation DefaultSharedCapacity :: i32 where "DefaultSharedCapacity \<equiv> 100"
abbreviation SharingModeShared :: string where "SharingModeShared \<equiv> ''shared''"
abbreviation SharingModeExclusive :: string where "SharingModeExclusive \<equiv> ''exclusive''"

record PluginConfig =
  pc_resource :: string
  pc_mode :: string
  pc_capacity :: i32
  pc_health_port :: int

record plugin =
  pl_config :: PluginConfig
  pl_devices :: "CXIDevice list"
  pl_socket :: string
  pl_ready :: bool
  pl_stopped :: bool

definition NewCXIDevicePlugin :: "PluginConfig \<Rightarrow> plugin" where
  "NewCXIDevicePlugin c =
     (let c1 = (if pc_resource c = '''' then c\<lparr>pc_resource := DefaultResourceName\<rparr> else c);
          c2 = (if pc_capacity c1 = 0 then c1\<lparr>pc_capacity := DefaultSharedCapacity\<rparr> else c1);
          c3 = (if pc_mode c2 = '''' then c2\<lparr>pc_mode := SharingModeShared\<rparr> else c2);
          c4 = (if pc_health_port c3 = 0 then c3\<lparr>pc_health_port := 8082\<rparr> else c3)
      in \<lparr>pl_config = c4, pl_devices = [], pl_socket = path_join [devicePluginPath, ''cxi-plugin.sock''],
          pl_ready = False, pl_stopped = False\<rparr>)"

section \<open>The advertised devices\<close>

datatype health = Healthy | Unhealthy

text \<open>The topology is absent or a list of NUMA nodes.\<close>

record PluginDevice =
  pd_id :: string
  pd_health :: health
  pd_nodes :: "int list option"

fun numa_nodes :: "int list \<Rightarrow> CXIDevice list \<Rightarrow> int list" where
  "numa_nodes seen [] = []"
| "numa_nodes seen (d # ds) =
     (if 0 \<le> cd_numa d \<and> cd_numa d \<notin> set seen
      then cd_numa d # numa_nodes (cd_numa d # seen) ds else numa_nodes seen ds)"

definition exclusive_device :: "CXIDevice \<Rightarrow> PluginDevice" where
  "exclusive_device d =
     \<lparr>pd_id = cd_name d, pd_health = Healthy,
      pd_nodes = (if 0 \<le> cd_numa d then Some [cd_numa d] else None)\<rparr>"

definition shared_device :: "CXIDevice list \<Rightarrow> nat \<Rightarrow> PluginDevice" where
  "shared_device devs i =
     \<lparr>pd_id = ''shared-'' @ Itoa (int i), pd_health = Healthy,
      pd_nodes = (if devs = [] then None
                  else (let ns = numa_nodes [] devs in if ns = [] then None else Some ns))\<rparr>"

definition buildDeviceList :: "plugin \<Rightarrow> PluginDevice list" where
  "buildDeviceList p =
     (if pc_mode (pl_config p) = SharingModeExclusive then map exclusive_device (pl_devices p)
      else if pc_mode (pl_config p) = SharingModeShared
      then map (shared_device (pl_devices p)) [0..<nat (sint (pc_capacity (pl_config p)))]
      else [])"

section \<open>Health updates\<close>

text \<open>
  \<open>ListAndWatch\<close>: the list is sent first, then once per health update with that device's health;
  every update starts from a fresh list. \<open>sends k\<close> says whether the send number \<open>k\<close> succeeds; when
  the updates are used up the plugin has been stopped. The result is what was sent, and whether
  the stream ended without an error.
\<close>

definition health_update :: "plugin \<Rightarrow> string \<times> health \<Rightarrow> PluginDevice list" where
  "health_update p u =
     map (\<lambda>d. if pd_id d = fst u then d\<lparr>pd_health := snd u\<rparr> else d) (buildDeviceList p)"

fun watch_health ::
  "plugin \<Rightarrow> nat \<Rightarrow> (nat \<Rightarrow> bool) \<Rightarrow> (string \<times> health) list \<Rightarrow> PluginDevice list list \<times> bool" where
  "watch_health p k sends [] = ([], True)"
| "watch_health p k sends (u # us) =
     (if sends k
      then (case watch_health p (Suc k) sends us of (rs, r) \<Rightarrow> (health_update p u # rs, r))
      else ([], False))"

definition ListAndWatch ::
  "plugin \<Rightarrow> (nat \<Rightarrow> bool) \<Rightarrow> (string \<times> health) list \<Rightarrow> PluginDevice list list \<times> bool" where
  "ListAndWatch p sends us =
     (if sends 0
      then (case watch_health p 1 sends us of (rs, r) \<Rightarrow> (buildDeviceList p # rs, r))
      else ([], False))"

section \<open>Preferred allocation\<close>

definition buildNUMAMap :: "plugin \<Rightarrow> (string \<rightharpoonup> int)" where
  "buildNUMAMap p = foldl (\<lambda>m d. m(cd_name d \<mapsto> cd_numa d)) Map.empty (pl_devices p)"

text \<open>The first identifier whose node is known and not negative.\<close>

fun first_numa :: "(string \<rightharpoonup> int) \<Rightarrow> string list \<Rightarrow> int option" where
  "first_numa m [] = None"
| "first_numa m (i # is) =
     (case m i of
        Some n \<Rightarrow> if 0 \<le> n then Some n else first_numa m is
      | None \<Rightarrow> first_numa m is)"

definition preferred_numa :: "(string \<rightharpoonup> int) \<Rightarrow> string list \<Rightarrow> string list \<Rightarrow> int" where
  "preferred_numa m must avail =
     (case first_numa m must of
        Some n \<Rightarrow> n
      | None \<Rightarrow> (case first_numa m avail of Some n \<Rightarrow> n | None \<Rightarrow> -1))"

text \<open>The node the map gives for an identifier; a missing key reads as zero.\<close>

definition numa_at :: "(string \<rightharpoonup> int) \<Rightarrow> string \<Rightarrow> int" where
  "numa_at m i = (case m i of None \<Rightarrow> 0 | Some n \<Rightarrow> n)"

text \<open>The loops that append identifiers until \<open>n\<close> are chosen.\<close>

fun fill :: "nat \<Rightarrow> string list \<Rightarrow> string list \<Rightarrow> string list" where
  "fill n result [] = result"
| "fill n result (i # is) = (if n \<le> length result then result else fill n (result @ [i]) is)"

definition selectPreferredDevices :: "plugin \<Rightarrow> string list \<Rightarrow> string list \<Rightarrow> int \<Rightarrow> string list" where
  "selectPreferredDevices p avail must cnt =
     (if cnt \<le> 0 then []
      else if pc_mode (pl_config p) = SharingModeShared then
        (if int (length avail) \<le> cnt then avail else take (nat cnt) avail)
      else
        let n = nat cnt; m = buildNUMAMap p; result = fill n [] must in
        if n \<le> length result then result
        else
          let pref = preferred_numa m must avail;
              rest = filter (\<lambda>i. i \<notin> set result) avail;
              same = filter (\<lambda>i. numa_at m i = pref) rest;
              diff = filter (\<lambda>i. numa_at m i \<noteq> pref) rest
          in fill n (fill n result same) diff)"

record PreferredRequest =
  pr_available :: "string list"
  pr_must :: "string list"
  pr_size :: i32

definition GetPreferredAllocation :: "plugin \<Rightarrow> PreferredRequest list \<Rightarrow> string list list" where
  "GetPreferredAllocation p rs =
     map (\<lambda>r. selectPreferredDevices p (pr_available r) (pr_must r) (sint (pr_size r))) rs"

section \<open>Allocation\<close>

record DeviceSpec =
  ds_host_path :: string
  ds_container_path :: string
  ds_permissions :: string

record AllocateResponse =
  ar_devices :: "DeviceSpec list"
  ar_envs :: "string \<rightharpoonup> string"

definition devices_to_mount :: "plugin \<Rightarrow> string list \<Rightarrow> CXIDevice list" where
  "devices_to_mount p ids =
     (if pc_mode (pl_config p) = SharingModeExclusive
      then concat (map (\<lambda>i. case find (\<lambda>d. cd_name d = i) (pl_devices p) of
                              None \<Rightarrow> [] | Some d \<Rightarrow> [d]) ids)
      else if pc_mode (pl_config p) = SharingModeShared then pl_devices p
      else [])"

definition allocate_container :: "plugin \<Rightarrow> string list \<Rightarrow> AllocateResponse" where
  "allocate_container p ids =
     (let ds = devices_to_mount p ids;
          envs = (if ds = [] then Map.empty
                  else let e = [''CXI_DEVICE_COUNT'' \<mapsto> Itoa (int (length ds))]
                       in if pc_mode (pl_config p) = SharingModeExclusive \<and> length ds = 1
                          then e(''CXI_DEVICE'' \<mapsto> cd_name (hd ds)) else e)
      in \<lparr>ar_devices = map (\<lambda>d. \<lparr>ds_host_path = cd_path d, ds_container_path = cd_path d,
                              ds_permissions = ''rw''\<rparr>) ds,
          ar_envs = envs\<rparr>)"

definition Allocate :: "plugin \<Rightarrow> string list list \<Rightarrow> AllocateResponse list" where
  "Allocate p rs = map (allocate_container p) rs"

section \<open>Starting and stopping\<close>

definition setReady :: "plugin \<Rightarrow> bool \<Rightarrow> plugin" where
  "setReady p b = p\<lparr>pl_ready := b\<rparr>"

definition isReady :: "plugin \<Rightarrow> bool" where
  "isReady p = pl_ready p"

text \<open>
  \<open>waitForServer\<close>: before the deadline there is time for \<open>n\<close> attempts; \<open>ok k\<close> says whether attempt
  \<open>k\<close> gets a client.
\<close>

fun waitForServer :: "nat \<Rightarrow> nat \<Rightarrow> (nat \<Rightarrow> bool) \<Rightarrow> string option" where
  "waitForServer 0 k ok = Some ''context deadline exceeded''"
| "waitForServer (Suc n) k ok = (if ok k then None else waitForServer n (Suc k) ok)"

record PluginOptions =
  po_pre_start :: bool
  po_preferred_allocation :: bool

record RegisterRequest =
  rr_version :: string
  rr_endpoint :: string
  rr_resource :: string
  rr_options :: PluginOptions

definition GetDevicePluginOptions :: PluginOptions where
  "GetDevicePluginOptions = \<lparr>po_pre_start = False, po_preferred_allocation = True\<rparr>"

text \<open>The response of \<open>PreStartContainer\<close> has no content, and there is never an error.\<close>

definition PreStartContainer :: "string list \<Rightarrow> string + unit" where
  "PreStartContainer ids = Inr ()"

text \<open>What the environment answers to the calls of \<open>Start\<close>, in the order they are made.\<close>

record start_env =
  se_discover :: "string + CXIDevice list"
  se_remove_socket :: "string option"
  se_listen :: "string option"
  se_attempts :: nat
  se_client_ok :: "nat \<Rightarrow> bool"
  se_connect :: "string option"
  se_register :: "RegisterRequest \<Rightarrow> string option"

definition register :: "start_env \<Rightarrow> plugin \<Rightarrow> string option" where
  "register e p =
     (case se_connect e of
        Some err \<Rightarrow> Some (''failed to connect to kubelet: '' @ err)
      | None \<Rightarrow>
          (case se_register e \<lparr>rr_version = ''v1beta1'', rr_endpoint = path_base (pl_socket p),
                               rr_resource = pc_resource (pl_config p),
                               rr_options = \<lparr>po_pre_start = False, po_preferred_allocation = True\<rparr>\<rparr> of
             Some err \<Rightarrow> Some (''failed to register: '' @ err)
           | None \<Rightarrow> None))"

definition Start :: "start_env \<Rightarrow> plugin \<Rightarrow> plugin \<times> string option" where
  "Start e p =
     (case se_discover e of
        Inl err \<Rightarrow> (p, Some (''failed to discover devices: '' @ err))
      | Inr devs \<Rightarrow>
          let p1 = p\<lparr>pl_devices := devs\<rparr> in
          (case se_remove_socket e of
             Some err \<Rightarrow> (p1, Some (''failed to remove old socket: '' @ err))
           | None \<Rightarrow>
               (case se_listen e of
                  Some err \<Rightarrow> (p1, Some (''failed to listen on socket: '' @ err))
                | None \<Rightarrow>
                    (case waitForServer (se_attempts e) 0 (se_client_ok e) of
                       Some err \<Rightarrow> (p1, Some (''server failed to start: '' @ err))
                     | None \<Rightarrow>
                         (case register e p1 of
                            Some err \<Rightarrow> (p1, Some (''failed to register with kubelet: '' @ err))
                          | None \<Rightarrow> (setReady p1 True, None))))))"

definition Stop :: "plugin \<Rightarrow> plugin" where
  "Stop p = (setReady p False)\<lparr>pl_stopped := True\<rparr>"

text \<open>The status codes of the health server's two handlers.\<close>

definition healthz :: "plugin \<Rightarrow> int" where
  "healthz p = 200"

definition readyz :: "plugin \<Rightarrow> int" where
  "readyz p = (if isReady p then 200 else 503)"

section \<open>What the plugin advertises\<close>

lemma numa_nodes_set: "set (numa_nodes seen ds) = {cd_numa d |d. d \<in> set ds \<and> 0 \<le> cd_numa d} - set seen"
  by (induction seen ds rule: numa_nodes.induct) auto

lemma numa_nodes_distinct: "distinct (numa_nodes seen ds)"
  by (induction seen ds rule: numa_nodes.induct) (auto simp: numa_nodes_set)

lemma shared_id_inject: "pd_id (shared_device devs i) = pd_id (shared_device devs j) \<longleftrightarrow> i = j"
  by (auto simp: shared_device_def dest: Itoa_nonneg_inject [of "int i" "int j", rotated 2])

text \<open>
  C17: In shared mode exactly the configured number of virtual devices is advertised, all healthy,
  under distinct identifiers, each with the set of the nodes of all physical devices (each node
  once, unknown ones left out); a capacity that is not positive advertises nothing.
\<close>

theorem shared_devices_advertised:
  assumes "pc_mode (pl_config p) = SharingModeShared"
  shows "length (buildDeviceList p) = nat (sint (pc_capacity (pl_config p))) \<and>
    distinct (map pd_id (buildDeviceList p)) \<and>
    (\<forall>d\<in>set (buildDeviceList p). pd_health d = Healthy \<and>
       (case pd_nodes d of
          None \<Rightarrow> \<forall>x\<in>set (pl_devices p). cd_numa x < 0
        | Some ns \<Rightarrow> distinct ns \<and> set ns = {cd_numa x |x. x \<in> set (pl_devices p) \<and> 0 \<le> cd_numa x}))"
proof -
  have nodes: "case pd_nodes (shared_device devs i) of
      None \<Rightarrow> \<forall>x\<in>set devs. cd_numa x < 0
    | Some ns \<Rightarrow> distinct ns \<and> set ns = {cd_numa x |x. x \<in> set devs \<and> 0 \<le> cd_numa x}" for devs i
    using numa_nodes_set [of "[]" devs] numa_nodes_distinct [of "[]" devs]
    by (cases "numa_nodes [] devs = []") (auto simp: shared_device_def Let_def)
  have "distinct (map (pd_id \<circ> shared_device (pl_devices p)) [0..<n])" for n
    by (auto simp: distinct_map inj_on_def shared_id_inject)
  with nodes assms show ?thesis
    by (simp add: buildDeviceList_def comp_def) (simp add: shared_device_def)
qed

theorem shared_devices_advertised_witness:
  "length (buildDeviceList (NewCXIDevicePlugin
     \<lparr>pc_resource = '''', pc_mode = '''', pc_capacity = 0, pc_health_port = 0\<rparr>)) = 100"
  using shared_devices_advertised [of "NewCXIDevicePlugin
     \<lparr>pc_resource = '''', pc_mode = '''', pc_capacity = 0, pc_health_port = 0\<rparr>"]
  by (simp add: NewCXIDevicePlugin_def Let_def)

section \<open>Health\<close>

lemma watch_health_all:
  "\<forall>k. sends k \<Longrightarrow> watch_health p k sends us = (map (health_update p) us, True)"
  by (induction p k sends us rule: watch_health.induct) auto

text \<open>
  The stream forgets. The response to a health update reports the health of the updated device
  and calls every other device healthy, whatever was reported before: a device that is still
  broken is advertised as healthy again as soon as another one changes.
\<close>

lemma health_updates_are_forgotten:
  assumes "\<forall>k. sends k"
  shows "ListAndWatch p sends us = (buildDeviceList p # map (health_update p) us, True) \<and>
    (\<forall>d\<in>set (health_update p (i, h)). pd_health d = (if pd_id d = i then h else Healthy))"
proof -
  have "pd_health d = Healthy" if "d \<in> set (buildDeviceList p)" for d
    using that
    by (auto simp: buildDeviceList_def exclusive_device_def shared_device_def split: if_splits)
  then have "\<forall>d\<in>set (health_update p (i, h)). pd_health d = (if pd_id d = i then h else Healthy)"
    by (auto simp: health_update_def)
  moreover have "ListAndWatch p sends us = (buildDeviceList p # map (health_update p) us, True)"
  proof -
    have "sends 0" "watch_health p 1 sends us = (map (health_update p) us, True)"
      using assms watch_health_all [OF assms] by blast+
    then show ?thesis by (simp add: ListAndWatch_def)
  qed
  ultimately show ?thesis by blast
qed

definition sample_devices :: "CXIDevice list" where
  "sample_devices =
     [\<lparr>cd_name = ''cxi0'', cd_path = ''/dev/cxi0'', cd_pci = '''', cd_numa = 0, cd_nid = 1, cd_link = ''1''\<rparr>,
      \<lparr>cd_name = ''cxi1'', cd_path = ''/dev/cxi1'', cd_pci = '''', cd_numa = 1, cd_nid = 2, cd_link = ''1''\<rparr>,
      \<lparr>cd_name = ''cxi2'', cd_path = ''/dev/cxi2'', cd_pci = '''', cd_numa = 1, cd_nid = 3, cd_link = ''1''\<rparr>]"

definition sample_plugin :: "string \<Rightarrow> plugin" where
  "sample_plugin mode =
     \<lparr>pl_config = \<lparr>pc_resource = ''hpe.com/cxi'', pc_mode = mode, pc_capacity = 4, pc_health_port = 8082\<rparr>,
      pl_devices = sample_devices, pl_socket = ''/var/lib/kubelet/device-plugins/cxi-plugin.sock'',
      pl_ready = True, pl_stopped = False\<rparr>"

section \<open>Preferred allocation\<close>

lemma fill_take: "fill n result ids = result @ take (n - length result) ids"
proof (induction n result ids rule: fill.induct)
  case (2 n result i "is")
  then show ?case by (cases "n \<le> length result") (auto simp: Suc_diff_Suc take_Cons' diff_Suc)
qed simp

lemma fill_full: "n \<le> length result \<Longrightarrow> fill n result ids = result"
  by (cases ids) simp_all

lemma fill_fill: "fill n (fill n result a) b = fill n result (a @ b)"
  by (induction n result a rule: fill.induct) (auto simp: fill_full)

text \<open>The selection outside shared mode, without the loops.\<close>

lemma select_exclusive:
  assumes "pc_mode (pl_config p) \<noteq> SharingModeShared" and "0 < cnt"
    and "m = buildNUMAMap p" and "pref = preferred_numa m must avail"
    and "rest = filter (\<lambda>i. i \<notin> set must) avail"
  shows "selectPreferredDevices p avail must cnt =
    (if nat cnt \<le> length must then take (nat cnt) must
     else must @ take (nat cnt - length must)
       (filter (\<lambda>i. numa_at m i = pref) rest @ filter (\<lambda>i. numa_at m i \<noteq> pref) rest))"
proof -
  have "nat cnt \<le> length (take (nat cnt) must) \<longleftrightarrow> nat cnt \<le> length must" by simp
  moreover have "\<not> nat cnt \<le> length must \<Longrightarrow> take (nat cnt) must = must" by simp
  ultimately show ?thesis
    using assms by (simp add: selectPreferredDevices_def fill_fill Let_def) (simp add: fill_take)
qed

lemma length_rest:
  assumes "distinct avail" and "distinct must" and "set must \<subseteq> set avail"
  shows "length (filter (\<lambda>i. i \<notin> set must) avail) + length must = length avail"
proof -
  have "set (filter (\<lambda>i. i \<notin> set must) avail) = set avail - set must" by auto
  then have "length (filter (\<lambda>i. i \<notin> set must) avail) = card (set avail - set must)"
    using distinct_card [of "filter (\<lambda>i. i \<notin> set must) avail"] assms(1) by simp
  moreover have "card (set avail - set must) = length avail - length must"
    using assms by (simp add: card_Diff_subset distinct_card)
  moreover have "length must \<le> length avail"
    using assms by (metis card_mono List.finite_set distinct_card)
  ultimately show ?thesis by linarith
qed

text \<open>
  C19: In exclusive mode the proposal honours the kubelet's contract and the topology. If the
  identifiers offered are distinct and include those that must be included, the proposal has no
  duplicate, offers only available devices, as many as asked for if there are enough, with the
  mandatory ones first; and a further device from another NUMA node than the preferred one is
  proposed only when every available device of that node is.
\<close>

theorem preferred_allocation_is_local:
  assumes "pc_mode (pl_config p) \<noteq> SharingModeShared" and "0 < cnt"
    and "distinct avail" and "distinct must" and "set must \<subseteq> set avail"
    and r: "r = selectPreferredDevices p avail must cnt"
  shows "distinct r \<and> set r \<subseteq> set avail \<and> int (length r) = min cnt (int (length avail)) \<and>
    take (length must) r = take (nat cnt) must \<and>
    (\<forall>i \<in> set r - set must.
       numa_at (buildNUMAMap p) i \<noteq> preferred_numa (buildNUMAMap p) must avail \<longrightarrow>
       (\<forall>j \<in> set avail.
          numa_at (buildNUMAMap p) j = preferred_numa (buildNUMAMap p) must avail \<longrightarrow> j \<in> set r))"
proof -
  define pref where "pref = preferred_numa (buildNUMAMap p) must avail"
  define rest where "rest = filter (\<lambda>i. i \<notin> set must) avail"
  define same where "same = filter (\<lambda>i. numa_at (buildNUMAMap p) i = pref) rest"
  define diff where "diff = filter (\<lambda>i. numa_at (buildNUMAMap p) i \<noteq> pref) rest"
  have sel: "r = (if nat cnt \<le> length must then take (nat cnt) must
      else must @ take (nat cnt - length must) (same @ diff))"
    unfolding r same_def diff_def
    by (rule select_exclusive [OF assms(1,2) refl pref_def rest_def])
  have len: "length same + length diff + length must = length avail"
    using length_rest [OF assms(3-5)] length_filter_partition [of _ rest]
    by (simp add: same_def diff_def rest_def)
  show ?thesis
  proof (cases "nat cnt \<le> length must")
    case True
    then show ?thesis using sel assms(2,4,5) len by (auto dest: in_set_takeD simp: min_def)
  next
    case False
    let ?k = "nat cnt - length must"
    have r': "r = must @ take ?k (same @ diff)" using sel False by simp
    have sd: "distinct (same @ diff)" "set (same @ diff) = set avail - set must"
      using assms(3) by (auto simp: same_def diff_def rest_def)
    have all: "set same \<subseteq> set r" if "i \<in> set r - set must" "i \<notin> set same" for i
      using that r' by (cases "?k \<le> length same") (auto dest: in_set_takeD)
    have "distinct r" using r' assms(4) sd by (auto dest: in_set_takeD simp del: take_append)
    moreover have "set r \<subseteq> set avail"
      using r' sd(2) assms(5) by (auto dest: in_set_takeD simp del: take_append)
    moreover have "int (length r) = min cnt (int (length avail))" using r' len False by auto
    moreover have "take (length must) r = take (nat cnt) must" using r' False by simp
    moreover have "j \<in> set r" if "i \<in> set r - set must" "numa_at (buildNUMAMap p) i \<noteq> pref"
        "j \<in> set avail" "numa_at (buildNUMAMap p) j = pref" for i j
    proof (cases "j \<in> set must")
      case False
      then have "j \<in> set same" using that by (simp add: same_def rest_def)
      moreover have "i \<notin> set same" using that(2) by (simp add: same_def)
      ultimately show ?thesis using all that(1) by blast
    qed (use r' in simp)
    ultimately show ?thesis by (auto simp: pref_def)
  qed
qed

theorem preferred_allocation_is_local_witness:
  "distinct (selectPreferredDevices (sample_plugin SharingModeExclusive)
    [''cxi0'', ''cxi1'', ''cxi2''] [''cxi2''] 2)"
  using preferred_allocation_is_local [of "sample_plugin SharingModeExclusive" 2
      "[''cxi0'', ''cxi1'', ''cxi2'']" "[''cxi2'']"]
  by (simp add: sample_plugin_def)

text \<open>
  In shared mode the proposal is the first identifiers offered and nothing else: those that
  must be included play no part, although the comment on the function promises them.
\<close>

lemma shared_mode_ignores_must_include:
  assumes "pc_mode (pl_config p) = SharingModeShared"
  shows "selectPreferredDevices p avail must cnt = take (nat cnt) avail"
  using assms by (auto simp: selectPreferredDevices_def nat_le_iff)

section \<open>Allocation\<close>

lemma find_name_iff: "find (\<lambda>d. cd_name d = i) ds \<noteq> None \<longleftrightarrow> i \<in> cd_name ` set ds"
  by (auto simp: find_None_iff image_iff)

lemma find_name_the:
  assumes "i \<in> cd_name ` set ds"
  shows "the (find (\<lambda>d. cd_name d = i) ds) \<in> set ds" "cd_name (the (find (\<lambda>d. cd_name d = i) ds)) = i"
proof -
  obtain d where f: "find (\<lambda>d. cd_name d = i) ds = Some d" using assms find_name_iff by blast
  then have "d \<in> set ds" "cd_name d = i" by (auto simp: find_Some_iff)
  with f show "the (find (\<lambda>d. cd_name d = i) ds) \<in> set ds"
    "cd_name (the (find (\<lambda>d. cd_name d = i) ds)) = i" by simp_all
qed

lemma devices_to_mount_exclusive:
  assumes "pc_mode (pl_config p) = SharingModeExclusive"
  shows "devices_to_mount p ids =
    map (\<lambda>i. the (find (\<lambda>d. cd_name d = i) (pl_devices p)))
      (filter (\<lambda>i. i \<in> cd_name ` set (pl_devices p)) ids)"
proof (induction ids)
  case (Cons i ids)
  show ?case
    using Cons assms find_name_iff [of i "pl_devices p"]
    by (cases "find (\<lambda>d. cd_name d = i) (pl_devices p)") (auto simp: devices_to_mount_def)
qed (use assms in \<open>simp add: devices_to_mount_def\<close>)

lemma exclusive_allocation_list:
  assumes "pc_mode (pl_config p) = SharingModeExclusive"
  shows "ar_devices (allocate_container p ids) =
    map (\<lambda>i. let d = the (find (\<lambda>d. cd_name d = i) (pl_devices p))
             in \<lparr>ds_host_path = cd_path d, ds_container_path = cd_path d, ds_permissions = ''rw''\<rparr>)
      (filter (\<lambda>i. i \<in> cd_name ` set (pl_devices p)) ids)"
  by (simp add: allocate_container_def devices_to_mount_exclusive [OF assms] Let_def)



section \<open>From the device tree to the container\<close>

lemma waitForServer_iff: "waitForServer n k ok = None \<longleftrightarrow> (\<exists>i<n. ok (k + i))"
proof (induction n k ok rule: waitForServer.induct)
  case (2 n k ok)
  have "(\<exists>i<Suc n. ok (k + i)) \<longleftrightarrow> ok k \<or> (\<exists>i<n. ok (Suc k + i))"
    by (auto simp: less_Suc_eq_0_disj)
  with 2 show ?case by simp
qed simp

text \<open>The request the plugin registers with.\<close>

definition registration :: "plugin \<Rightarrow> RegisterRequest" where
  "registration p =
     \<lparr>rr_version = ''v1beta1'', rr_endpoint = path_base (pl_socket p), rr_resource = pc_resource (pl_config p),
      rr_options = GetDevicePluginOptions\<rparr>"

lemma Start_outcome:
  assumes "Start e p = (p', err)" and "se_discover e = Inr devs"
  shows "pl_devices p' = devs" and "pl_config p' = pl_config p" and "pl_ready p' \<longleftrightarrow> pl_ready p \<or> err = None"
    and "err = None \<longleftrightarrow> se_remove_socket e = None \<and> se_listen e = None \<and> (\<exists>i < se_attempts e. se_client_ok e i) \<and>
      se_connect e = None \<and> se_register e (registration p) = None"
  using assms waitForServer_iff [of "se_attempts e" 0 "se_client_ok e"]
  by (auto simp: Start_def register_def registration_def GetDevicePluginOptions_def setReady_def Let_def
      split: option.splits)

lemma scanned_path:
  "d \<in> set (map (\<lambda>n. discoverDevice fs (de_name n)) es) \<Longrightarrow> cd_path d = ''/dev/'' @ cd_name d"
  by (auto simp: discoverDevice_def Let_def)

text \<open>
  C20: The plugin serves what it scanned. \<open>Start\<close> succeeds exactly if the old socket could be removed,
  the new one opened, an attempt to reach the server succeeded in time and the kubelet took the
  registration of the configured resource; it answers ready from then until it is stopped, and
  not after a \<open>Start\<close> that failed. In exclusive mode the identifiers advertised are the \<open>cxi\<close> entries
  of the device tree, each once, and a container that is assigned one of them is given the device
  of that name under \<open>/dev\<close> and nothing else.
\<close>

theorem started_plugin_serves_scan:
  assumes "sf_class fs = DirEntries es" and "distinct (map de_name es)"
    and "se_discover e = DiscoverDevices fs" and "\<not> pl_ready p" and "Start e p = (p', err)"
  shows "(err = None \<longleftrightarrow> se_remove_socket e = None \<and> se_listen e = None \<and>
      (\<exists>i < se_attempts e. se_client_ok e i) \<and> se_connect e = None \<and> se_register e (registration p) = None) \<and>
    readyz p' = (if err = None then 200 else 503) \<and> readyz (Stop p') = 503 \<and>
    (pc_mode (pl_config p) = SharingModeExclusive \<longrightarrow>
      map pd_id (buildDeviceList p') = map de_name (filter is_cxi_entry es) \<and>
      distinct (map pd_id (buildDeviceList p')) \<and>
      (\<forall>i\<in>set (map pd_id (buildDeviceList p')).
         map ds_host_path (ar_devices (allocate_container p' [i])) = [''/dev/'' @ i]))"
proof -
  let ?ds = "map (\<lambda>n. discoverDevice fs (de_name n)) (filter is_cxi_entry es)"
  have scan: "se_discover e = Inr ?ds" using assms(1,3) by (simp add: DiscoverDevices_def)
  note start = Start_outcome [OF assms(5) scan]
  have names: "map cd_name ?ds = map de_name (filter is_cxi_entry es)" by (simp add: discoverDevice_def Let_def)
  have ids: "map pd_id (buildDeviceList p') = map cd_name ?ds" if "pc_mode (pl_config p) = SharingModeExclusive"
    using that start(1,2) by (simp add: buildDeviceList_def exclusive_device_def comp_def)
  have distinct: "distinct (map cd_name ?ds)" unfolding names using assms(2) by (rule distinct_map_filter)
  have mounted: "map ds_host_path (ar_devices (allocate_container p' [i])) = [''/dev/'' @ i]"
    if "pc_mode (pl_config p) = SharingModeExclusive" and "i \<in> set (map cd_name ?ds)" for i
  proof -
    let ?d = "the (find (\<lambda>d. cd_name d = i) ?ds)"
    have i: "i \<in> cd_name ` set ?ds" using that(2) by (simp only: set_map)
    then have "cd_path ?d = ''/dev/'' @ i" using find_name_the [OF i] scanned_path by metis
    then show ?thesis
      using i start(1,2) that(1) exclusive_allocation_list [of p' "[i]"] by simp
  qed
  show ?thesis
    using start(3,4) assms(4) ids distinct mounted names
    by (auto simp: readyz_def isReady_def Stop_def setReady_def)
qed

definition sample_start :: "sysfs \<Rightarrow> start_env" where
  "sample_start fs =
     \<lparr>se_discover = DiscoverDevices fs, se_remove_socket = None, se_listen = None, se_attempts = 3,
      se_client_ok = (\<lambda>i. i = 1), se_connect = None, se_register = (\<lambda>r. None)\<rparr>"

definition sample_tree :: sysfs where
  "sample_tree =
     \<lparr>sf_class = DirEntries [\<lparr>de_name = ''cxi0'', de_is_dir = False, de_is_symlink = True\<rparr>,
        \<lparr>de_name = ''README'', de_is_dir = False, de_is_symlink = False\<rparr>],
      sf_readlink = Map.empty, sf_readfile = Map.empty\<rparr>"

theorem started_plugin_serves_scan_witness:
  "\<exists>p'. Start (sample_start sample_tree) ((sample_plugin SharingModeExclusive)\<lparr>pl_ready := False\<rparr>) = (p', None) \<and>
     readyz p' = 200 \<and> map pd_id (buildDeviceList p') = [''cxi0''] \<and>
     map ds_host_path (ar_devices (allocate_container p' [''cxi0''])) = [''/dev/cxi0'']"
proof -
  let ?p = "(sample_plugin SharingModeExclusive)\<lparr>pl_ready := False\<rparr>" and ?e = "sample_start sample_tree"
  obtain p' err where s: "Start ?e ?p = (p', err)" by (cases "Start ?e ?p")
  have "\<exists>i<3. i = (1 :: nat)" by simp
  then show ?thesis
    using started_plugin_serves_scan [OF _ _ _ _ s, of sample_tree] s
    by (auto simp: sample_tree_def sample_start_def sample_plugin_def is_cxi_entry_def)
qed

end
