(* ===== verification/Mains.thy ===== *)
theory Mains
  imports NodeReport DevicePlugin SidecarInjector Samples
begin

text \<open>
  The five programs (\<open>cmd/\<close>): what each makes of its command line and its environment, up to the
  point where it serves. A run ends with an exit code or goes on with the component it started;
  the component's own behaviour is in its theory. What is printed is left out.
\<close>

datatype 'a process = Exit int | Running 'a

text \<open>A command line package \<open>flag\<close> rejects: the usage was asked for, or there is an error.\<close>

definition flag_exit :: "flag_error \<Rightarrow> int" where
  "flag_exit e = (if e = HelpRequested then 0 else 2)"

definition parsed :: "(string \<times> flag_kind) list \<Rightarrow> string list \<Rightarrow> ((string \<times> string) list \<Rightarrow> 'a process) \<Rightarrow> 'a process" where
  "parsed fs args k = (case flag_parse fs [] args of Inl e \<Rightarrow> Exit (flag_exit e) | Inr asg \<Rightarrow> k asg)"

definition bool_flag :: "(string \<times> string) list \<Rightarrow> string \<Rightarrow> bool \<Rightarrow> bool" where
  "bool_flag asg n d =
     (case map_of asg n of
        None \<Rightarrow> d
      | Some v \<Rightarrow> (case ParseBool v of Inl _ \<Rightarrow> d | Inr b \<Rightarrow> b))"

section \<open>The retry handler\<close>

text \<open>
  A supervisor, or (in single mode) the program that replaces the process. What the host answers:
  the devices found, whether a path is reported not to exist, and why the replacement fails.
\<close>

datatype retry_process = Supervising supervisor | Executing string "string list"

record retry_host =
  rt_devices :: "string + CXIDevice list"
  rt_missing :: "string \<Rightarrow> bool"
  rt_exec :: "string \<Rightarrow> string list \<Rightarrow> string option"

definition retry_flags :: "(string \<times> flag_kind) list" where
  "retry_flags =
     [(''mode'', StringFlag), (''device'', StringFlag), (''cxi-rh-path'', StringFlag), (''health-port'', IntFlag)]"

definition runSupervisorMode :: "retry_host \<Rightarrow> string \<Rightarrow> int \<Rightarrow> retry_process process" where
  "runSupervisorMode h path port =
     (case Start_supervisor (rt_devices h) (NewSupervisor path port) of
        (s, Some e) \<Rightarrow> Exit 1
      | (s, None) \<Rightarrow> Running (Supervising s))"

definition runSingleMode :: "retry_host \<Rightarrow> string \<Rightarrow> string \<Rightarrow> retry_process process" where
  "runSingleMode h device path =
     (let dev = ''/dev/'' @ device; argv = [path, ''-d'', dev]
      in if rt_missing h dev then Exit 1
         else if rt_missing h path then Exit 1
         else (case rt_exec h path argv of
                 Some e \<Rightarrow> Exit 1
               | None \<Rightarrow> Running (Executing path argv)))"

definition retry_handler_main :: "retry_host \<Rightarrow> string list \<Rightarrow> retry_process process" where
  "retry_handler_main h args = parsed retry_flags args (\<lambda>asg.
     let mode = string_flag asg ''mode'' ''supervisor'';
         device = string_flag asg ''device'' '''';
         path = string_flag asg ''cxi-rh-path'' ''/usr/bin/cxi_rh'';
         port = int_flag asg ''health-port'' 8080
     in if mode = ''supervisor'' then runSupervisorMode h path port
        else if mode = ''single'' then (if device = '''' then Exit 1 else runSingleMode h device path)
        else Exit 1)"

section \<open>The device plugin\<close>

definition plugin_flags :: "(string \<times> flag_kind) list" where
  "plugin_flags = [(''resource-name'', StringFlag), (''sharing-mode'', StringFlag), (''shared-capacity'', IntFlag)]"

text \<open>The capacity is cut to 32 bits; the health port is not set here.\<close>

definition plugin_settings :: "(string \<times> string) list \<Rightarrow> PluginConfig" where
  "plugin_settings asg =
     \<lparr>pc_resource = string_flag asg ''resource-name'' DefaultResourceName,
      pc_mode = string_flag asg ''sharing-mode'' ''shared'',
      pc_capacity = word_of_int (int_flag asg ''shared-capacity'' (sint DefaultSharedCapacity)),
      pc_health_port = 0\<rparr>"

definition device_plugin_main :: "start_env \<Rightarrow> string list \<Rightarrow> plugin process" where
  "device_plugin_main e args = parsed plugin_flags args (\<lambda>asg.
     case Start e (NewCXIDevicePlugin (plugin_settings asg)) of
       (p, Some err) \<Rightarrow> Exit 1
     | (p, None) \<Rightarrow> Running p)"

section \<open>The driver agent\<close>

definition agent_flags :: "(string \<times> flag_kind) list" where
  "agent_flags =
     [(''node-name'', StringFlag), (''namespace'', StringFlag), (''driver-source'', StringFlag),
      (''dkms-source-url'', StringFlag), (''dkms-tag'', StringFlag), (''prebuilt-url'', StringFlag),
      (''health-port'', IntFlag), (''poll-interval'', DurationFlag)]"

definition agent_settings :: "environ \<Rightarrow> (string \<times> string) list \<Rightarrow> AgentConfig" where
  "agent_settings env asg =
     (let ns = string_flag asg ''namespace'' (Getenv env ''NAMESPACE'')
      in \<lparr>ag_node = string_flag asg ''node-name'' (Getenv env ''NODE_NAME''),
          ag_namespace = (if ns = '''' then ''slingshot-system'' else ns),
          ag_source = string_flag asg ''driver-source'' ''preinstalled'',
          ag_dkms_url = string_flag asg ''dkms-source-url'' '''',
          ag_pkg_name = '''', ag_pkg_version = '''',
          ag_tag = string_flag asg ''dkms-tag'' (Getenv env ''DKMS_TAG''),
          ag_platform = '''',
          ag_prebuilt_url = string_flag asg ''prebuilt-url'' '''',
          ag_health_port = int_flag asg ''health-port'' 8081,
          ag_poll_interval = duration_flag asg ''poll-interval'' (30 * Second),
          ag_mask = 0, ag_no_labels = False\<rparr>)"

definition driver_agent_main ::
  "environ \<Rightarrow> string option \<Rightarrow> string option \<Rightarrow> host \<Rightarrow> string list \<Rightarrow> (agent \<times> trace) process" where
  "driver_agent_main env no_config no_client H args = parsed agent_flags args (\<lambda>asg.
     let c = agent_settings env asg
     in if ag_node c = '''' then Exit 1
        else (case Start_agent no_config no_client (NewAgent c) H [] of
                Inl e \<Rightarrow> Exit 1
              | Inr r \<Rightarrow> Running r))"

section \<open>The metrics exporter\<close>

definition exporter_flags :: "(string \<times> flag_kind) list" where
  "exporter_flags =
     [(''node-name'', StringFlag), (''metrics-port'', IntFlag), (''scrape-interval'', DurationFlag),
      (''retry-handler-url'', StringFlag)]"

definition exporter_settings :: "string \<Rightarrow> (string \<times> string) list \<Rightarrow> MetricsConfig" where
  "exporter_settings node asg =
     \<lparr>mc_node = node,
      mc_port = int_flag asg ''metrics-port'' 9090,
      mc_interval = duration_flag asg ''scrape-interval'' (15 * Second),
      mc_url = string_flag asg ''retry-handler-url'' ''http://localhost:8080''\<rparr>"

text \<open>Without a name the host's own is asked for. \<open>Start\<close> of the exporter never fails.\<close>

definition metrics_exporter_main :: "environ \<Rightarrow> string + string \<Rightarrow> string list \<Rightarrow> exporter process" where
  "metrics_exporter_main env hostname args = parsed exporter_flags args (\<lambda>asg.
     let node = string_flag asg ''node-name'' (Getenv env ''NODE_NAME'')
     in if node \<noteq> '''' then Running (NewExporter (exporter_settings node asg))
        else (case hostname of
                Inl e \<Rightarrow> Exit 1
              | Inr n \<Rightarrow> Running (NewExporter (exporter_settings n asg))))"

section \<open>The operator\<close>

text \<open>
  What the manager is made of: the metrics server (its address, whether it is served over HTTPS and
  checks its clients, its certificate files), the certificate files of the webhook server, whether
  both are kept from HTTP/2, the probes, the leader election and its lock, the namespace of the
  reconciler, and the webhooks.
\<close>

record operator_process =
  op_metrics_address :: string
  op_metrics_secure :: bool
  op_metrics_auth :: bool
  op_metrics_cert :: "(string \<times> string \<times> string) option"
  op_webhook_cert :: "(string \<times> string \<times> string) option"
  op_http1_only :: bool
  op_probe_address :: string
  op_leader_election :: bool
  op_leader_lock :: string
  op_namespace :: string
  op_webhooks :: "WebhookConfig option"

definition operator_flags :: "(string \<times> flag_kind) list" where
  "operator_flags =
     [(''metrics-bind-address'', StringFlag), (''namespace'', StringFlag),
      (''health-probe-bind-address'', StringFlag), (''leader-elect'', BoolFlag), (''metrics-secure'', BoolFlag),
      (''webhook-cert-path'', StringFlag), (''webhook-cert-name'', StringFlag), (''webhook-cert-key'', StringFlag),
      (''metrics-cert-path'', StringFlag), (''metrics-cert-name'', StringFlag), (''metrics-cert-key'', StringFlag),
      (''enable-http2'', BoolFlag), (''enable-sidecar-webhook'', BoolFlag),
      (''enable-cxidriver-webhook'', BoolFlag), (''retry-handler-image'', StringFlag)]"

definition cert_files :: "(string \<times> string) list \<Rightarrow> string \<Rightarrow> (string \<times> string \<times> string) option" where
  "cert_files asg server =
     (let path = string_flag asg (server @ ''-cert-path'') ''''
      in if path = '''' then None
         else Some (path, string_flag asg (server @ ''-cert-name'') ''tls.crt'',
                    string_flag asg (server @ ''-cert-key'') ''tls.key''))"

definition webhook_settings :: "environ \<Rightarrow> (string \<times> string) list \<Rightarrow> WebhookConfig option" where
  "webhook_settings env asg =
     (let inj = bool_flag asg ''enable-sidecar-webhook'' (GetEnvBool env ''ENABLE_SIDECAR_WEBHOOK'' False);
          val = bool_flag asg ''enable-cxidriver-webhook'' (GetEnvBool env ''ENABLE_CXIDRIVER_WEBHOOK'' True);
          image = string_flag asg ''retry-handler-image'' (GetEnv env ''RETRY_HANDLER_IMAGE'' DefaultRetryHandlerImage)
      in if inj \<or> val
         then Some \<lparr>wc_injector = \<lparr>sic_image = image, sic_cxi_rh_path = '''', sic_resource_name = '''',
                                   sic_native = False\<rparr>,
                    wc_enable_injector = inj, wc_enable_validator = val\<rparr>
         else None)"

definition operator_settings :: "environ \<Rightarrow> (string \<times> string) list \<Rightarrow> operator_process" where
  "operator_settings env asg =
     (let secure = bool_flag asg ''metrics-secure'' True
      in \<lparr>op_metrics_address =
            string_flag asg ''metrics-bind-address'' (GetEnv env ''METRICS_BIND_ADDRESS'' ''0''),
          op_metrics_secure = secure,
          op_metrics_auth = secure,
          op_metrics_cert = cert_files asg ''metrics'',
          op_webhook_cert = cert_files asg ''webhook'',
          op_http1_only = (\<not> bool_flag asg ''enable-http2'' False),
          op_probe_address = string_flag asg ''health-probe-bind-address''
            (GetEnv env ''HEALTH_PROBE_BIND_ADDRESS'' DefaultHealthProbeBindAddress),
          op_leader_election = bool_flag asg ''leader-elect'' False,
          op_leader_lock = ''bf7f9b28.hpe.com'',
          op_namespace = string_flag asg ''namespace'' (GetEnv env EnvOperatorNamespace DefaultNamespace),
          op_webhooks = webhook_settings env asg\<rparr>)"

text \<open>
  The calls that can fail before the manager serves, in order; the libraries' own flags are the
  parameter \<open>lib\<close>, and \<open>fails\<close> says which call fails. Registering the webhooks cannot fail.
\<close>

datatype boot_call = RestConfig | NewManager | ReconcilerSetup | HealthzCheck | ReadyzCheck

definition operator_main ::
  "(string \<times> flag_kind) list \<Rightarrow> environ \<Rightarrow> (boot_call \<Rightarrow> bool) \<Rightarrow> string list \<Rightarrow> operator_process process" where
  "operator_main lib env fails args = parsed (operator_flags @ lib) args (\<lambda>asg.
     if list_ex fails [RestConfig, NewManager, ReconcilerSetup, HealthzCheck, ReadyzCheck] then Exit 1
     else Running (operator_settings env asg))"

section \<open>The environment of a container\<close>

text \<open>
  The kubelet starts a container with the variables of its manifest over those of the image; a
  field reference is replaced by the field's value.
\<close>

definition container_environ :: "(string \<Rightarrow> string) \<Rightarrow> environ \<Rightarrow> Container \<Rightarrow> environ" where
  "container_environ field base c =
     foldl (\<lambda>env v. env(env_name v \<mapsto> (case env_source v of EnvValue x \<Rightarrow> x | EnvFieldRef p \<Rightarrow> field p)))
       base (c_env c)"

definition main_container :: "DaemonSet \<Rightarrow> Container" where
  "main_container ds = hd (ps_containers (dss_pod (ds_spec ds)))"

section \<open>Integer flags read back\<close>

lemma nat_digits_no_underscore: "CHR ''_'' \<notin> set (nat_digits n)"
proof
  assume "CHR ''_'' \<in> set (nat_digits n)"
  then obtain k where k: "k < 10" "CHR ''_'' = digit_char k" using nat_digits_digits by blast
  then have "of_char (CHR ''_'') = (48 + int k)" using of_char_digit_char [OF k(1)] by metis
  with k(1) show False by simp
qed

lemma parse_digits_underscores:
  "CHR ''_'' \<notin> set s \<Longrightarrow> parse_digits True b m n s = parse_digits False b m n s"
  by (induction s arbitrary: n) (auto split: option.split)

lemma base_prefix_decimal: "s \<noteq> [] \<Longrightarrow> hd s \<noteq> CHR ''0'' \<Longrightarrow> base_prefix s = (10, s)"
  by (cases s rule: base_prefix.cases) auto

lemma ParseUint0_nat_digits: "0 < n \<Longrightarrow> int n < 2 ^ bits \<Longrightarrow> ParseUint0 (nat_digits n) bits = Inr (int n)"
  by (simp add: ParseUint0_def base_prefix_decimal nat_digits_hd parse_digits_underscores
      nat_digits_no_underscore parse_digits_nat_digits)

lemma ParseInt0_Itoa:
  assumes "i \<noteq> 0" and "- (2 ^ 63) \<le> i" and "i < 2 ^ 63"
  shows "ParseInt0 (Itoa i) = Inr i"
proof (cases "i < 0")
  case True
  then have "ParseUint0 (nat_digits (nat (- i))) 64 = Inr (int (nat (- i)))"
    using assms by (intro ParseUint0_nat_digits) simp_all
  then show ?thesis
    using True assms by (simp add: ParseInt0_def Itoa_def split_sign_def signed_of_def)
next
  case False
  then have "ParseUint0 (nat_digits (nat i)) 64 = Inr (int (nat i))"
    using assms by (intro ParseUint0_nat_digits) simp_all
  then show ?thesis
    using False assms by (simp add: ParseInt0_def Itoa_def split_sign_nat_digits signed_of_def)
qed

lemma metrics_port_nonzero: "sint (metrics_port d) \<noteq> 0"
  by (auto simp: metrics_port_def Let_def dest: arg_cong [where f = "of_int :: int \<Rightarrow> i32"])

lemma metrics_port_flag: "ParseInt0 (sprint_i32 (metrics_port d)) = Inr (sint (metrics_port d))"
proof -
  note metrics_port_nonzero
  moreover have "- (2 ^ 31) \<le> sint (metrics_port d)" "sint (metrics_port d) < 2 ^ 31"
    using sint_ge [of "metrics_port d"] sint_lt [of "metrics_port d"] by simp_all
  ultimately show ?thesis unfolding sprint_i32_def by (intro ParseInt0_Itoa) simp_all
qed

section \<open>What the operator's containers run\<close>

lemma retry_pod_rejected:
  "retry_handler_main h (c_args (main_container (buildRetryHandlerDaemonSet ns d))) = Exit 2"
  by (simp add: main_container_def buildRetryHandlerDaemonSet_def Let_def retry_handler_main_def parsed_def
      retry_flags_def flag_token_def value_ok_def flag_exit_def)

lemma plugin_pod:
  "device_plugin_main e (c_args (main_container (buildDevicePluginDaemonSet ns d))) = Running p \<Longrightarrow>
     pl_config p = \<lparr>pc_resource = ''hpe.com/cxi'', pc_mode = ''shared'', pc_capacity = 100, pc_health_port = 8082\<rparr>"
  by (auto simp: main_container_def buildDevicePluginDaemonSet_def Let_def device_plugin_main_def parsed_def
      plugin_settings_def string_flag_def int_flag_def NewCXIDevicePlugin_def Start_def setReady_def
      split: sum.splits option.splits)

lemma agent_pod_settings:
  "agent_settings (container_environ field base (main_container (buildDriverAgentDaemonSet ns d))) [] =
     \<lparr>ag_node = field ''spec.nodeName'', ag_namespace = GetEnv base ''NAMESPACE'' ''slingshot-system'',
      ag_source = DriverSource_preinstalled, ag_dkms_url = '''', ag_pkg_name = '''', ag_pkg_version = '''',
      ag_tag = (case src_dkms (spec_source (drv_spec d)) of
                  None \<Rightarrow> Getenv base ''DKMS_TAG''
                | Some k \<Rightarrow> if dkms_tag k = '''' then Getenv base ''DKMS_TAG'' else dkms_tag k),
      ag_platform = '''', ag_prebuilt_url = '''', ag_health_port = 8081, ag_poll_interval = 30 * Second,
      ag_mask = 0, ag_no_labels = False\<rparr>"
  by (simp add: agent_settings_def container_environ_def main_container_def buildDriverAgentDaemonSet_def
      buildDriverAgentEnvVars_def Let_def string_flag_def int_flag_def duration_flag_def Getenv_def GetEnv_def
      str_at_def env_value_def env_field_def split: option.split)

lemma ensureDriver_preinstalled: "ag_source c = DriverSource_preinstalled \<Longrightarrow> ensureDriver c = verifyPreinstalled"
  by (simp add: ensureDriver_def)

lemma agent_pod:
  fixes ns :: string and d :: CXIDriver
  assumes "field ''spec.nodeName'' \<noteq> ''''"
  defines "c \<equiv> main_container (buildDriverAgentDaemonSet ns d)"
  shows "\<exists>a. driver_agent_main (container_environ field base c) None None H (c_args c) =
    Running (a, snd (verifyPreinstalled H [])) \<and> (ga_ready a \<longleftrightarrow> is_ok (fst (verifyPreinstalled H [])))"
proof -
  have args: "c_args c = []" by (simp add: c_def main_container_def buildDriverAgentDaemonSet_def Let_def)
  show ?thesis
    using assms(1) unfolding args
    by (cases "verifyPreinstalled H []")
       (auto simp: driver_agent_main_def parsed_def agent_pod_settings c_def Start_agent_def setup_driver_def NewAgent_def
        ensureDriver_preinstalled setDriverReady_def setError_def Let_def split: sum.split)
qed

lemma exporter_pod:
  fixes ns :: string and d :: CXIDriver
  assumes "field ''spec.nodeName'' \<noteq> ''''"
  defines "c \<equiv> main_container (buildMetricsExporterDaemonSet ns d)"
  shows "metrics_exporter_main (container_environ field base c) hostname (c_args c) =
    Running (NewExporter
      \<lparr>mc_node = field ''spec.nodeName'', mc_port = sint (metrics_port d), mc_interval = 15 * Second,
       mc_url = (let rh = spec_retry_handler (drv_spec d)
                 in if rh_enabled rh \<and> rh_mode rh \<in> {RetryHandlerModeSidecar, RetryHandlerModeKernel, RetryHandlerModeNone}
                    then '''' else ''http://localhost:8080'')\<rparr>)"
proof -
  have env: "Getenv (container_environ field base c) ''NODE_NAME'' = field ''spec.nodeName''"
    by (simp add: c_def container_environ_def main_container_def buildMetricsExporterDaemonSet_def Let_def
        Getenv_def str_at_def env_field_def)
  have args: "c_args c = metrics_args d"
    by (simp add: c_def main_container_def buildMetricsExporterDaemonSet_def Let_def)
  show ?thesis
    using assms(1) env unfolding args metrics_args_def
    by (simp add: metrics_exporter_main_def parsed_def exporter_flags_def flag_token_def value_ok_def
        metrics_port_flag exporter_settings_def string_flag_def int_flag_def duration_flag_def Let_def)
qed

text \<open>The sidecar: it replaces itself by the handler of \<open>cxi0\<close>, or has no device to manage and fails.\<close>

lemma sidecar_runs:
  assumes "sic_cxi_rh_path cfg \<noteq> ''''"
  shows "retry_handler_main h (c_args (buildSidecarContainer cfg ds)) =
    (if ds = [] then Exit 1 else runSingleMode h ''cxi0'' (sic_cxi_rh_path cfg))"
  by (simp add: retry_handler_main_def parsed_def buildSidecarContainer_def retry_flags_def flag_token_def
      value_ok_def string_flag_def Let_def)

text \<open>
  C40: What the operator's pods do with their command lines and environments, whatever driver
  they are deployed for. The retry handler's command line is rejected with exit code 2, on every
  host. A device plugin that runs serves the default resource with the default shared capacity.
  The driver agent does what a preinstalled driver needs and no more, and is ready exactly if that
  succeeds. The exporter serves the port its manifest names, asking the local retry handler unless
  the driver's mode has none. The injected sidecar runs the handler of \<open>cxi0\<close> if the pod asks for a
  device in a container's limits, and otherwise exits.
\<close>

theorem what_the_pods_run:
  fixes ns :: string and d :: CXIDriver
  assumes node: "field ''spec.nodeName'' \<noteq> ''''"
    and path: "sic_cxi_rh_path cfg \<noteq> ''''"
  shows "retry_handler_main h (c_args (main_container (buildRetryHandlerDaemonSet ns d))) = Exit 2 \<and>
    (\<forall>p. device_plugin_main e (c_args (main_container (buildDevicePluginDaemonSet ns d))) = Running p \<longrightarrow>
       pl_config p =
         \<lparr>pc_resource = ''hpe.com/cxi'', pc_mode = ''shared'', pc_capacity = 100, pc_health_port = 8082\<rparr>) \<and>
    (\<exists>a. driver_agent_main
           (container_environ field base (main_container (buildDriverAgentDaemonSet ns d))) None None H
           (c_args (main_container (buildDriverAgentDaemonSet ns d))) =
         Running (a, snd (verifyPreinstalled H [])) \<and>
       (ga_ready a \<longleftrightarrow> is_ok (fst (verifyPreinstalled H [])))) \<and>
    metrics_exporter_main
        (container_environ field base (main_container (buildMetricsExporterDaemonSet ns d))) hostname
        (c_args (main_container (buildMetricsExporterDaemonSet ns d))) =
      Running (NewExporter
        \<lparr>mc_node = field ''spec.nodeName'', mc_port = sint (metrics_port d), mc_interval = 15 * Second,
         mc_url = (let rh = spec_retry_handler (drv_spec d)
                   in if rh_enabled rh \<and>
                         rh_mode rh \<in> {RetryHandlerModeSidecar, RetryHandlerModeKernel, RetryHandlerModeNone}
                      then '''' else ''http://localhost:8080'')\<rparr>) \<and>
    retry_handler_main h (c_args (buildSidecarContainer cfg (findCXIDevices p0))) =
      (if findCXIDevices p0 = [] then Exit 1 else runSingleMode h ''cxi0'' (sic_cxi_rh_path cfg))"
  using retry_pod_rejected plugin_pod agent_pod [of field, OF node] exporter_pod [of field, OF node] sidecar_runs [OF path]
  by blast


definition sample_retry_host :: retry_host where
  "sample_retry_host =
     \<lparr>rt_devices = Inr [sample_device ''cxi0'' ''1''], rt_missing = (\<lambda>p. False), rt_exec = (\<lambda>p argv. None)\<rparr>"

text \<open>A pod that asks for a device in its requests only gets a sidecar, which exits.\<close>

theorem what_the_pods_run_witness:
  "retry_handler_main sample_retry_host
       (c_args (main_container (buildRetryHandlerDaemonSet ''ops'' (sample_driver ''a'' False [] RetryHandlerModeDaemonSet)))) =
     Exit 2 \<and>
   shouldInject (sample_pod [(''hpe.com/cxi'', ''1'')] []) \<and>
   retry_handler_main sample_retry_host
     (c_args (buildSidecarContainer (si_config (sample_injector False))
        (findCXIDevices (sample_pod [(''hpe.com/cxi'', ''1'')] [])))) = Exit 1"
proof -
  have "(\<lambda>p. ''n1'') ''spec.nodeName'' \<noteq> ''''" by simp
  moreover have "sic_cxi_rh_path (si_config (sample_injector False)) \<noteq> ''''"
    by (simp add: sample_injector_def InjectDecoder_def NewSidecarInjector_def)
  moreover have "findCXIDevices (sample_pod [(''hpe.com/cxi'', ''1'')] []) = []"
    by (simp add: findCXIDevices_def sample_pod_def)
  moreover have "shouldInject (sample_pod [(''hpe.com/cxi'', ''1'')] [])"
    by (simp add: shouldInject_def sample_pod_def requestsCXIDevice_def containerRequestsCXI_def)
  ultimately show ?thesis
    using what_the_pods_run
      [where field = "\<lambda>p. ''n1''" and cfg = "si_config (sample_injector False)" and h = sample_retry_host
         and ns = "''ops''" and d = "sample_driver ''a'' False [] RetryHandlerModeDaemonSet"
         and ?p0.0 = "sample_pod [(''hpe.com/cxi'', ''1'')] []"]
    by simp
qed

end
