(* ===== verification/Probes.thy ===== *)
theory Probes
  imports Mains
begin

text \<open>
  The health servers of the programs against the liveness probes that the operator writes into
  their pods. A server is the port it listens on, the second from which it does (if ever), and the
  status code of each path. The kubelet probes a container first between one initial delay and one
  period later, then once a period, and kills it after three failures in a row, which is the
  default where a manifest sets no threshold, as the operator's manifests do not.
\<close>

section \<open>The kubelet's side\<close>

record health_server =
  hs_port :: int
  hs_up :: "int option"
  hs_code :: "string \<Rightarrow> int"

definition probe_ok :: "Probe \<Rightarrow> health_server \<Rightarrow> int \<Rightarrow> bool" where
  "probe_ok p s t \<longleftrightarrow>
     hs_port s = sint (pr_port p) \<and> (case hs_up s of None \<Rightarrow> False | Some u \<Rightarrow> u \<le> t) \<and>
     200 \<le> hs_code s (pr_path p) \<and> hs_code s (pr_path p) < 400"

text \<open>The second of the \<open>k\<close>-th probe, if the first is made \<open>late\<close> seconds after the initial delay.\<close>

definition probe_time :: "Probe \<Rightarrow> int \<Rightarrow> nat \<Rightarrow> int" where
  "probe_time p late k = sint (pr_initial_delay p) + late + int k * sint (pr_period p)"

definition liveness_kills :: "Probe \<Rightarrow> int \<Rightarrow> health_server \<Rightarrow> bool" where
  "liveness_kills p late s \<longleftrightarrow> (\<exists>k. \<forall>i<3. \<not> probe_ok p s (probe_time p late (k + i)))"

definition pod_killed :: "DaemonSet \<Rightarrow> int \<Rightarrow> health_server \<Rightarrow> bool" where
  "pod_killed ds late s =
     (case c_liveness (main_container ds) of None \<Rightarrow> False | Some p \<Rightarrow> liveness_kills p late s)"

section \<open>The programs' side\<close>

text \<open>
  The exporter starts its server at once, and so does the device plugin once it has discovered
  devices; the agent only when the set-up of the driver has returned; the supervisor only if there
  is a device.
\<close>

definition exporter_endpoint :: "string \<Rightarrow> int" where
  "exporter_endpoint path =
     (if path = ''/metrics'' \<or> path = ''/healthz'' \<or> path = ''/readyz'' then 200 else 404)"

definition exporter_server :: "exporter \<Rightarrow> health_server" where
  "exporter_server e = \<lparr>hs_port = mc_port (ex_config e), hs_up = Some 0, hs_code = exporter_endpoint\<rparr>"

definition plugin_server :: "plugin \<Rightarrow> health_server" where
  "plugin_server p =
     \<lparr>hs_port = pc_health_port (pl_config p), hs_up = Some 0,
      hs_code = (\<lambda>path. if path = ''/healthz'' then healthz p
                        else if path = ''/readyz'' then readyz p else 404)\<rparr>"

definition agent_endpoint :: "agent \<Rightarrow> string \<Rightarrow> int" where
  "agent_endpoint a path =
     (if path = ''/healthz'' then fst (agent_healthz a)
      else if path = ''/readyz'' then fst (agent_readyz a)
      else if path = ''/status'' then 200 else 404)"

text \<open>The time the set-up took is that of the operations it tried.\<close>

definition setup_time :: "(host_op \<Rightarrow> nat) \<Rightarrow> trace \<Rightarrow> int" where
  "setup_time dur t = int (sum_list (map (dur \<circ> fst) t))"

definition agent_server :: "(host_op \<Rightarrow> nat) \<Rightarrow> agent \<times> trace \<Rightarrow> health_server" where
  "agent_server dur = (\<lambda>(a, t).
     \<lparr>hs_port = ag_health_port (ga_config a), hs_up = Some (setup_time dur t), hs_code = agent_endpoint a\<rparr>)"

definition supervisor_endpoint :: "supervisor \<Rightarrow> string \<Rightarrow> int" where
  "supervisor_endpoint s path =
     (if path = ''/healthz'' then supervisor_healthz s
      else if path = ''/readyz'' \<or> path = ''/status'' then 200 else 404)"

definition supervisor_server :: "supervisor \<Rightarrow> health_server" where
  "supervisor_server s =
     \<lparr>hs_port = su_port s, hs_up = (if su_health_server s then Some 0 else None),
      hs_code = supervisor_endpoint s\<rparr>"

section \<open>Patience\<close>

lemma silent_server_killed: "hs_up s = None \<Longrightarrow> liveness_kills p late s"
  by (simp add: liveness_kills_def probe_ok_def)

text \<open>A server that answers from second \<open>u\<close> on is killed exactly if it misses the third probe.\<close>

lemma late_server_killed_iff:
  assumes "hs_up s = Some u" and "hs_port s = sint (pr_port p)" and "hs_code s (pr_path p) = 200"
    and "0 < sint (pr_period p)"
  shows "liveness_kills p late s \<longleftrightarrow> probe_time p late 2 < u"
proof
  assume "liveness_kills p late s"
  then obtain k where "\<not> probe_ok p s (probe_time p late (k + 2))"
    unfolding liveness_kills_def by (metis lessI numeral_3_eq_3 numeral_2_eq_2)
  then have "probe_time p late (k + 2) < u" using assms(1-3) by (simp add: probe_ok_def)
  moreover have "probe_time p late 2 \<le> probe_time p late (k + 2)"
    using assms(4) by (simp add: probe_time_def mult_right_mono)
  ultimately show "probe_time p late 2 < u" by simp
next
  assume u: "probe_time p late 2 < u"
  have "probe_time p late i \<le> probe_time p late 2" if "i < 3" for i
    using assms(4) that by (simp add: probe_time_def mult_right_mono)
  with u have "\<forall>i<3. \<not> probe_ok p s (probe_time p late (0 + i))"
    using assms(1) by (force simp: probe_ok_def)
  then show "liveness_kills p late s" unfolding liveness_kills_def by blast
qed

section \<open>The operator's pods\<close>

lemma pod_probes [simp]:
  "c_liveness (main_container (buildDriverAgentDaemonSet ns d)) =
     Some (http_probe ''/healthz'' 8081 30 30 (Some 5))"
  "c_liveness (main_container (buildDevicePluginDaemonSet ns d)) =
     Some (http_probe ''/healthz'' 8082 10 30 (Some 5))"
  "c_liveness (main_container (buildRetryHandlerDaemonSet ns d)) =
     Some (http_probe ''/healthz'' 8080 10 30 None)"
  "c_liveness (main_container (buildMetricsExporterDaemonSet ns d)) =
     Some (http_probe ''/healthz'' (metrics_port d) 10 30 None)"
  by (simp_all add: main_container_def builder_defs Let_def)

lemma probe_time_http [simp]:
  "probe_time (http_probe pa po de pe ti) late k = sint de + late + int k * sint pe"
  by (simp add: probe_time_def http_probe_def)

lemma probe_period_http [simp]: "pr_period (http_probe pa po de pe ti) = pe"
  by (simp add: http_probe_def)

lemma agent_pod_killed:
  assumes "ag_health_port c = 8081" and "Start_agent None None (NewAgent c) H [] = Inr r"
  shows "pod_killed (buildDriverAgentDaemonSet ns d) late (agent_server dur r) \<longleftrightarrow>
    90 + late < setup_time dur (snd r)"
proof -
  obtain a t where r: "r = (a, t)" by (cases r)
  have "ga_config (fst (setup_driver x H t')) = ga_config x" for x t'
    by (auto simp: setup_driver_def setDriverReady_def setError_def split: prod.splits sum.splits)
  then have "ga_config a = ga_config (NewAgent c)"
    using assms(2) r by (simp add: Start_agent_def) (metis fst_conv)
  then have port: "ag_health_port (ga_config a) = 8081"
    using assms(1) by (simp add: NewAgent_def Let_def)
  have s: "hs_up (agent_server dur r) = Some (setup_time dur t)"
    "hs_port (agent_server dur r) = 8081" "hs_code (agent_server dur r) ''/healthz'' = 200"
    using port r by (simp_all add: agent_server_def agent_endpoint_def agent_healthz_def)
  show ?thesis
    using late_server_killed_iff [OF s(1), of "http_probe ''/healthz'' 8081 30 30 (Some 5)" late] s r
    by (simp add: pod_killed_def)
qed

lemma plugin_pod_survives:
  assumes "device_plugin_main e (c_args (main_container (buildDevicePluginDaemonSet ns d))) = Running p"
    and "0 \<le> late"
  shows "\<not> pod_killed (buildDevicePluginDaemonSet ns d) late (plugin_server p)"
  using late_server_killed_iff [of "plugin_server p" 0 "http_probe ''/healthz'' 8082 10 30 (Some 5)" late]
    plugin_pod [OF assms(1)] assms(2)
  by (simp add: pod_killed_def plugin_server_def healthz_def)

lemma exporter_pod_survives:
  assumes "mc_port (ex_config x) = sint (metrics_port d)" and "0 \<le> late"
  shows "\<not> pod_killed (buildMetricsExporterDaemonSet ns d) late (exporter_server x)"
  using late_server_killed_iff [of "exporter_server x" 0 "http_probe ''/healthz'' (metrics_port d) 10 30 None" late]
    assms
  by (simp add: pod_killed_def exporter_server_def exporter_endpoint_def)



end
