(* ===== verification/Spec2Isabelle.thy ===== *)
theory Spec2Isabelle
  imports ControllerQueue Settling CachedReads Admission Validator Lifecycle AgentWire Probes
begin

text \<open>
  A verification development for the Slingshot operator, a Kubernetes operator for HPE Slingshot
  network devices. A \<open>CXIDriver\<close> object says which driver, device plugin, retry handler and metrics
  exporter the nodes should run; the operator turns it into DaemonSets and a webhook, and the
  programs of those DaemonSets run on every node. Every part of the repository's own
  code is modelled; the definitions keep its names.

  \<^bold>\<open>Foundations.\<close>
  \<^item> \<open>Prelude\<close>: generic lemmas, and results that are a value or an error.
  \<^item> \<open>GoStd\<close>, \<open>GoFlag\<close>, \<open>GoJson\<close>: what the code uses of Go's library, written out: string functions,
    \<open>strconv\<close> (printing, parsing, quoting), durations, package \<open>flag\<close>, and the reader of
    \<open>encoding/json\<close>.
  \<^item> \<open>Host\<close>: actions on a host. An action asks the host and performs operations; the operations
    tried, with whether each succeeded, form the trace. What the host answers may depend on all
    that was done before and is otherwise arbitrary. \<open>emits\<close> is the judgement that an action goes
    through given milestones in order, with one rule for each combinator.

  \<^bold>\<open>The operator\<close> (\<open>internal/controller\<close>, \<open>pkg/config\<close>, \<open>api/v1\<close>).
  \<^item> \<open>ApiTypes\<close>, \<open>KubeTypes\<close>: the resources, field by field, and the parts of the Kubernetes objects
    that the code fills. \<open>Config\<close>: \<open>pkg/config/config.go\<close>.
  \<^item> \<open>Manifests\<close>: the builders of the four DaemonSets and of the webhook.
  \<^item> \<open>KubeApi\<close>: the API server as an interface. Its laws are locales (a read answers from the view or
    fails, a write that succeeds has its effect on the view), interpreted on a reference server
    that follows an arbitrary schedule of failures.
  \<^item> \<open>Reconciler\<close>: \<open>Reconcile\<close> and all it calls, statement by statement; \<open>ReconcilerFrame\<close>,
    \<open>ReconcilerStages\<close>, \<open>ReconcilerHandlers\<close>, \<open>ReconcilerSafety\<close>, \<open>ReconcilerLive\<close> hold the
    lemmas by kind and \<open>ReconcilerProps\<close> the properties C1 to C3, C5 to C9 and C11: what a success
    means, the order of the roll-out, the exclusive active driver, the footprint of a request, error
    reporting, convergence and deletion. \<open>Samples\<close> has concrete drivers and clusters.
  \<^item> \<open>Settling\<close> (C4): requests settle. A request that repeats the one before it writes every object
    as it is; by cases over what the first request leaves (\<open>prepared\<close>), on the interface of a
    server that answers. Also what the validator admits is what two requests deploy.
  \<^item> \<open>ControllerQueue\<close> (C10, C16): the controller around \<open>Reconcile\<close>, as a step relation: which
    objects it watches (\<open>SetupWithManager\<close>), whom a change wakes, served requests and the changes
    of others in any order. By rule induction, a driver that nothing is pending for is deployed; and
    a request never wakes another driver, which loses the handover of an active driver.
  \<^item> \<open>CachedReads\<close> (C18): the singleton check on a client that answers reads from a cache, as the
    manager's does, with every outcome by what the reads see.

  \<^bold>\<open>The webhooks\<close> (\<open>pkg/webhook\<close>).
  \<^item> \<open>SidecarInjector\<close> (C26, C27): which pods are given a sidecar, and how; what \<open>SetupWithManager\<close>
    of the webhooks registers.
  \<^item> \<open>Admission\<close> (C28): the webhook the reconciler creates meets the handlers the program registers,
    from a driver in sidecar mode to the pod the API server admits.
  \<^item> \<open>Validator\<close> (C29): every check of a \<open>CXIDriver\<close>, equivalent to a declarative condition.

  \<^bold>\<open>The programs on a node.\<close>
  \<^item> \<open>Discovery\<close> (C14, C15, \<open>pkg/deviceplugin/discovery.go\<close>): the scan of the device tree, node
    identifiers, and the two watch loops over any sequence of events.
  \<^item> \<open>DevicePlugin\<close> (C17, C19 to C21, \<open>plugin.go\<close>): what is advertised, preferred and
    allocated; C20 runs from the device tree to the mounts of a container.
  \<^item> \<open>Supervisor\<close> (C22 to C25, \<open>pkg/retryhandler\<close>): the goroutines of the handlers as a step relation
    under any interleaving, with invariants by rule induction, the exact back-off, and stopping.
  \<^item> \<open>JsonText\<close>, \<open>StatusWire\<close> (C31): the status document the supervisor writes is read back by the exporter's
    client, written in another package without a shared type.
  \<^item> \<open>HostModules\<close>, \<open>Metrics\<close> (C32 to C34, \<open>pkg/metrics\<close>): the scrape and the registry; C34 runs
    from a reachable supervisor through the document to the gauges.
  \<^item> \<open>KernelModules\<close>, \<open>Download\<close>, \<open>DriverAgent\<close> (C35, C39, \<open>pkg/driveragent\<close>): commands, archives and
    builds as actions on the host, and the order of a driver's set-up.
  \<^item> \<open>NodeReport\<close> (C30, C37, C38, \<open>agent.go\<close>): the device objects and node labels a poll writes, over an
    interface of its own for the API server, and the health endpoints.
  \<^item> \<open>AgentWire\<close> (C12): the agent's own status document, read back after any polls, and exactly when
    it is not JSON.
  \<^item> \<open>Lifecycle\<close> (C36): the goroutines of the exporter and of the agent from \<open>Start\<close> to the end of
    \<open>Stop\<close>, one step relation and one locale for both, interpreted on each program's work. Every
    reachable state is that of a list of scrapes or polls, so what \<open>Metrics\<close> and \<open>NodeReport\<close> show
    of such lists holds under every interleaving.
  \<^item> \<open>Mains\<close> (C40, \<open>cmd/\<close>): the five programs from their command lines and environments, and what
    they do with those the operator gives their containers. Here the parts written apart meet.
  \<^item> \<open>Probes\<close> (C13): the health servers of the programs against the liveness probes of their pods.

  \<^bold>\<open>Bounds and fuel.\<close> Integers of the resources are words of their width, Go's \<open>int\<close> is an integer
  with the range checks where the code has them. The groups of a duration and the JSON reader use
  the length of the text as fuel: each step takes a character (\<open>duration_groups_fuel\<close>). The attempts
  of \<open>waitForServer\<close> and of the status update are bounded in the code. All other recursion is
  structural or has a measure.

  \<^bold>\<open>Not modelled.\<close> Logging; the HTTP, gRPC and TLS servers, which are the libraries'; the file system,
  the kernel and the external programs, which are parameters; deep copies and the registration of
  types, which are generated; the handling of signals in the programs, beyond the \<open>Stop\<close> of each
  component; the locks of shared state, each of which guards one assignment or copy (the supervisor's
  unlocked windows are modelled, and C25 is about one of them). In \<open>ControllerQueue\<close>
  a request is one step and reads the state of the cluster (that the manager's cache can lag is
  considered in \<open>CachedReads\<close> only, that other clients can write between two calls of a handler
  nowhere), and leader election is left out: one manager runs. \<open>Probes\<close> and \<open>Admission\<close> write out what the documentation of
  Kubernetes says of probes and of the selection of webhooks, for the fields the program sets.
\<close>

end
